theory Spec2Isabelle
  imports Main
begin

section \<open>The migration orchestrator (migrator.ts)\<close>

text \<open>
  A shallow embedding of the class \<^verbatim>\<open>Migrator\<close> of
  \<^verbatim>\<open>examples/utils/migration-tools/src/migrator.ts\<close>.

  The class is asynchronous. Its collaborators (the migration tool, the model loader, the
  models and the data transformation callback) are external, so the embedding is a
  transition system:
  \<^item> the private fields of the class are the record \<open>Migrator\<close>;
  \<^item> every call the class makes on a collaborator, every event it emits, every listener
    it registers (with the function registered) and every \<^verbatim>\<open>console.error\<close> is an
    \<open>event\<close> of the step's output, in program order;
  \<^item> a listener registered with \<^verbatim>\<open>once\<close> is kept until the tool fires it: firing
    it is a step, which drops the listener and calls the function registered;
  \<^item> every \<^verbatim>\<open>await\<close> of a collaborator's promise suspends the running
    \<^verbatim>\<open>async\<close> function: what is left of it is a \<open>task\<close> (the program point and
    the locals it captured), resumed by a later step that carries how the promise settled;
  \<^item> what the class reads synchronously from its collaborators (the getters of the migration
    tool, \<^verbatim>\<open>haveMigrationTask()\<close>, \<^verbatim>\<open>supportsDataFormat()\<close>,
    \<^verbatim>\<open>version\<close>) is read from a \<open>world\<close>, the snapshot of the collaborators
    at the time of the step. The environment chooses a new snapshot for every step, so
    everything other clients do between two steps is covered;
  \<^item> \<^verbatim>\<open>emit\<close> calls the subscribers of the orchestrator's own events synchronously.
    They are code of the application: where one throws, \<^verbatim>\<open>emit\<close> throws, at the
    place of the emission. The snapshot says for which emissions a subscriber throws.

  Continuations that need no outside input run in the step that enables them: the
  return of the inner \<^verbatim>\<open>async\<close> functions into \<^verbatim>\<open>doTheMigration\<close>, and
  \<^verbatim>\<open>.catch(console.error)\<close>. The \<^verbatim>\<open>.then\<close> continuation of
  \<^verbatim>\<open>ensureMigrating\<close> is a task of its own: it runs once \<^verbatim>\<open>doTheMigration\<close>
  has returned, after the code that made it return. Synchronous calls on the collaborators
  (the tool, the loader, the models) are taken to return normally.
\<close>

subsection \<open>Data\<close>

type_synonym version = string
type_synonym container_id = string
type_synonym data = string

text \<open>Objects of the collaborators are known by their identity.\<close>

type_synonym model = nat
type_synonym tool = nat

datatype MigrationState = Collaborating | Migrating | Migrated

record AcceptedMigration =
  newVersion :: version
  migrationSequenceNumber :: nat

text \<open>\<^verbatim>\<open>IDetachedMigratableModel\<close>: an object with a \<^verbatim>\<open>model\<close> and an
  \<^verbatim>\<open>attach()\<close> method.\<close>

datatype detached = Detached (detached_ref: nat) (detached_model: model)

record MigratableParts =
  model :: model
  migrationTool :: tool
  modelId :: container_id

text \<open>A \<^verbatim>\<open>Promise<void>\<close> held in a field; the class only tests whether the field is
  defined.\<close>

datatype promise = Promise

datatype callback = DataTransformationCallback

text \<open>The functions the class registers as listeners on a tool: there is one, its dispatcher
  \<^verbatim>\<open>this.takeAppropriateActionForCurrentMigratable\<close>.\<close>

datatype listener = Dispatcher

record Migrator =
  currentMigratable :: MigratableParts
  migrationP :: "promise option"
  migratedLoadP :: "promise option"
  preparedDetachedModel :: "detached option"
  preparedModelId :: "container_id option"
  dataTransformationCallback :: "callback option"

datatype error =
    CannotMigrateWhileLoading
  | ExpectAcceptedMigration
  | CannotLoadWhileMigrating
  | ExpectAcceptedVersion
  | NoNewContainer
  | AssertPreparedDetachedModel
  | AssertDisconnected
  | AssertAssigned
  | AssertNewContainerId
  | TypeError
  | ExternalRejection
  | SubscriberError

datatype event =
    Emit_migrating
  | Emit_migrationNotSupported version
  | Emit_migrated model container_id
  | Once tool string listener
  | SupportsVersion version
  | CreateDetached version
  | LoadExistingPaused container_id nat
  | LoadExisting container_id
  | ExportData model
  | Dispose model
  | Transform data version
  | ImportData model data
  | VolunteerForMigration tool
  | Attach detached
  | FinalizeMigration tool container_id
  | CompleteMigrationTask tool
  | ConsoleError error
  | Uncaught error

text \<open>The collaborators as the class can read them synchronously at one instant, and the
  subscribers of its events: \<open>subscriber_throws w e\<close> says that a subscriber throws when
  the orchestrator emits \<open>e\<close> (one of the three \<open>Emit\<close> events).\<close>

record world =
  tool_migrationState :: "tool \<Rightarrow> MigrationState"
  tool_acceptedMigration :: "tool \<Rightarrow> AcceptedMigration option"
  tool_connected :: "tool \<Rightarrow> bool"
  tool_newContainerId :: "tool \<Rightarrow> container_id option"
  tool_haveMigrationTask :: "tool \<Rightarrow> bool"
  model_supportsDataFormat :: "model \<Rightarrow> data \<Rightarrow> bool"
  model_version :: "model \<Rightarrow> version"
  subscriber_throws :: "event \<Rightarrow> bool"

text \<open>How an awaited promise settles, and what it resolves to.\<close>

datatype 'a settled = Rejected | Resolved 'a

datatype payload =
    PBool bool
  | PDetached detached
  | PModel model
  | PData data
  | PUnit
  | PId container_id
  | PLoaded model tool

text \<open>The suspension points of \<^verbatim>\<open>doTheMigration\<close> (with the locals alive there) and
  of \<^verbatim>\<open>doTheLoad\<close>.\<close>

datatype mig_pc =
    AwaitSupportsVersion
  | AwaitCreateDetached
  | AwaitLoadExistingPaused detached
  | AwaitExportData detached model
  | AwaitTransform detached
  | AwaitImportData detached
  | AwaitVolunteer
  | AwaitAttach
  | AwaitFinalize

datatype load_pc =
    LoadAwaitSupportsVersion
  | LoadAwaitLoadExisting

text \<open>A suspended task. A migration task captured \<^verbatim>\<open>migrationTool\<close> and
  \<^verbatim>\<open>acceptedMigration\<close>; a load task captured \<^verbatim>\<open>acceptedMigration\<close> and
  \<^verbatim>\<open>migratedId\<close>; the \<^verbatim>\<open>.then\<close> continuation captured nothing.\<close>

datatype task =
    MigrationTask tool AcceptedMigration mig_pc
  | ThenTask
  | LoadTask AcceptedMigration container_id load_pc

text \<open>Where a run of an \<^verbatim>\<open>async\<close> function stops: at an \<^verbatim>\<open>await\<close>, at its
  return, or at a throw.\<close>

datatype 'pc status = Suspended 'pc | Returned | Failed error

type_synonym 'pc run = "event list \<times> Migrator \<times> 'pc status"

text \<open>What a step leaves: its events, the fields, and the tasks now suspended.\<close>

type_synonym outcome = "event list \<times> Migrator \<times> task list"

text \<open>What a synchronous \<^verbatim>\<open>throw\<close> leaves: the events up to it and the error. (No
  function that throws synchronously has assigned a field before.)\<close>

type_synonym thrown = "event list \<times> error"

subsection \<open>Accessors\<close>

definition currentModel :: "Migrator \<Rightarrow> model" where
  "currentModel st = model (currentMigratable st)"

definition currentMigrationTool :: "Migrator \<Rightarrow> tool" where
  "currentMigrationTool st = migrationTool (currentMigratable st)"

definition currentModelId :: "Migrator \<Rightarrow> container_id" where
  "currentModelId st = modelId (currentMigratable st)"

text \<open>What a reader of \<^verbatim>\<open>currentModel\<close>, \<^verbatim>\<open>currentMigrationTool\<close> and
  \<^verbatim>\<open>currentModelId\<close> observes.\<close>

definition session :: "Migrator \<Rightarrow> model \<times> tool \<times> container_id" where
  "session st = (currentModel st, currentMigrationTool st, currentModelId st)"

definition migrationState :: "world \<Rightarrow> Migrator \<Rightarrow> MigrationState" where
  "migrationState w st = tool_migrationState w (currentMigrationTool st)"

definition connected :: "world \<Rightarrow> Migrator \<Rightarrow> bool" where
  "connected w st = tool_connected w (currentMigrationTool st)"

subsection \<open>The migration attempt: \<^verbatim>\<open>doTheMigration\<close>\<close>

text \<open>\<^verbatim>\<open>completeTheMigration\<close> up to its first \<^verbatim>\<open>await\<close> (lines 227-236): the
  assertion, then the call of \<^verbatim>\<open>volunteerForMigration\<close>.\<close>

definition completeTheMigration :: "Migrator \<Rightarrow> mig_pc run" where
  "completeTheMigration st =
     (if preparedDetachedModel st = None then ([], st, Failed AssertPreparedDetachedModel)
      else ([VolunteerForMigration (currentMigrationTool st)], st, Suspended AwaitVolunteer))"

text \<open>The end of \<^verbatim>\<open>doTheMigration\<close>, after the prepare block (lines 273-278): return
  when another client has completed the migration, else complete it.\<close>

definition afterPrepare :: "world \<Rightarrow> Migrator \<Rightarrow> mig_pc run" where
  "afterPrepare w st =
     (if migrationState w st \<noteq> Migrating then ([], st, Returned)
      else completeTheMigration st)"

text \<open>The three places where \<^verbatim>\<open>prepareTheMigration\<close> gives up (lines 165-169, 208-214
  and 215-220): it emits \<^verbatim>\<open>migrationNotSupported\<close>, then clears \<^verbatim>\<open>_migrationP\<close>
  and returns; the \<^verbatim>\<open>return\<close> leaves \<^verbatim>\<open>prepareTheMigration\<close> only, so
  \<^verbatim>\<open>doTheMigration\<close> goes on. Where a subscriber of the emission throws,
  \<^verbatim>\<open>prepareTheMigration\<close> throws there, before the assignment, and with it
  \<^verbatim>\<open>doTheMigration\<close>.\<close>

definition abandonPrepare :: "world \<Rightarrow> AcceptedMigration \<Rightarrow> Migrator \<Rightarrow> mig_pc run" where
  "abandonPrepare w am st =
     (if subscriber_throws w (Emit_migrationNotSupported (newVersion am))
      then ([Emit_migrationNotSupported (newVersion am)], st, Failed SubscriberError)
      else
        (case afterPrepare w (st\<lparr>migrationP := None\<rparr>) of
           (evs, st', s) \<Rightarrow> (Emit_migrationNotSupported (newVersion am) # evs, st', s)))"

text \<open>\<^verbatim>\<open>prepareTheMigration\<close> up to its first \<^verbatim>\<open>await\<close> (lines 162-164), and what it
  does when each of its promises settles: \<^verbatim>\<open>supportsVersion\<close> (lines 165-173),
  \<^verbatim>\<open>createDetached\<close> (lines 174-187), \<^verbatim>\<open>loadExistingPaused\<close> (line 188),
  \<^verbatim>\<open>exportData\<close> (lines 189-221), the transform callback (lines 203-221) and
  \<^verbatim>\<open>importData\<close> (line 224, then back in \<^verbatim>\<open>doTheMigration\<close>). A promise that rejects
  makes the \<^verbatim>\<open>await\<close> throw.\<close>

definition prepareTheMigration :: "AcceptedMigration \<Rightarrow> Migrator \<Rightarrow> mig_pc run" where
  "prepareTheMigration am st =
     ([SupportsVersion (newVersion am)], st, Suspended AwaitSupportsVersion)"

definition resumeSupportsVersion ::
  "world \<Rightarrow> AcceptedMigration \<Rightarrow> bool settled \<Rightarrow> Migrator \<Rightarrow> mig_pc run" where
  "resumeSupportsVersion w am r st =
     (case r of
        Rejected \<Rightarrow> ([], st, Failed ExternalRejection)
      | Resolved migrationSupported \<Rightarrow>
          if \<not> migrationSupported then abandonPrepare w am st
          else ([CreateDetached (newVersion am)], st, Suspended AwaitCreateDetached))"

definition resumeCreateDetached ::
  "AcceptedMigration \<Rightarrow> detached settled \<Rightarrow> Migrator \<Rightarrow> mig_pc run" where
  "resumeCreateDetached am r st =
     (case r of
        Rejected \<Rightarrow> ([], st, Failed ExternalRejection)
      | Resolved detachedModel \<Rightarrow>
          ([LoadExistingPaused (currentModelId st) (migrationSequenceNumber am)], st,
           Suspended (AwaitLoadExistingPaused detachedModel)))"

definition resumeLoadExistingPaused ::
  "detached \<Rightarrow> model settled \<Rightarrow> Migrator \<Rightarrow> mig_pc run" where
  "resumeLoadExistingPaused detachedModel r st =
     (case r of
        Rejected \<Rightarrow> ([], st, Failed ExternalRejection)
      | Resolved exportModel \<Rightarrow>
          ([ExportData exportModel], st, Suspended (AwaitExportData detachedModel exportModel)))"

definition resumeExportData ::
  "world \<Rightarrow> AcceptedMigration \<Rightarrow> detached \<Rightarrow> model \<Rightarrow> data settled \<Rightarrow> Migrator \<Rightarrow> mig_pc run"
  where
  "resumeExportData w am detachedModel exportModel r st =
     (case r of
        Rejected \<Rightarrow> ([], st, Failed ExternalRejection)
      | Resolved exportedData \<Rightarrow>
          let migratedModel = detached_model detachedModel in
          if model_supportsDataFormat w migratedModel exportedData then
            ([Dispose exportModel, ImportData migratedModel exportedData], st,
             Suspended (AwaitImportData detachedModel))
          else if dataTransformationCallback st \<noteq> None then
            ([Dispose exportModel, Transform exportedData (model_version w migratedModel)], st,
             Suspended (AwaitTransform detachedModel))
          else
            (case abandonPrepare w am st of
               (evs, st', s) \<Rightarrow> (Dispose exportModel # evs, st', s)))"

definition resumeTransform ::
  "world \<Rightarrow> AcceptedMigration \<Rightarrow> detached \<Rightarrow> data settled \<Rightarrow> Migrator \<Rightarrow> mig_pc run" where
  "resumeTransform w am detachedModel r st =
     (case r of
        Rejected \<Rightarrow> abandonPrepare w am st
      | Resolved transformedData \<Rightarrow>
          ([ImportData (detached_model detachedModel) transformedData], st,
           Suspended (AwaitImportData detachedModel)))"

definition resumeImportData ::
  "world \<Rightarrow> detached \<Rightarrow> unit settled \<Rightarrow> Migrator \<Rightarrow> mig_pc run" where
  "resumeImportData w detachedModel r st =
     (case r of
        Rejected \<Rightarrow> ([], st, Failed ExternalRejection)
      | Resolved _ \<Rightarrow> afterPrepare w (st\<lparr>preparedDetachedModel := Some detachedModel\<rparr>))"

text \<open>\<^verbatim>\<open>completeTheMigration\<close> from the check of the task assignment on (lines 257-263);
  \<open>pid\<close> is the value of \<^verbatim>\<open>_preparedModelId\<close>, \<open>mTool\<close> the tool that
  \<^verbatim>\<open>ensureMigrating\<close> captured.\<close>

definition afterAttach :: "world \<Rightarrow> tool \<Rightarrow> container_id \<Rightarrow> Migrator \<Rightarrow> mig_pc run" where
  "afterAttach w mTool pid st =
     (if \<not> tool_haveMigrationTask w (currentMigrationTool st) then ([], st, Returned)
      else ([FinalizeMigration mTool pid], st, Suspended AwaitFinalize))"

text \<open>\<^verbatim>\<open>completeTheMigration\<close> when \<^verbatim>\<open>volunteerForMigration\<close> settles (lines
  235-255), when \<^verbatim>\<open>attach\<close> resolves (lines 254-263) and when
  \<^verbatim>\<open>finalizeMigration\<close> resolves (line 265). \<^verbatim>\<open>attach\<close> is called on the field
  \<^verbatim>\<open>_preparedDetachedModel\<close> as it is then.\<close>

definition resumeVolunteer :: "world \<Rightarrow> tool \<Rightarrow> bool settled \<Rightarrow> Migrator \<Rightarrow> mig_pc run" where
  "resumeVolunteer w mTool r st =
     (case r of
        Rejected \<Rightarrow>
          if connected w st then ([], st, Failed AssertDisconnected) else ([], st, Returned)
      | Resolved isAssigned \<Rightarrow>
          if tool_newContainerId w (currentMigrationTool st) \<noteq> None then ([], st, Returned)
          else if \<not> isAssigned then ([], st, Failed AssertAssigned)
          else
            (case preparedModelId st of
               None \<Rightarrow>
                 (case preparedDetachedModel st of
                    None \<Rightarrow> ([], st, Failed TypeError)
                  | Some d \<Rightarrow> ([Attach d], st, Suspended AwaitAttach))
             | Some pid \<Rightarrow> afterAttach w mTool pid st))"

definition resumeAttach ::
  "world \<Rightarrow> tool \<Rightarrow> container_id settled \<Rightarrow> Migrator \<Rightarrow> mig_pc run" where
  "resumeAttach w mTool r st =
     (case r of
        Rejected \<Rightarrow> ([], st, Failed ExternalRejection)
      | Resolved pid \<Rightarrow> afterAttach w mTool pid (st\<lparr>preparedModelId := Some pid\<rparr>))"

definition resumeFinalize :: "unit settled \<Rightarrow> Migrator \<Rightarrow> mig_pc run" where
  "resumeFinalize r st =
     (case r of
        Rejected \<Rightarrow> ([], st, Failed ExternalRejection)
      | Resolved _ \<Rightarrow> ([CompleteMigrationTask (currentMigrationTool st)], st, Returned))"

text \<open>A promise of a collaborator resolves to a value of the type its signature gives.\<close>

fun asBool :: "payload settled \<Rightarrow> bool settled option" where
  "asBool Rejected = Some Rejected"
| "asBool (Resolved (PBool b)) = Some (Resolved b)"
| "asBool (Resolved _) = None"

fun asDetached :: "payload settled \<Rightarrow> detached settled option" where
  "asDetached Rejected = Some Rejected"
| "asDetached (Resolved (PDetached d)) = Some (Resolved d)"
| "asDetached (Resolved _) = None"

fun asModel :: "payload settled \<Rightarrow> model settled option" where
  "asModel Rejected = Some Rejected"
| "asModel (Resolved (PModel m)) = Some (Resolved m)"
| "asModel (Resolved _) = None"

fun asData :: "payload settled \<Rightarrow> data settled option" where
  "asData Rejected = Some Rejected"
| "asData (Resolved (PData x)) = Some (Resolved x)"
| "asData (Resolved _) = None"

fun asUnit :: "payload settled \<Rightarrow> unit settled option" where
  "asUnit Rejected = Some Rejected"
| "asUnit (Resolved PUnit) = Some (Resolved ())"
| "asUnit (Resolved _) = None"

fun asId :: "payload settled \<Rightarrow> container_id settled option" where
  "asId Rejected = Some Rejected"
| "asId (Resolved (PId i)) = Some (Resolved i)"
| "asId (Resolved _) = None"

fun asLoaded :: "payload settled \<Rightarrow> (model \<times> tool) settled option" where
  "asLoaded Rejected = Some Rejected"
| "asLoaded (Resolved (PLoaded m t)) = Some (Resolved (m, t))"
| "asLoaded (Resolved _) = None"

text \<open>Resuming \<^verbatim>\<open>doTheMigration\<close> at a suspension point; \<open>None\<close> when the promise
  awaited there cannot resolve to the value given.\<close>

fun resumeMigration ::
  "world \<Rightarrow> tool \<Rightarrow> AcceptedMigration \<Rightarrow> mig_pc \<Rightarrow> payload settled \<Rightarrow> Migrator \<Rightarrow>
   mig_pc run option" where
  "resumeMigration w t am AwaitSupportsVersion r st =
     map_option (\<lambda>x. resumeSupportsVersion w am x st) (asBool r)"
| "resumeMigration w t am AwaitCreateDetached r st =
     map_option (\<lambda>x. resumeCreateDetached am x st) (asDetached r)"
| "resumeMigration w t am (AwaitLoadExistingPaused d) r st =
     map_option (\<lambda>x. resumeLoadExistingPaused d x st) (asModel r)"
| "resumeMigration w t am (AwaitExportData d m) r st =
     map_option (\<lambda>x. resumeExportData w am d m x st) (asData r)"
| "resumeMigration w t am (AwaitTransform d) r st =
     map_option (\<lambda>x. resumeTransform w am d x st) (asData r)"
| "resumeMigration w t am (AwaitImportData d) r st =
     map_option (\<lambda>x. resumeImportData w d x st) (asUnit r)"
| "resumeMigration w t am AwaitVolunteer r st =
     map_option (\<lambda>x. resumeVolunteer w t x st) (asBool r)"
| "resumeMigration w t am AwaitAttach r st =
     map_option (\<lambda>x. resumeAttach w t x st) (asId r)"
| "resumeMigration w t am AwaitFinalize r st =
     map_option (\<lambda>x. resumeFinalize x st) (asUnit r)"

text \<open>\<^verbatim>\<open>doTheMigration\<close> up to its first \<^verbatim>\<open>await\<close> (lines 268-278).\<close>

definition doTheMigration :: "world \<Rightarrow> AcceptedMigration \<Rightarrow> Migrator \<Rightarrow> mig_pc run" where
  "doTheMigration w am st =
     (if preparedDetachedModel st = None then prepareTheMigration am st
      else afterPrepare w st)"

text \<open>\<^verbatim>\<open>doTheMigration().then(...).catch(console.error)\<close> (lines 283-298): a suspended run stays a
  task, a return queues the \<^verbatim>\<open>.then\<close> continuation, a throw skips it and is logged.\<close>

definition migrationChain :: "tool \<Rightarrow> AcceptedMigration \<Rightarrow> mig_pc run \<Rightarrow> outcome" where
  "migrationChain t am r =
     (case r of
        (evs, st, Suspended pc) \<Rightarrow> (evs, st, [MigrationTask t am pc])
      | (evs, st, Returned) \<Rightarrow> (evs, st, [ThenTask])
      | (evs, st, Failed e) \<Rightarrow> (evs @ [ConsoleError e], st, []))"

subsection \<open>The entry points and the dispatcher\<close>

text \<open>\<^verbatim>\<open>ensureMigrating\<close> (lines 121-147 and 281-283), \<^verbatim>\<open>ensureLoading\<close> (lines
  301-321 and 356) and \<^verbatim>\<open>takeAppropriateActionForCurrentMigratable\<close> (lines 107-119). A
  \<^verbatim>\<open>throw\<close> is the result \<open>Inl\<close>. The emission of \<open>migrating\<close> (line 281)
  stands before the call of \<^verbatim>\<open>doTheMigration\<close> and in no \<^verbatim>\<open>try\<close> block: where a
  subscriber throws, \<^verbatim>\<open>ensureMigrating\<close> throws. The listener given to
  \<^verbatim>\<open>once\<close> is the dispatcher, both times.\<close>

definition ensureMigrating :: "world \<Rightarrow> Migrator \<Rightarrow> thrown + outcome" where
  "ensureMigrating w st =
     (if \<not> connected w st
      then Inr ([Once (currentMigrationTool st) ''connected'' Dispatcher], st, [])
      else if migrationP st \<noteq> None then Inr ([], st, [])
      else if migratedLoadP st \<noteq> None then Inl ([], CannotMigrateWhileLoading)
      else
        let mTool = currentMigrationTool st in
        (case tool_acceptedMigration w mTool of
           None \<Rightarrow> Inl ([], ExpectAcceptedMigration)
         | Some acceptedMigration \<Rightarrow>
             if subscriber_throws w Emit_migrating then Inl ([Emit_migrating], SubscriberError)
             else
               (case migrationChain mTool acceptedMigration
                       (doTheMigration w acceptedMigration st) of
                  (evs, st', ts) \<Rightarrow>
                    Inr (Emit_migrating # evs, st'\<lparr>migrationP := Some Promise\<rparr>, ts))))"

definition ensureLoading :: "world \<Rightarrow> Migrator \<Rightarrow> thrown + outcome" where
  "ensureLoading w st =
     (if migratedLoadP st \<noteq> None then Inr ([], st, [])
      else if migrationP st \<noteq> None then Inl ([], CannotLoadWhileMigrating)
      else
        let mTool = currentMigrationTool st in
        (case tool_acceptedMigration w mTool of
           None \<Rightarrow> Inl ([], ExpectAcceptedVersion)
         | Some acceptedMigration \<Rightarrow>
             (case tool_newContainerId w mTool of
                None \<Rightarrow> Inl ([], NoNewContainer)
              | Some migratedId \<Rightarrow>
                  Inr ([SupportsVersion (newVersion acceptedMigration)],
                       st\<lparr>migratedLoadP := Some Promise\<rparr>,
                       [LoadTask acceptedMigration migratedId LoadAwaitSupportsVersion]))))"

definition takeAppropriateActionForCurrentMigratable :: "world \<Rightarrow> Migrator \<Rightarrow> thrown + outcome"
  where
  "takeAppropriateActionForCurrentMigratable w st =
     (let state = tool_migrationState w (currentMigrationTool st) in
      if state = Migrating then ensureMigrating w st
      else if state = Migrated then ensureLoading w st
      else Inr ([Once (currentMigrationTool st) ''migrating'' Dispatcher], st, []))"

text \<open>The continuation given to \<^verbatim>\<open>.then\<close> (lines 284-297). What it throws (its assertion, or an error
  of the dispatcher) rejects the chained promise and reaches \<^verbatim>\<open>console.error\<close>.\<close>

definition thenContinuation :: "world \<Rightarrow> Migrator \<Rightarrow> outcome" where
  "thenContinuation w st =
     (if connected w st \<and> tool_newContainerId w (currentMigrationTool st) = None
      then ([ConsoleError AssertNewContainerId], st, [])
      else
        let st' = st\<lparr>migrationP := None\<rparr> in
        (case takeAppropriateActionForCurrentMigratable w st' of
           Inl (evs, e) \<Rightarrow> (evs @ [ConsoleError e], st', [])
         | Inr out \<Rightarrow> out))"

subsection \<open>The load: \<^verbatim>\<open>doTheLoad\<close>\<close>

text \<open>\<^verbatim>\<open>doTheLoad\<close> when \<^verbatim>\<open>supportsVersion\<close> settles (lines 329-335) and when
  \<^verbatim>\<open>loadExisting\<close> settles (lines 336-353); its start is in \<^verbatim>\<open>ensureLoading\<close>.
  What it throws reaches \<^verbatim>\<open>console.error\<close> (line 356). The emission of
  \<open>migrationNotSupported\<close> (line 330) stands before the clearing of
  \<^verbatim>\<open>_migratedLoadP\<close>; the emission of \<open>migrated\<close> (line 345) stands after the swap
  (lines 340-344) and before the clearing of \<^verbatim>\<open>_migratedLoadP\<close>, the reset of the
  retry values and the call of the dispatcher (lines 346-353).\<close>

definition resumeLoadSupportsVersion ::
  "world \<Rightarrow> AcceptedMigration \<Rightarrow> container_id \<Rightarrow> bool settled \<Rightarrow> Migrator \<Rightarrow> outcome" where
  "resumeLoadSupportsVersion w am migratedId r st =
     (case r of
        Rejected \<Rightarrow> ([ConsoleError ExternalRejection], st, [])
      | Resolved migrationSupported \<Rightarrow>
          if \<not> migrationSupported then
            if subscriber_throws w (Emit_migrationNotSupported (newVersion am))
            then ([Emit_migrationNotSupported (newVersion am), ConsoleError SubscriberError],
                  st, [])
            else ([Emit_migrationNotSupported (newVersion am)], st\<lparr>migratedLoadP := None\<rparr>, [])
          else ([LoadExisting migratedId], st, [LoadTask am migratedId LoadAwaitLoadExisting]))"

definition resumeLoadExisting ::
  "world \<Rightarrow> container_id \<Rightarrow> (model \<times> tool) settled \<Rightarrow> Migrator \<Rightarrow> outcome" where
  "resumeLoadExisting w migratedId r st =
     (case r of
        Rejected \<Rightarrow> ([ConsoleError ExternalRejection], st, [])
      | Resolved (migratedModel, migratedMigrationTool) \<Rightarrow>
          let swapped = st\<lparr>currentMigratable :=
                             \<lparr>model = migratedModel, migrationTool = migratedMigrationTool,
                              modelId = migratedId\<rparr>\<rparr> in
          if subscriber_throws w (Emit_migrated migratedModel migratedId)
          then ([Emit_migrated migratedModel migratedId, ConsoleError SubscriberError],
                swapped, [])
          else
            let st' = swapped\<lparr>migratedLoadP := None,
                              preparedDetachedModel := None,
                              preparedModelId := None\<rparr> in
            (case takeAppropriateActionForCurrentMigratable w st' of
               Inl (evs, e) \<Rightarrow>
                 (Emit_migrated migratedModel migratedId # evs @ [ConsoleError e], st', [])
             | Inr (evs, st'', ts) \<Rightarrow> (Emit_migrated migratedModel migratedId # evs, st'', ts)))"

fun resumeLoad ::
  "world \<Rightarrow> AcceptedMigration \<Rightarrow> container_id \<Rightarrow> load_pc \<Rightarrow> payload settled \<Rightarrow> Migrator \<Rightarrow>
   outcome option" where
  "resumeLoad w am migratedId LoadAwaitSupportsVersion r st =
     map_option (\<lambda>x. resumeLoadSupportsVersion w am migratedId x st) (asBool r)"
| "resumeLoad w am migratedId LoadAwaitLoadExisting r st =
     map_option (\<lambda>x. resumeLoadExisting w migratedId x st) (asLoaded r)"

subsection \<open>The orchestrator as a transition system\<close>

fun resumeTask :: "world \<Rightarrow> task \<Rightarrow> payload settled \<Rightarrow> Migrator \<Rightarrow> outcome option" where
  "resumeTask w (MigrationTask t am pc) r st =
     map_option (migrationChain t am) (resumeMigration w t am pc r st)"
| "resumeTask w ThenTask r st =
     (if r = Resolved PUnit then Some (thenContinuation w st) else None)"
| "resumeTask w (LoadTask am migratedId pc) r st = resumeLoad w am migratedId pc r st"

text \<open>The listeners a step registers, read off its events; and the call of a listener.\<close>

fun registered :: "event \<Rightarrow> (tool \<times> string \<times> listener) list" where
  "registered (Once t name l) = [(t, name, l)]"
| "registered _ = []"

definition registrations :: "event list \<Rightarrow> (tool \<times> string \<times> listener) list" where
  "registrations evs = concat (map registered evs)"

fun invoke :: "listener \<Rightarrow> world \<Rightarrow> Migrator \<Rightarrow> thrown + outcome" where
  "invoke Dispatcher w st = takeAppropriateActionForCurrentMigratable w st"

text \<open>An orchestrator: its fields, its suspended tasks, and the one-time listeners it has
  registered that have not fired yet (the tool, the name of the event, the function).\<close>

record system =
  migrator :: Migrator
  pending :: "task list"
  listeners :: "(tool \<times> string \<times> listener) list"

text \<open>What can happen to an orchestrator: a tool fires an event one of the registered
  listeners waits for, or the promise a suspended task awaits settles. Nothing else calls
  into the class: its functions are private, and what it makes public are getters. A
  listener that fires is dropped (it was registered with \<^verbatim>\<open>once\<close>) and called; what it
  throws goes to the tool that fired the event.\<close>

datatype input = Fire nat | Resume nat "payload settled"

definition step :: "world \<Rightarrow> input \<Rightarrow> system \<Rightarrow> (event list \<times> system) option" where
  "step w inp sys =
     (case inp of
        Fire k \<Rightarrow>
          if k < length (listeners sys) then
            (case listeners sys ! k of
               (t, name, l) \<Rightarrow>
                 let others = take k (listeners sys) @ drop (Suc k) (listeners sys) in
                 (case invoke l w (migrator sys) of
                    Inl (evs, e) \<Rightarrow>
                      Some (evs @ [Uncaught e],
                            \<lparr>migrator = migrator sys, pending = pending sys,
                             listeners = others @ registrations evs\<rparr>)
                  | Inr (evs, st', ts) \<Rightarrow>
                      Some (evs, \<lparr>migrator = st', pending = pending sys @ ts,
                                  listeners = others @ registrations evs\<rparr>)))
          else None
      | Resume n r \<Rightarrow>
          if n < length (pending sys) then
            (case resumeTask w (pending sys ! n) r (migrator sys) of
               None \<Rightarrow> None
             | Some (evs, st', ts) \<Rightarrow>
                 Some (evs, \<lparr>migrator = st',
                             pending = take n (pending sys) @ drop (Suc n) (pending sys) @ ts,
                             listeners = listeners sys @ registrations evs\<rparr>))
          else None)"

text \<open>The constructor: it stores its arguments and invokes the dispatcher.\<close>

definition newMigrator ::
  "world \<Rightarrow> model \<Rightarrow> tool \<Rightarrow> container_id \<Rightarrow> callback option \<Rightarrow> thrown + (event list \<times> system)"
  where
  "newMigrator w initialMigratable initialMigrationTool initialId cb =
     (case takeAppropriateActionForCurrentMigratable w
             \<lparr>currentMigratable =
                \<lparr>model = initialMigratable, migrationTool = initialMigrationTool,
                 modelId = initialId\<rparr>,
              migrationP = None, migratedLoadP = None,
              preparedDetachedModel = None, preparedModelId = None,
              dataTransformationCallback = cb\<rparr> of
        Inl x \<Rightarrow> Inl x
      | Inr (evs, st, ts) \<Rightarrow>
          Inr (evs, \<lparr>migrator = st, pending = ts, listeners = registrations evs\<rparr>))"

subsection \<open>Runs\<close>

text \<open>One migration attempt: one call of \<^verbatim>\<open>doTheMigration\<close>, from its start until
  it returns or throws, the promises it awaits settling as the script says (each with the
  snapshot of the collaborators at that time). The script may stop early, and what it has
  left when the attempt is over is not used.\<close>

fun continueMigration ::
  "tool \<Rightarrow> AcceptedMigration \<Rightarrow> (world \<times> payload settled) list \<Rightarrow> mig_pc run \<Rightarrow>
   mig_pc run option" where
  "continueMigration t am [] r = Some r"
| "continueMigration t am ((w, x) # script) (evs, st, Suspended pc) =
     (case resumeMigration w t am pc x st of
        None \<Rightarrow> None
      | Some (evs', st', s) \<Rightarrow> continueMigration t am script (evs @ evs', st', s))"
| "continueMigration t am ((w, x) # script) (evs, st, Returned) = Some (evs, st, Returned)"
| "continueMigration t am ((w, x) # script) (evs, st, Failed e) = Some (evs, st, Failed e)"

definition migrationAttempt ::
  "world \<Rightarrow> AcceptedMigration \<Rightarrow> (world \<times> payload settled) list \<Rightarrow> Migrator \<Rightarrow>
   mig_pc run option" where
  "migrationAttempt w am script st =
     continueMigration (currentMigrationTool st) am script (doTheMigration w am st)"

text \<open>A run of the whole orchestrator.\<close>

fun run :: "(world \<times> input) list \<Rightarrow> system \<Rightarrow> (event list \<times> system) option" where
  "run [] sys = Some ([], sys)"
| "run ((w, inp) # rest) sys =
     (case step w inp sys of
        None \<Rightarrow> None
      | Some (evs, sys') \<Rightarrow>
          (case run rest sys' of
             None \<Rightarrow> None
           | Some (evs', sys'') \<Rightarrow> Some (evs @ evs', sys'')))"

subsection \<open>Notions the properties use\<close>

text \<open>The finalize phase of one attempt: \<^verbatim>\<open>completeTheMigration\<close> from its start.\<close>

definition finalizePhase ::
  "tool \<Rightarrow> AcceptedMigration \<Rightarrow> (world \<times> payload settled) list \<Rightarrow> Migrator \<Rightarrow>
   mig_pc run option" where
  "finalizePhase t am script st = continueMigration t am script (completeTheMigration st)"

text \<open>The next awaited promise of a script resolves (it is one that resolves to nothing).\<close>

definition nextResolves :: "(world \<times> payload settled) list \<Rightarrow> bool" where
  "nextResolves script = (case script of (w, Resolved PUnit) # rest \<Rightarrow> True | _ \<Rightarrow> False)"

text \<open>The conditions of the finalize phase, in the words of the specification and in their
  order: \<^verbatim>\<open>volunteerForMigration\<close> resolved without throwing, the tool's new container id
  was still undefined, the volunteer result was true, the prepared model was attached (now, or
  in an earlier attempt), and \<^verbatim>\<open>haveMigrationTask()\<close> was still true after attaching.\<close>

definition finalizeConditions :: "(world \<times> payload settled) list \<Rightarrow> Migrator \<Rightarrow> bool" where
  "finalizeConditions script st =
     (case script of
        (w1, Resolved (PBool isAssigned)) # rest \<Rightarrow>
          tool_newContainerId w1 (currentMigrationTool st) = None \<and> isAssigned \<and>
          (case preparedModelId st of
             Some pid \<Rightarrow> tool_haveMigrationTask w1 (currentMigrationTool st)
           | None \<Rightarrow>
               (case rest of
                  (w2, Resolved (PId pid)) # rest' \<Rightarrow>
                    tool_haveMigrationTask w2 (currentMigrationTool st)
                | _ \<Rightarrow> False))
      | _ \<Rightarrow> False)"

text \<open>The awaited \<^verbatim>\<open>finalizeMigration\<close> resolves: it is the second promise of the finalize
  phase when the model was attached before, the third otherwise.\<close>

definition finalizeSettles :: "(world \<times> payload settled) list \<Rightarrow> Migrator \<Rightarrow> bool" where
  "finalizeSettles script st =
     (case preparedModelId st of
        Some pid \<Rightarrow> nextResolves (drop 1 script)
      | None \<Rightarrow> nextResolves (drop 2 script))"

definition isNotSupported :: "event \<Rightarrow> bool" where
  "isNotSupported e = (case e of Emit_migrationNotSupported v \<Rightarrow> True | _ \<Rightarrow> False)"

text \<open>The calls of the finalize phase, and its suspension points.\<close>

definition isFinalizeCall :: "event \<Rightarrow> bool" where
  "isFinalizeCall e =
     (case e of
        VolunteerForMigration t \<Rightarrow> True
      | Attach d \<Rightarrow> True
      | FinalizeMigration t pid \<Rightarrow> True
      | CompleteMigrationTask t \<Rightarrow> True
      | _ \<Rightarrow> False)"

definition inFinalize :: "mig_pc status \<Rightarrow> bool" where
  "inFinalize s =
     (case s of
        Suspended pc \<Rightarrow> pc = AwaitVolunteer \<or> pc = AwaitAttach \<or> pc = AwaitFinalize
      | _ \<Rightarrow> True)"

text \<open>The invariant of the retry cache: \<^verbatim>\<open>_preparedModelId\<close> is set only when
  \<^verbatim>\<open>_preparedDetachedModel\<close> is.\<close>

definition cacheOrdered :: "Migrator \<Rightarrow> bool" where
  "cacheOrdered st = (preparedModelId st = None \<or> preparedDetachedModel st \<noteq> None)"

text \<open>The calls of the prepare phase after \<^verbatim>\<open>supportsVersion\<close> (which the load makes
  too).\<close>

definition isPrepareCall :: "event \<Rightarrow> bool" where
  "isPrepareCall e =
     (case e of
        CreateDetached v \<Rightarrow> True
      | LoadExistingPaused i n \<Rightarrow> True
      | ExportData m \<Rightarrow> True
      | Dispose m \<Rightarrow> True
      | Transform x v \<Rightarrow> True
      | ImportData m x \<Rightarrow> True
      | _ \<Rightarrow> False)"

text \<open>A step logs an error: a rejection reached \<^verbatim>\<open>console.error\<close>.\<close>

definition isConsoleError :: "event \<Rightarrow> bool" where
  "isConsoleError e = (case e of ConsoleError x \<Rightarrow> True | _ \<Rightarrow> False)"

text \<open>The invariant of the orchestrator. What the cache holds at a suspension point of
  \<^verbatim>\<open>doTheMigration\<close>: nothing during the prepare phase, the prepared model during the
  finalize phase, the id once \<^verbatim>\<open>attach\<close> has resolved.\<close>

fun cacheAt :: "mig_pc \<Rightarrow> Migrator \<Rightarrow> bool" where
  "cacheAt AwaitVolunteer st = (preparedDetachedModel st \<noteq> None)"
| "cacheAt AwaitAttach st = (preparedDetachedModel st \<noteq> None \<and> preparedModelId st = None)"
| "cacheAt AwaitFinalize st = (preparedDetachedModel st \<noteq> None \<and> preparedModelId st \<noteq> None)"
| "cacheAt pc st = (preparedDetachedModel st = None)"

text \<open>What the markers are while a task is suspended: a migration attempt runs under
  \<^verbatim>\<open>_migrationP\<close> and without \<^verbatim>\<open>_migratedLoadP\<close>, a load the other way round.\<close>

fun taskConsistent :: "task \<Rightarrow> Migrator \<Rightarrow> bool" where
  "taskConsistent (MigrationTask t am pc) st =
     (migrationP st \<noteq> None \<and> migratedLoadP st = None \<and> cacheAt pc st)"
| "taskConsistent ThenTask st = (migratedLoadP st = None)"
| "taskConsistent (LoadTask am migratedId pc) st =
     (migratedLoadP st \<noteq> None \<and> migrationP st = None)"

text \<open>No attempt of either kind is in flight.\<close>

definition quiescent :: "Migrator \<Rightarrow> bool" where
  "quiescent st = (migrationP st = None \<and> migratedLoadP st = None)"

text \<open>At any time the orchestrator has at most one thing to wait for: one suspended task,
  or one registered listener (and then no attempt is in flight), or nothing at all.\<close>

definition wellFormed :: "system \<Rightarrow> bool" where
  "wellFormed sys =
     (cacheOrdered (migrator sys) \<and>
      (case (pending sys, listeners sys) of
         ([], []) \<Rightarrow> True
       | ([], [l]) \<Rightarrow> quiescent (migrator sys)
       | ([tk], []) \<Rightarrow> taskConsistent tk (migrator sys)
       | _ \<Rightarrow> False))"

text \<open>Nothing is left to happen.\<close>

definition halted :: "system \<Rightarrow> bool" where
  "halted sys = (pending sys = [] \<and> listeners sys = [])"

subsection \<open>Scenarios\<close>

text \<open>A session \<open>''old''\<close> (model 10, tool 1) whose tool has accepted a migration to
  \<open>''v2''\<close> at sequence number 7, is connected, holds the migration task, and whose
  successor models support every data format.\<close>

definition acceptedV2 :: AcceptedMigration where
  "acceptedV2 = \<lparr>newVersion = ''v2'', migrationSequenceNumber = 7\<rparr>"

definition worldMigrating :: world where
  "worldMigrating =
     \<lparr>tool_migrationState = (\<lambda>t. Migrating),
      tool_acceptedMigration = (\<lambda>t. Some acceptedV2),
      tool_connected = (\<lambda>t. True),
      tool_newContainerId = (\<lambda>t. None),
      tool_haveMigrationTask = (\<lambda>t. True),
      model_supportsDataFormat = (\<lambda>m d. True),
      model_version = (\<lambda>m. ''v2''),
      subscriber_throws = (\<lambda>e. False)\<rparr>"

text \<open>The same session once the migration is finalized into the container \<open>''new''\<close>.\<close>

definition worldMigrated :: world where
  "worldMigrated =
     worldMigrating\<lparr>tool_migrationState := (\<lambda>t. Migrated),
                    tool_newContainerId := (\<lambda>t. Some ''new'')\<rparr>"

definition worldDisconnected :: world where
  "worldDisconnected = worldMigrating\<lparr>tool_connected := (\<lambda>t. False)\<rparr>"

text \<open>The tool has lost the migration task; the successor models support no data format
  as it is.\<close>

definition worldLostTask :: world where
  "worldLostTask = worldMigrating\<lparr>tool_haveMigrationTask := (\<lambda>t. False)\<rparr>"

definition worldForeignFormat :: world where
  "worldForeignFormat = worldMigrating\<lparr>model_supportsDataFormat := (\<lambda>m d. False)\<rparr>"

text \<open>The application's subscribers throw.\<close>

definition worldThrowing :: world where
  "worldThrowing = worldMigrating\<lparr>subscriber_throws := (\<lambda>e. True)\<rparr>"

definition idle :: Migrator where
  "idle =
     \<lparr>currentMigratable = \<lparr>model = 10, migrationTool = 1, modelId = ''old''\<rparr>,
      migrationP = None, migratedLoadP = None,
      preparedDetachedModel = None, preparedModelId = None,
      dataTransformationCallback = None\<rparr>"

definition migrating :: Migrator where
  "migrating = idle\<lparr>migrationP := Some Promise\<rparr>"

definition loading :: Migrator where
  "loading = idle\<lparr>migratedLoadP := Some Promise\<rparr>"

definition prepared :: Migrator where
  "prepared = migrating\<lparr>preparedDetachedModel := Some (Detached 0 20)\<rparr>"

definition attached :: Migrator where
  "attached = prepared\<lparr>preparedModelId := Some ''new''\<rparr>"

text \<open>A load of \<open>''new''\<close> in flight, awaiting \<^verbatim>\<open>loadExisting\<close>.\<close>

definition loadingNew :: system where
  "loadingNew =
     \<lparr>migrator = loading, pending = [LoadTask acceptedV2 ''new'' LoadAwaitLoadExisting],
      listeners = []\<rparr>"

text \<open>A migration attempt in flight, awaiting \<^verbatim>\<open>exportData()\<close> of the export model
  30, the detached successor model being 20.\<close>

definition exporting :: system where
  "exporting =
     \<lparr>migrator = migrating,
      pending = [MigrationTask 1 acceptedV2 (AwaitExportData (Detached 0 20) 30)],
      listeners = []\<rparr>"

text \<open>The successor session \<open>''new''\<close> (model 40, tool 2), its tool still collaborating;
  a load about to swap it in; an attempt awaiting \<^verbatim>\<open>attach()\<close>.\<close>

definition worldSettled :: world where
  "worldSettled = worldMigrating\<lparr>tool_migrationState := (\<lambda>t. Collaborating)\<rparr>"

definition successor :: Migrator where
  "successor = idle\<lparr>currentMigratable := \<lparr>model = 40, migrationTool = 2, modelId = ''new''\<rparr>\<rparr>"

definition swapping :: system where
  "swapping =
     \<lparr>migrator = attached\<lparr>migrationP := None, migratedLoadP := Some Promise\<rparr>,
      pending = [LoadTask acceptedV2 ''new'' LoadAwaitLoadExisting],
      listeners = []\<rparr>"

definition attaching :: system where
  "attaching =
     \<lparr>migrator = prepared, pending = [MigrationTask 1 acceptedV2 AwaitAttach], listeners = []\<rparr>"

text \<open>An attempt awaiting \<^verbatim>\<open>importData\<close> on the detached successor model.\<close>

definition importing :: system where
  "importing =
     \<lparr>migrator = migrating,
      pending = [MigrationTask 1 acceptedV2 (AwaitImportData (Detached 0 20))],
      listeners = []\<rparr>"

text \<open>An attempt awaiting \<^verbatim>\<open>finalizeMigration\<close>.\<close>

definition finalizing :: system where
  "finalizing =
     \<lparr>migrator = attached, pending = [MigrationTask 1 acceptedV2 AwaitFinalize], listeners = []\<rparr>"

text \<open>The orchestrator as its constructor leaves it while the tool collaborates: it waits
  for the tool's \<open>migrating\<close> event.\<close>

definition waiting :: system where
  "waiting = \<lparr>migrator = idle, pending = [], listeners = [(1, ''migrating'', Dispatcher)]\<rparr>"

text \<open>A whole migration, from the tool's \<open>migrating\<close> event to the swap: every promise
  resolves, the tool reports the new container once \<^verbatim>\<open>finalizeMigration\<close> is awaited, and
  the successor's tool is collaborating.\<close>

definition happyPath :: "(world \<times> input) list" where
  "happyPath =
     [(worldMigrating, Fire 0),
      (worldMigrating, Resume 0 (Resolved (PBool True))),
      (worldMigrating, Resume 0 (Resolved (PDetached (Detached 0 20)))),
      (worldMigrating, Resume 0 (Resolved (PModel 30))),
      (worldMigrating, Resume 0 (Resolved (PData ''x''))),
      (worldMigrating, Resume 0 (Resolved PUnit)),
      (worldMigrating, Resume 0 (Resolved (PBool True))),
      (worldMigrating, Resume 0 (Resolved (PId ''new''))),
      (worldMigrated, Resume 0 (Resolved PUnit)),
      (worldMigrated, Resume 0 (Resolved PUnit)),
      (worldMigrated, Resume 0 (Resolved (PBool True))),
      (worldSettled, Resume 0 (Resolved (PLoaded 40 2)))]"

text \<open>A retry after a disconnect. The orchestrator goes offline while it awaits
  \<^verbatim>\<open>attach()\<close>: the task assignment is lost, the attempt returns, the dispatcher waits
  for \<open>connected\<close>; back online a second attempt volunteers again and finalizes.\<close>

definition worldOffline :: world where
  "worldOffline = worldDisconnected\<lparr>tool_haveMigrationTask := (\<lambda>t. False)\<rparr>"

definition retryPath :: "(world \<times> input) list" where
  "retryPath =
     take 7 happyPath @
     [(worldOffline, Resume 0 (Resolved (PId ''new''))),
      (worldOffline, Resume 0 (Resolved PUnit)),
      (worldMigrating, Fire 0),
      (worldMigrating, Resume 0 (Resolved (PBool True)))]"

text \<open>The second attempt awaiting \<^verbatim>\<open>volunteerForMigration\<close>.\<close>

definition retrying :: system where
  "retrying =
     \<lparr>migrator = attached, pending = [MigrationTask 1 acceptedV2 AwaitVolunteer], listeners = []\<rparr>"

lemmas scenario_defs =
  acceptedV2_def worldMigrating_def worldMigrated_def worldDisconnected_def
  worldLostTask_def worldForeignFormat_def worldThrowing_def waiting_def finalizing_def
  worldOffline_def retryPath_def retrying_def importing_def
  idle_def migrating_def loading_def prepared_def attached_def loadingNew_def
  exporting_def worldSettled_def successor_def swapping_def attaching_def happyPath_def

lemmas accessor_defs =
  currentModel_def currentMigrationTool_def currentModelId_def migrationState_def connected_def

subsection \<open>Evaluation\<close>

lemmas run_defs =
  completeTheMigration_def afterPrepare_def abandonPrepare_def prepareTheMigration_def
  resumeSupportsVersion_def resumeCreateDetached_def resumeLoadExistingPaused_def
  resumeExportData_def resumeTransform_def resumeImportData_def afterAttach_def
  resumeVolunteer_def resumeAttach_def resumeFinalize_def doTheMigration_def

lemmas model_defs =
  run_defs migrationChain_def ensureMigrating_def ensureLoading_def
  takeAppropriateActionForCurrentMigratable_def thenContinuation_def
  resumeLoadSupportsVersion_def resumeLoadExisting_def step_def newMigrator_def
  migrationAttempt_def session_def registrations_def

lemmas finalize_spec_defs = finalizeConditions_def finalizeSettles_def nextResolves_def

subsection \<open>Responses\<close>

lemma asBool_Some:
  "asBool r = Some x \<Longrightarrow>
     (r = Rejected \<and> x = Rejected) \<or> (\<exists>b. r = Resolved (PBool b) \<and> x = Resolved b)"
  by (cases r rule: asBool.cases) auto

lemma asDetached_Some:
  "asDetached r = Some x \<Longrightarrow>
     (r = Rejected \<and> x = Rejected) \<or> (\<exists>d. r = Resolved (PDetached d) \<and> x = Resolved d)"
  by (cases r rule: asDetached.cases) auto

lemma asModel_Some:
  "asModel r = Some x \<Longrightarrow>
     (r = Rejected \<and> x = Rejected) \<or> (\<exists>m. r = Resolved (PModel m) \<and> x = Resolved m)"
  by (cases r rule: asModel.cases) auto


lemma asUnit_Some:
  "asUnit r = Some x \<Longrightarrow>
     (r = Rejected \<and> x = Rejected) \<or> (r = Resolved PUnit \<and> x = Resolved ())"
  by (cases r rule: asUnit.cases) auto

lemma asId_Some:
  "asId r = Some x \<Longrightarrow>
     (r = Rejected \<and> x = Rejected) \<or> (\<exists>i. r = Resolved (PId i) \<and> x = Resolved i)"
  by (cases r rule: asId.cases) auto

lemma asLoaded_Some:
  "asLoaded r = Some x \<Longrightarrow>
     (r = Rejected \<and> x = Rejected)
     \<or> (\<exists>m t. r = Resolved (PLoaded m t) \<and> x = Resolved (m, t))"
  by (cases r rule: asLoaded.cases) auto

subsection \<open>What a resumed attempt does to the fields\<close>

lemma afterPrepare_state: "afterPrepare w st = (evs, st', s) \<Longrightarrow> st' = st"
  by (auto simp: afterPrepare_def completeTheMigration_def split: if_splits)

lemma afterAttach_state: "afterAttach w t pid st = (evs, st', s) \<Longrightarrow> st' = st"
  by (auto simp: afterAttach_def split: if_splits)

lemma abandonPrepare_state:
  "abandonPrepare w am st = (evs, st', s) \<Longrightarrow>
     (st' = st\<lparr>migrationP := None\<rparr> \<or> st' = st)
     \<and> Emit_migrationNotSupported (newVersion am) \<in> set evs"
  by (auto simp: abandonPrepare_def split: prod.splits if_splits dest!: afterPrepare_state)

lemma doTheMigration_state: "doTheMigration w am st = (evs, st', s) \<Longrightarrow> st' = st"
  by (auto simp: doTheMigration_def prepareTheMigration_def split: if_splits
        dest!: afterPrepare_state)

lemma migrationChain_state: "migrationChain t am (evs, st, s) = (evs', st', ts) \<Longrightarrow> st' = st"
  by (cases s) (auto simp: migrationChain_def)

text \<open>A resumed attempt leaves the session, the load marker and the callback alone. It clears
  \<^verbatim>\<open>_migrationP\<close> only where the prepare phase gives up, sets
  \<^verbatim>\<open>_preparedDetachedModel\<close> only when \<^verbatim>\<open>importData\<close> resolves and
  \<^verbatim>\<open>_preparedModelId\<close> only when \<^verbatim>\<open>attach\<close> resolves.\<close>

lemma resumeMigration_fields:
  assumes "resumeMigration w t am pc r st = Some (evs, st', s)"
  shows "currentMigratable st' = currentMigratable st
         \<and> migratedLoadP st' = migratedLoadP st
         \<and> dataTransformationCallback st' = dataTransformationCallback st
         \<and> (migrationP st' = migrationP st
             \<or> (migrationP st' = None \<and> Emit_migrationNotSupported (newVersion am) \<in> set evs))
         \<and> (preparedDetachedModel st' = preparedDetachedModel st
             \<or> (\<exists>d. pc = AwaitImportData d \<and> preparedDetachedModel st' = Some d))
         \<and> (preparedModelId st' = preparedModelId st
             \<or> (\<exists>pid. pc = AwaitAttach \<and> r = Resolved (PId pid)
                    \<and> preparedModelId st' = Some pid))"
proof (cases pc)
  case AwaitSupportsVersion
  with assms obtain x where "resumeSupportsVersion w am x st = (evs, st', s)" by auto
  then show ?thesis
    by (cases x)
       (auto simp: resumeSupportsVersion_def split: if_splits dest!: abandonPrepare_state)
next
  case AwaitCreateDetached
  with assms obtain x where "resumeCreateDetached am x st = (evs, st', s)" by auto
  then show ?thesis by (cases x) (auto simp: resumeCreateDetached_def)
next
  case (AwaitLoadExistingPaused d)
  with assms obtain x where "resumeLoadExistingPaused d x st = (evs, st', s)" by auto
  then show ?thesis by (cases x) (auto simp: resumeLoadExistingPaused_def)
next
  case (AwaitExportData d em)
  with assms obtain x where "resumeExportData w am d em x st = (evs, st', s)" by auto
  then show ?thesis
    by (cases x)
       (auto simp: resumeExportData_def Let_def split: if_splits prod.splits
          dest!: abandonPrepare_state)
next
  case (AwaitTransform d)
  with assms obtain x where "resumeTransform w am d x st = (evs, st', s)" by auto
  then show ?thesis
    by (cases x) (auto simp: resumeTransform_def dest!: abandonPrepare_state)
next
  case (AwaitImportData d)
  with assms obtain x where "resumeImportData w d x st = (evs, st', s)" by auto
  with AwaitImportData show ?thesis
    by (cases x) (auto simp: resumeImportData_def dest!: afterPrepare_state)
next
  case AwaitVolunteer
  with assms obtain x where "resumeVolunteer w t x st = (evs, st', s)" by auto
  then show ?thesis
    by (cases x)
       (auto simp: resumeVolunteer_def split: if_splits option.splits dest!: afterAttach_state)
next
  case AwaitAttach
  with assms obtain x where x: "asId r = Some x" and a: "resumeAttach w t x st = (evs, st', s)"
    by auto
  from a asId_Some[OF x] AwaitAttach show ?thesis
    by (cases x) (auto simp: resumeAttach_def dest!: afterAttach_state)
next
  case AwaitFinalize
  with assms obtain x where "resumeFinalize x st = (evs, st', s)" by auto
  then show ?thesis by (cases x) (auto simp: resumeFinalize_def)
qed

subsection \<open>Case analysis of the entry points and of a step\<close>

lemma ensureMigrating_cases:
  assumes "ensureMigrating w st = Inr (evs, st', ts)"
  obtains (disconnected) "\<not> connected w st"
      "evs = [Once (currentMigrationTool st) ''connected'' Dispatcher]" "st' = st" "ts = []"
  | (inflight) "connected w st" "migrationP st \<noteq> None" "evs = []" "st' = st" "ts = []"
  | (started) am evs1 st1 s evs2 where "connected w st" "migrationP st = None" "migratedLoadP st = None"
      "tool_acceptedMigration w (currentMigrationTool st) = Some am"
      "\<not> subscriber_throws w Emit_migrating"
      "doTheMigration w am st = (evs1, st1, s)"
      "migrationChain (currentMigrationTool st) am (evs1, st1, s) = (evs2, st1, ts)"
      "evs = Emit_migrating # evs2" "st' = st1\<lparr>migrationP := Some Promise\<rparr>"
proof (cases "connected w st")
  case False
  with assms show ?thesis by (intro disconnected) (auto simp: ensureMigrating_def)
next
  case c: True
  show ?thesis
  proof (cases "migrationP st")
    case (Some p)
    with assms c show ?thesis by (intro inflight) (auto simp: ensureMigrating_def)
  next
    case None
    with assms c have l: "migratedLoadP st = None"
      by (auto simp: ensureMigrating_def split: if_splits)
    from assms c None l obtain am where am: "tool_acceptedMigration w (currentMigrationTool st) = Some am"
      by (cases "tool_acceptedMigration w (currentMigrationTool st)") (auto simp: ensureMigrating_def Let_def)
    from assms c None l am have nt: "\<not> subscriber_throws w Emit_migrating"
      by (auto simp: ensureMigrating_def Let_def split: if_splits)
    obtain evs1 st1 s where d: "doTheMigration w am st = (evs1, st1, s)"
      by (cases "doTheMigration w am st") auto
    obtain evs2 st2 ts2 where ch: "migrationChain (currentMigrationTool st) am (evs1, st1, s) = (evs2, st2, ts2)"
      by (cases "migrationChain (currentMigrationTool st) am (evs1, st1, s)") auto
    then have st2: "st2 = st1" by (rule migrationChain_state)
    from assms c None l am nt d ch have "evs = Emit_migrating # evs2" "st' = st2\<lparr>migrationP := Some Promise\<rparr>" "ts = ts2"
      by (auto simp: ensureMigrating_def Let_def)
    with c None l am nt d ch st2 show ?thesis by (intro started[of am evs1 st1 s evs2]) auto
  qed
qed

lemma ensureLoading_cases:
  assumes "ensureLoading w st = Inr (evs, st', ts)"
  obtains (inflight) "migratedLoadP st \<noteq> None" "evs = []" "st' = st" "ts = []"
  | (started) am migratedId where "migratedLoadP st = None" "migrationP st = None"
      "tool_acceptedMigration w (currentMigrationTool st) = Some am"
      "tool_newContainerId w (currentMigrationTool st) = Some migratedId"
      "evs = [SupportsVersion (newVersion am)]" "st' = st\<lparr>migratedLoadP := Some Promise\<rparr>"
      "ts = [LoadTask am migratedId LoadAwaitSupportsVersion]"
  using assms
  by (auto simp: ensureLoading_def Let_def split: if_splits option.splits)

lemma dispatcher_cases:
  assumes "takeAppropriateActionForCurrentMigratable w st = Inr out"
  obtains (migrating) "migrationState w st = Migrating" "ensureMigrating w st = Inr out"
  | (migrated) "migrationState w st = Migrated" "ensureLoading w st = Inr out"
  | (collaborating) "migrationState w st = Collaborating"
      "out = ([Once (currentMigrationTool st) ''migrating'' Dispatcher], st, [])"
  using assms
  by (cases "migrationState w st")
     (auto simp: takeAppropriateActionForCurrentMigratable_def migrationState_def Let_def)

lemma thenContinuation_cases:
  assumes "thenContinuation w st = out"
  obtains (assert) "connected w st" "tool_newContainerId w (currentMigrationTool st) = None"
      "out = ([ConsoleError AssertNewContainerId], st, [])"
  | (threw) evs1 e where "\<not> (connected w st \<and> tool_newContainerId w (currentMigrationTool st) = None)"
      "takeAppropriateActionForCurrentMigratable w (st\<lparr>migrationP := None\<rparr>) = Inl (evs1, e)"
      "out = (evs1 @ [ConsoleError e], st\<lparr>migrationP := None\<rparr>, [])"
  | (dispatched) "\<not> (connected w st \<and> tool_newContainerId w (currentMigrationTool st) = None)"
      "takeAppropriateActionForCurrentMigratable w (st\<lparr>migrationP := None\<rparr>) = Inr out"
  using assms
  by (cases "takeAppropriateActionForCurrentMigratable w (st\<lparr>migrationP := None\<rparr>)")
     (auto simp: thenContinuation_def Let_def split: if_splits prod.splits)

lemma resumeLoadExisting_cases:
  assumes "resumeLoadExisting w mid r st = (evs, st', ts)"
  obtains (rejected) "r = Rejected" "evs = [ConsoleError ExternalRejection]" "st' = st" "ts = []"
  | (subscriber) m t where "r = Resolved (m, t)" "subscriber_throws w (Emit_migrated m mid)"
      "evs = [Emit_migrated m mid, ConsoleError SubscriberError]"
      "st' = st\<lparr>currentMigratable := \<lparr>model = m, migrationTool = t, modelId = mid\<rparr>\<rparr>"
      "ts = []"
  | (threw) m t evs1 e where "r = Resolved (m, t)"
      "\<not> subscriber_throws w (Emit_migrated m mid)"
      "takeAppropriateActionForCurrentMigratable w
         (st\<lparr>currentMigratable := \<lparr>model = m, migrationTool = t, modelId = mid\<rparr>,
             migratedLoadP := None, preparedDetachedModel := None, preparedModelId := None\<rparr>)
       = Inl (evs1, e)"
      "evs = Emit_migrated m mid # evs1 @ [ConsoleError e]"
      "st' = st\<lparr>currentMigratable := \<lparr>model = m, migrationTool = t, modelId = mid\<rparr>,
             migratedLoadP := None, preparedDetachedModel := None, preparedModelId := None\<rparr>"
      "ts = []"
  | (dispatched) m t evs1 where "r = Resolved (m, t)"
      "\<not> subscriber_throws w (Emit_migrated m mid)"
      "takeAppropriateActionForCurrentMigratable w
         (st\<lparr>currentMigratable := \<lparr>model = m, migrationTool = t, modelId = mid\<rparr>,
             migratedLoadP := None, preparedDetachedModel := None, preparedModelId := None\<rparr>)
       = Inr (evs1, st', ts)"
      "evs = Emit_migrated m mid # evs1"
proof (cases r)
  case Rejected
  with assms show ?thesis by (intro rejected) (auto simp: resumeLoadExisting_def)
next
  case (Resolved p)
  obtain m t where p: "p = (m, t)" by (cases p) auto
  let ?s = "st\<lparr>currentMigratable := \<lparr>model = m, migrationTool = t, modelId = mid\<rparr>,
             migratedLoadP := None, preparedDetachedModel := None, preparedModelId := None\<rparr>"
  show ?thesis
  proof (cases "subscriber_throws w (Emit_migrated m mid)")
    case True
    with assms Resolved p show ?thesis
      by (intro subscriber[of m t]) (auto simp: resumeLoadExisting_def Let_def)
  next
    case nt: False
    show ?thesis
    proof (cases "takeAppropriateActionForCurrentMigratable w ?s")
      case (Inl x)
      obtain evs1 e where "x = (evs1, e)" by (cases x) auto
      with assms Resolved p nt Inl show ?thesis
        by (intro threw[of m t evs1 e]) (auto simp: resumeLoadExisting_def Let_def)
    next
      case (Inr out)
      obtain evs1 st1 ts1 where out: "out = (evs1, st1, ts1)" by (cases out) auto
      with assms Resolved p nt Inr show ?thesis
        by (intro dispatched[of m t evs1]) (auto simp: resumeLoadExisting_def Let_def)
    qed
  qed
qed

lemma step_cases:
  assumes "step w inp sys = Some (evs, sys')"
  obtains (uncaught) k evs1 e where "inp = Fire k" "k < length (listeners sys)"
      "takeAppropriateActionForCurrentMigratable w (migrator sys) = Inl (evs1, e)"
      "evs = evs1 @ [Uncaught e]"
      "sys' = \<lparr>migrator = migrator sys, pending = pending sys,
              listeners = take k (listeners sys) @ drop (Suc k) (listeners sys)
                          @ registrations evs1\<rparr>"
  | (fire) k st' ts where "inp = Fire k" "k < length (listeners sys)"
      "takeAppropriateActionForCurrentMigratable w (migrator sys) = Inr (evs, st', ts)"
      "sys' = \<lparr>migrator = st', pending = pending sys @ ts,
              listeners = take k (listeners sys) @ drop (Suc k) (listeners sys)
                          @ registrations evs\<rparr>"
  | (resume) n r st' ts where "inp = Resume n r" "n < length (pending sys)"
      "resumeTask w (pending sys ! n) r (migrator sys) = Some (evs, st', ts)"
      "sys' = \<lparr>migrator = st',
              pending = take n (pending sys) @ drop (Suc n) (pending sys) @ ts,
              listeners = listeners sys @ registrations evs\<rparr>"
proof (cases inp)
  case (Fire k)
  with assms have k: "k < length (listeners sys)" by (auto simp: step_def split: if_splits)
  obtain t name l where l: "listeners sys ! k = (t, name, l)"
    by (cases "listeners sys ! k") auto
  have i: "invoke l w (migrator sys) = takeAppropriateActionForCurrentMigratable w (migrator sys)"
    by (cases l) simp
  show ?thesis
  proof (cases "takeAppropriateActionForCurrentMigratable w (migrator sys)")
    case (Inl x)
    obtain evs1 e where "x = (evs1, e)" by (cases x) auto
    with assms Fire k l i Inl show ?thesis
      by (intro uncaught[of k evs1 e]) (auto simp: step_def Let_def)
  next
    case (Inr out)
    obtain evs1 st1 ts1 where "out = (evs1, st1, ts1)" by (cases out) auto
    with assms Fire k l i Inr show ?thesis
      by (intro fire[of k st1 ts1]) (auto simp: step_def Let_def)
  qed
next
  case (Resume n r)
  with assms have n: "n < length (pending sys)" by (auto simp: step_def split: if_splits)
  with assms Resume obtain out where o: "resumeTask w (pending sys ! n) r (migrator sys) = Some out"
    by (cases "resumeTask w (pending sys ! n) r (migrator sys)") (auto simp: step_def)
  obtain evs1 st1 ts1 where "out = (evs1, st1, ts1)" by (cases out) auto
  with assms Resume n o show ?thesis by (intro resume[of n r st1 ts1]) (auto simp: step_def)
qed

subsection \<open>What the dispatcher and the load do to the fields\<close>

text \<open>The dispatcher only ever sets one of the two markers.\<close>

lemma dispatcher_fields:
  assumes "takeAppropriateActionForCurrentMigratable w st = Inr (evs, st', ts)"
  shows "currentMigratable st' = currentMigratable st
         \<and> preparedDetachedModel st' = preparedDetachedModel st
         \<and> preparedModelId st' = preparedModelId st"
  using assms
proof (cases rule: dispatcher_cases)
  case migrating
  from migrating(2) show ?thesis
    by (cases rule: ensureMigrating_cases) (auto dest!: doTheMigration_state)
next
  case migrated
  from migrated(2) show ?thesis by (cases rule: ensureLoading_cases) auto
next
  case collaborating
  then show ?thesis by simp
qed

lemma thenContinuation_fields:
  assumes "thenContinuation w st = (evs, st', ts)"
  shows "currentMigratable st' = currentMigratable st
         \<and> preparedDetachedModel st' = preparedDetachedModel st
         \<and> preparedModelId st' = preparedModelId st"
  using assms
  by (rule thenContinuation_cases) (auto dest!: dispatcher_fields)

text \<open>Resuming the load leaves the session and the cache alone, or swaps the session in and
  resets the cache.\<close>

lemma resumeLoad_fields:
  assumes "resumeLoad w am mid pc r st = Some (evs, st', ts)"
  shows "(currentMigratable st' = currentMigratable st
          \<and> preparedDetachedModel st' = preparedDetachedModel st
          \<and> preparedModelId st' = preparedModelId st)
         \<or> (\<exists>m t. pc = LoadAwaitLoadExisting \<and> r = Resolved (PLoaded m t)
               \<and> currentMigratable st' = \<lparr>model = m, migrationTool = t, modelId = mid\<rparr>
               \<and> Emit_migrated m mid \<in> set evs
               \<and> ((preparedDetachedModel st' = None \<and> preparedModelId st' = None)
                   \<or> (preparedDetachedModel st' = preparedDetachedModel st
                       \<and> preparedModelId st' = preparedModelId st)))"
proof (cases pc)
  case LoadAwaitSupportsVersion
  with assms obtain x where "resumeLoadSupportsVersion w am mid x st = (evs, st', ts)" by auto
  then show ?thesis
    by (cases x) (auto simp: resumeLoadSupportsVersion_def split: if_splits)
next
  case LoadAwaitLoadExisting
  with assms obtain x where x: "asLoaded r = Some x"
    and l: "resumeLoadExisting w mid x st = (evs, st', ts)" by auto
  from l show ?thesis
  proof (cases rule: resumeLoadExisting_cases)
    case rejected
    then show ?thesis by simp
  next
    case (subscriber m t)
    with asLoaded_Some[OF x] LoadAwaitLoadExisting show ?thesis by auto
  next
    case (threw m t evs1 e)
    with asLoaded_Some[OF x] LoadAwaitLoadExisting show ?thesis by auto
  next
    case (dispatched m t evs1)
    from dispatcher_fields[OF dispatched(3)] asLoaded_Some[OF x] dispatched(1,4)
      LoadAwaitLoadExisting
    show ?thesis by auto
  qed
qed

lemma resumeTask_fields:
  assumes "resumeTask w tk r st = Some (evs, st', ts)"
  shows "(currentMigratable st' = currentMigratable st
          \<and> (preparedDetachedModel st \<noteq> None \<longrightarrow> preparedDetachedModel st' \<noteq> None)
          \<and> (preparedModelId st \<noteq> None \<longrightarrow> preparedModelId st' \<noteq> None))
         \<or> (\<exists>am mid m t. tk = LoadTask am mid LoadAwaitLoadExisting \<and> r = Resolved (PLoaded m t)
               \<and> currentMigratable st' = \<lparr>model = m, migrationTool = t, modelId = mid\<rparr>
               \<and> Emit_migrated m mid \<in> set evs
               \<and> ((preparedDetachedModel st' = None \<and> preparedModelId st' = None)
                   \<or> (preparedDetachedModel st' = preparedDetachedModel st
                       \<and> preparedModelId st' = preparedModelId st)))"
proof (cases tk)
  case (MigrationTask t am pc)
  with assms obtain evs1 st1 s where
    r: "resumeMigration w t am pc r st = Some (evs1, st1, s)"
    and c: "migrationChain t am (evs1, st1, s) = (evs, st', ts)"
    by auto
  from c have "st' = st1" by (rule migrationChain_state)
  with resumeMigration_fields[OF r] show ?thesis by auto
next
  case ThenTask
  with assms have "thenContinuation w st = (evs, st', ts)" by (auto split: if_splits)
  from thenContinuation_fields[OF this] show ?thesis by simp
next
  case (LoadTask am mid pc)
  with assms have "resumeLoad w am mid pc r st = Some (evs, st', ts)" by simp
  from resumeLoad_fields[OF this] LoadTask show ?thesis by auto
qed

text \<open>The cache is reset by the swap only.\<close>

lemma step_cache:
  assumes "step w inp sys = Some (evs, sys')"
    and "(preparedDetachedModel (migrator sys) \<noteq> None \<and> preparedDetachedModel (migrator sys') = None)
         \<or> (preparedModelId (migrator sys) \<noteq> None \<and> preparedModelId (migrator sys') = None)"
  shows "\<exists>n am mid m t.
           inp = Resume n (Resolved (PLoaded m t)) \<and> n < length (pending sys)
           \<and> pending sys ! n = LoadTask am mid LoadAwaitLoadExisting
           \<and> session (migrator sys') = (m, t, mid) \<and> Emit_migrated m mid \<in> set evs
           \<and> preparedDetachedModel (migrator sys') = None
           \<and> preparedModelId (migrator sys') = None"
  using assms(1)
proof (cases rule: step_cases)
  case (uncaught k evs1 e)
  with assms(2) show ?thesis by auto
next
  case (fire k st' ts)
  from dispatcher_fields[OF fire(3)] fire(4) assms(2) show ?thesis by auto
next
  case (resume n r st' ts)
  from resumeTask_fields[OF resume(3)] resume(1,2,4) assms(2) show ?thesis
    by (auto simp: session_def accessor_defs)
qed

text \<open>\<^verbatim>\<open>_preparedModelId\<close> is assigned where \<^verbatim>\<open>attach\<close> resolves only.\<close>

lemma step_assigns:
  assumes "step w inp sys = Some (evs, sys')"
    and "preparedModelId (migrator sys') \<noteq> preparedModelId (migrator sys)"
    and "preparedModelId (migrator sys') \<noteq> None"
  shows "\<exists>n t am pid. inp = Resume n (Resolved (PId pid)) \<and> n < length (pending sys)
           \<and> pending sys ! n = MigrationTask t am AwaitAttach
           \<and> preparedModelId (migrator sys') = Some pid
           \<and> preparedDetachedModel (migrator sys') = preparedDetachedModel (migrator sys)"
  using assms(1)
proof (cases rule: step_cases)
  case (uncaught k evs1 e)
  with assms(2) show ?thesis by auto
next
  case (fire k st' ts)
  from dispatcher_fields[OF fire(3)] fire(4) assms(2) show ?thesis by auto
next
  case (resume n r st' ts)
  show ?thesis
  proof (cases "pending sys ! n")
    case (MigrationTask t am pc)
    with resume(3) obtain evs1 st1 s where
      r: "resumeMigration w t am pc r (migrator sys) = Some (evs1, st1, s)"
      and c: "migrationChain t am (evs1, st1, s) = (evs, st', ts)"
      by auto
    from c have "st' = st1" by (rule migrationChain_state)
    with resumeMigration_fields[OF r] assms(2) resume(1,2,4) MigrationTask show ?thesis by auto
  next
    case ThenTask
    with resume(3) have "thenContinuation w (migrator sys) = (evs, st', ts)"
      by (auto split: if_splits)
    from thenContinuation_fields[OF this] resume(4) assms(2) show ?thesis by auto
  next
    case (LoadTask am mid pc)
    with resume(3) have "resumeLoad w am mid pc r (migrator sys) = Some (evs, st', ts)" by simp
    from resumeLoad_fields[OF this] resume(4) assms(2,3) show ?thesis by auto
  qed
qed

subsection \<open>Calls of \<^verbatim>\<open>dispose\<close>\<close>

lemma afterPrepare_events:
  "afterPrepare w st = (evs, st', s) \<Longrightarrow> evs = [] \<or> evs = [VolunteerForMigration (currentMigrationTool st)]"
  by (auto simp: afterPrepare_def completeTheMigration_def split: if_splits)

lemma abandonPrepare_events:
  "abandonPrepare w am st = (evs, st', s) \<Longrightarrow>
     evs = [Emit_migrationNotSupported (newVersion am)]
     \<or> evs = [Emit_migrationNotSupported (newVersion am), VolunteerForMigration (currentMigrationTool st)]"
  by (auto simp: abandonPrepare_def currentMigrationTool_def split: prod.splits if_splits
        dest!: afterPrepare_events)

lemma afterAttach_events:
  "afterAttach w t pid st = (evs, st', s) \<Longrightarrow> evs = [] \<or> evs = [FinalizeMigration t pid]"
  by (auto simp: afterAttach_def split: if_splits)



lemma migrationChain_events:
  "migrationChain t am (evs, st, s) = (evs', st', ts) \<Longrightarrow>
     evs' = evs \<or> (\<exists>e. s = Failed e \<and> evs' = evs @ [ConsoleError e])"
  by (cases s) (auto simp: migrationChain_def)




text \<open>What the dispatcher has done when it throws: nothing, or the emission of
  \<open>migrating\<close>.\<close>

lemma dispatcher_thrown:
  "takeAppropriateActionForCurrentMigratable w st = Inl (evs, e) \<Longrightarrow>
     migrationState w st \<noteq> Collaborating
     \<and> (evs = [] \<or> (evs = [Emit_migrating] \<and> e = SubscriberError
                      \<and> subscriber_throws w Emit_migrating))"
  by (cases "migrationState w st")
     (auto simp: takeAppropriateActionForCurrentMigratable_def migrationState_def Let_def
        ensureMigrating_def ensureLoading_def split: if_splits option.splits prod.splits)





subsection \<open>Runs of one attempt: the prepare phase gives up\<close>

lemma continueMigration_over:
  "s = Returned \<or> s = Failed e \<Longrightarrow> continueMigration t am script (evs, st, s) = Some (evs, st, s)"
  by (cases script) auto

lemma afterPrepare_over:
  assumes "preparedDetachedModel st = None" "afterPrepare w st = (evs, st', s)"
  shows "evs = [] \<and> st' = st \<and> (s = Returned \<or> s = Failed AssertPreparedDetachedModel)"
  using assms by (auto simp: afterPrepare_def completeTheMigration_def split: if_splits)

lemma abandonPrepare_over:
  assumes "preparedDetachedModel st = None" "abandonPrepare w am st = (evs, st', s)"
  shows "evs = [Emit_migrationNotSupported (newVersion am)]
         \<and> (st' = st\<lparr>migrationP := None\<rparr> \<or> st' = st)
         \<and> (s = Returned \<or> (\<exists>e. s = Failed e))"
proof (cases "subscriber_throws w (Emit_migrationNotSupported (newVersion am))")
  case True
  with assms(2) show ?thesis by (auto simp: abandonPrepare_def)
next
  case False
  obtain evs1 st1 s1 where a: "afterPrepare w (st\<lparr>migrationP := None\<rparr>) = (evs1, st1, s1)"
    by (cases "afterPrepare w (st\<lparr>migrationP := None\<rparr>)") auto
  from assms(1) have "preparedDetachedModel (st\<lparr>migrationP := None\<rparr>) = None" by simp
  from afterPrepare_over[OF this a] a assms(2) False show ?thesis
    by (auto simp: abandonPrepare_def)
qed

lemma unsupported_version_attempt:
  assumes "preparedDetachedModel st = None"
    and "migrationAttempt w0 am ((w1, Resolved (PBool False)) # rest) st = Some (evs, st', s)"
  shows "evs = [SupportsVersion (newVersion am), Emit_migrationNotSupported (newVersion am)]
         \<and> (st' = st\<lparr>migrationP := None\<rparr> \<or> st' = st)"
proof -
  obtain evs1 st1 s1 where a: "abandonPrepare w1 am st = (evs1, st1, s1)"
    by (cases "abandonPrepare w1 am st") auto
  from abandonPrepare_over[OF assms(1) a] have
    e: "evs1 = [Emit_migrationNotSupported (newVersion am)]"
       "st1 = st\<lparr>migrationP := None\<rparr> \<or> st1 = st"
    and s: "s1 = Returned \<or> (\<exists>e. s1 = Failed e)" by auto
  from s obtain e' where "s1 = Returned \<or> s1 = Failed e'" by auto
  from assms a continueMigration_over[OF this]
  show ?thesis using e
    by (auto simp: migrationAttempt_def doTheMigration_def prepareTheMigration_def
          resumeSupportsVersion_def)
qed

lemma no_strategy_attempt:
  assumes "preparedDetachedModel st = None" "dataTransformationCallback st = None"
    and "\<not> model_supportsDataFormat w4 (detached_model d) x"
    and "migrationAttempt w0 am
           ((w1, Resolved (PBool True)) # (w2, Resolved (PDetached d)) # (w3, Resolved (PModel em))
            # (w4, Resolved (PData x)) # rest) st = Some (evs, st', s)"
  shows "evs = [SupportsVersion (newVersion am), CreateDetached (newVersion am),
                LoadExistingPaused (currentModelId st) (migrationSequenceNumber am),
                ExportData em, Dispose em, Emit_migrationNotSupported (newVersion am)]
         \<and> (st' = st\<lparr>migrationP := None\<rparr> \<or> st' = st)"
proof -
  obtain evs1 st1 s1 where a: "abandonPrepare w4 am st = (evs1, st1, s1)"
    by (cases "abandonPrepare w4 am st") auto
  from abandonPrepare_over[OF assms(1) a] have
    e: "evs1 = [Emit_migrationNotSupported (newVersion am)]"
       "st1 = st\<lparr>migrationP := None\<rparr> \<or> st1 = st"
    and s: "s1 = Returned \<or> (\<exists>e. s1 = Failed e)" by auto
  from s obtain e' where "s1 = Returned \<or> s1 = Failed e'" by auto
  from assms a continueMigration_over[OF this]
  show ?thesis using e
    by (auto simp: migrationAttempt_def doTheMigration_def prepareTheMigration_def
          resumeSupportsVersion_def resumeCreateDetached_def resumeLoadExistingPaused_def
          resumeExportData_def Let_def)
qed

lemma failed_transform_attempt:
  assumes "preparedDetachedModel st = None" "dataTransformationCallback st \<noteq> None"
    and "\<not> model_supportsDataFormat w4 (detached_model d) x"
    and "migrationAttempt w0 am
           ((w1, Resolved (PBool True)) # (w2, Resolved (PDetached d)) # (w3, Resolved (PModel em))
            # (w4, Resolved (PData x)) # (w5, Rejected) # rest) st = Some (evs, st', s)"
  shows "evs = [SupportsVersion (newVersion am), CreateDetached (newVersion am),
                LoadExistingPaused (currentModelId st) (migrationSequenceNumber am),
                ExportData em, Dispose em, Transform x (model_version w4 (detached_model d)),
                Emit_migrationNotSupported (newVersion am)]
         \<and> (st' = st\<lparr>migrationP := None\<rparr> \<or> st' = st)"
proof -
  obtain evs1 st1 s1 where a: "abandonPrepare w5 am st = (evs1, st1, s1)"
    by (cases "abandonPrepare w5 am st") auto
  from abandonPrepare_over[OF assms(1) a] have
    e: "evs1 = [Emit_migrationNotSupported (newVersion am)]"
       "st1 = st\<lparr>migrationP := None\<rparr> \<or> st1 = st"
    and s: "s1 = Returned \<or> (\<exists>e. s1 = Failed e)" by auto
  from s obtain e' where "s1 = Returned \<or> s1 = Failed e'" by auto
  from assms a continueMigration_over[OF this]
  show ?thesis using e
    by (auto simp: migrationAttempt_def doTheMigration_def prepareTheMigration_def
          resumeSupportsVersion_def resumeCreateDetached_def resumeLoadExistingPaused_def
          resumeExportData_def resumeTransform_def Let_def)
qed

subsection \<open>Runs of one attempt: the finalize phase\<close>

lemma finalize_tail:
  assumes "continueMigration t am rest (evs0, st0, Suspended AwaitFinalize) = Some (evs, st', s)"
  shows "st' = st0 \<and>
         (if nextResolves rest
          then evs = evs0 @ [CompleteMigrationTask (currentMigrationTool st0)] \<and> s = Returned
          else evs = evs0 \<and> s \<noteq> Returned)"
proof (cases rest)
  case Nil
  with assms show ?thesis by (auto simp: nextResolves_def)
next
  case (Cons a rest')
  obtain w r where a: "a = (w, r)" by (cases a) auto
  show ?thesis
  proof (cases r)
    case Rejected
    with assms Cons a show ?thesis
      by (auto simp: nextResolves_def resumeFinalize_def continueMigration_over)
  next
    case (Resolved p)
    with assms Cons a have p: "p = PUnit" by (cases p) auto
    with assms Cons a Resolved show ?thesis
      by (auto simp: nextResolves_def resumeFinalize_def continueMigration_over)
  qed
qed

lemma after_attach_tail:
  assumes "afterAttach w t pid st0 = (evs1, st1, s1)"
    and "continueMigration t am rest (evs0 @ evs1, st1, s1) = Some (evs, st', s)"
  shows "st' = st0 \<and>
         (if tool_haveMigrationTask w (currentMigrationTool st0)
          then (if nextResolves rest
                then evs = evs0 @ [FinalizeMigration t pid, CompleteMigrationTask (currentMigrationTool st0)]
                     \<and> s = Returned
                else evs = evs0 @ [FinalizeMigration t pid] \<and> s \<noteq> Returned)
          else evs = evs0 \<and> s = Returned)"
proof (cases "tool_haveMigrationTask w (currentMigrationTool st0)")
  case False
  with assms show ?thesis by (auto simp: afterAttach_def continueMigration_over)
next
  case True
  with assms(1) have "evs1 = [FinalizeMigration t pid]" "st1 = st0" "s1 = Suspended AwaitFinalize"
    by (auto simp: afterAttach_def)
  with assms(2) finalize_tail[of t am rest "evs0 @ [FinalizeMigration t pid]" st0 evs st' s] True
  show ?thesis by auto
qed

lemma finalize_run:
  assumes p: "preparedDetachedModel st = Some d"
    and run: "finalizePhase t am script st = Some (evs, st', s)"
  shows
    "(script = [] \<and> evs = [VolunteerForMigration (currentMigrationTool st)] \<and> st' = st
        \<and> s = Suspended AwaitVolunteer)
     \<or> (\<exists>w1 rest. script = (w1, Rejected) # rest
           \<and> evs = [VolunteerForMigration (currentMigrationTool st)] \<and> st' = st
           \<and> s = (if connected w1 st then Failed AssertDisconnected else Returned))
     \<or> (\<exists>w1 b rest. script = (w1, Resolved (PBool b)) # rest
           \<and> tool_newContainerId w1 (currentMigrationTool st) \<noteq> None
           \<and> evs = [VolunteerForMigration (currentMigrationTool st)] \<and> st' = st \<and> s = Returned)
     \<or> (\<exists>w1 rest. script = (w1, Resolved (PBool False)) # rest
           \<and> tool_newContainerId w1 (currentMigrationTool st) = None
           \<and> evs = [VolunteerForMigration (currentMigrationTool st)] \<and> st' = st
           \<and> s = Failed AssertAssigned)
     \<or> (\<exists>w1 rest pid. script = (w1, Resolved (PBool True)) # rest
           \<and> tool_newContainerId w1 (currentMigrationTool st) = None
           \<and> preparedModelId st = Some pid \<and> st' = st
           \<and> (if tool_haveMigrationTask w1 (currentMigrationTool st)
               then (if nextResolves rest
                     then evs = [VolunteerForMigration (currentMigrationTool st),
                                 FinalizeMigration t pid,
                                 CompleteMigrationTask (currentMigrationTool st)] \<and> s = Returned
                     else evs = [VolunteerForMigration (currentMigrationTool st),
                                 FinalizeMigration t pid] \<and> s \<noteq> Returned)
               else evs = [VolunteerForMigration (currentMigrationTool st)] \<and> s = Returned))
     \<or> (\<exists>w1. script = [(w1, Resolved (PBool True))]
           \<and> tool_newContainerId w1 (currentMigrationTool st) = None
           \<and> preparedModelId st = None \<and> st' = st
           \<and> evs = [VolunteerForMigration (currentMigrationTool st), Attach d]
           \<and> s = Suspended AwaitAttach)
     \<or> (\<exists>w1 w2 rest. script = (w1, Resolved (PBool True)) # (w2, Rejected) # rest
           \<and> tool_newContainerId w1 (currentMigrationTool st) = None
           \<and> preparedModelId st = None \<and> st' = st
           \<and> evs = [VolunteerForMigration (currentMigrationTool st), Attach d]
           \<and> s = Failed ExternalRejection)
     \<or> (\<exists>w1 w2 pid rest. script = (w1, Resolved (PBool True)) # (w2, Resolved (PId pid)) # rest
           \<and> tool_newContainerId w1 (currentMigrationTool st) = None
           \<and> preparedModelId st = None \<and> st' = st\<lparr>preparedModelId := Some pid\<rparr>
           \<and> (if tool_haveMigrationTask w2 (currentMigrationTool st)
               then (if nextResolves rest
                     then evs = [VolunteerForMigration (currentMigrationTool st), Attach d,
                                 FinalizeMigration t pid,
                                 CompleteMigrationTask (currentMigrationTool st)] \<and> s = Returned
                     else evs = [VolunteerForMigration (currentMigrationTool st), Attach d,
                                 FinalizeMigration t pid] \<and> s \<noteq> Returned)
               else evs = [VolunteerForMigration (currentMigrationTool st), Attach d]
                    \<and> s = Returned))"
proof -
  let ?ct = "currentMigrationTool st"
  from p run have c: "continueMigration t am script
      ([VolunteerForMigration ?ct], st, Suspended AwaitVolunteer) = Some (evs, st', s)"
    by (simp add: finalizePhase_def completeTheMigration_def)
  show ?thesis
  proof (cases script)
    case Nil
    with c show ?thesis by auto
  next
    case (Cons a rest)
    obtain w1 r1 where a: "a = (w1, r1)" by (cases a) auto
    from c Cons a obtain x where x: "asBool r1 = Some x"
      by (cases "asBool r1") auto
    show ?thesis
    proof (cases x)
      case Rejected
      with x have r1: "r1 = Rejected" using asBool_Some by blast
      with c Cons a show ?thesis
        by (auto simp: resumeVolunteer_def continueMigration_over)
    next
      case (Resolved b)
      with x have r1: "r1 = Resolved (PBool b)" using asBool_Some by blast
      show ?thesis
      proof (cases "tool_newContainerId w1 ?ct \<noteq> None")
        case True
        with c Cons a r1 show ?thesis
          by (auto simp: resumeVolunteer_def continueMigration_over)
      next
        case nc: False
        show ?thesis
        proof (cases b)
          case False
          with c Cons a r1 nc show ?thesis
            by (auto simp: resumeVolunteer_def continueMigration_over)
        next
          case True
          show ?thesis
          proof (cases "preparedModelId st")
            case (Some pid)
            obtain evs1 st1 s1 where aa: "afterAttach w1 t pid st = (evs1, st1, s1)"
              by (cases "afterAttach w1 t pid st") auto
            with c Cons a r1 nc True Some have
              "continueMigration t am rest ([VolunteerForMigration ?ct] @ evs1, st1, s1)
                 = Some (evs, st', s)"
              by (simp add: resumeVolunteer_def)
            from after_attach_tail[OF aa this] Cons a r1 nc True Some show ?thesis
              by auto
          next
            case None
            with c Cons a r1 nc True p have c2:
              "continueMigration t am rest
                 ([VolunteerForMigration ?ct, Attach d], st, Suspended AwaitAttach)
                 = Some (evs, st', s)"
              by (simp add: resumeVolunteer_def)
            show ?thesis
            proof (cases rest)
              case Nil
              with c2 Cons a r1 nc True None show ?thesis by auto
            next
              case (Cons a2 rest2)
              obtain w2 r2 where a2: "a2 = (w2, r2)" by (cases a2) auto
              from c2 Cons a2 obtain y where y: "asId r2 = Some y"
                by (cases "asId r2") auto
              show ?thesis
              proof (cases y)
                case Rejected
                with y have "r2 = Rejected" using asId_Some by blast
                with c2 Cons a2 \<open>script = a # rest\<close> a r1 nc True None show ?thesis
                  by (auto simp: resumeAttach_def continueMigration_over)
              next
                case (Resolved pid)
                with y have r2: "r2 = Resolved (PId pid)" using asId_Some by blast
                let ?st = "st\<lparr>preparedModelId := Some pid\<rparr>"
                obtain evs1 st1 s1 where aa: "afterAttach w2 t pid ?st = (evs1, st1, s1)"
                  by (cases "afterAttach w2 t pid ?st") auto
                with c2 Cons a2 r2 have
                  "continueMigration t am rest2
                     ([VolunteerForMigration ?ct, Attach d] @ evs1, st1, s1) = Some (evs, st', s)"
                  by (simp add: resumeAttach_def)
                from after_attach_tail[OF aa this] Cons a2 r2 \<open>script = a # rest\<close> a r1 nc True None
                show ?thesis by (auto simp: currentMigrationTool_def)
              qed
            qed
          qed
        qed
      qed
    qed
  qed
qed

lemma finalize_called_iff:
  assumes "preparedDetachedModel st = Some d" "finalizePhase t am script st = Some (evs, st', s)"
  shows "(\<exists>pid. FinalizeMigration t pid \<in> set evs) = finalizeConditions script st"
  using finalize_run[OF assms]
  by (elim disjE exE conjE) (auto simp: finalizeConditions_def split: if_splits)

lemma finalize_called_with_id:
  assumes "preparedDetachedModel st = Some d" "finalizePhase t am script st = Some (evs, st', s)"
    "finalizeConditions script st"
  shows "\<exists>pid. preparedModelId st' = Some pid \<and> FinalizeMigration t pid \<in> set evs"
  using finalize_run[OF assms(1,2)] assms(3)
  by (elim disjE exE conjE) (auto simp: finalizeConditions_def split: if_splits)

lemma complete_called_iff:
  assumes "preparedDetachedModel st = Some d" "finalizePhase t am script st = Some (evs, st', s)"
  shows "(CompleteMigrationTask (currentMigrationTool st) \<in> set evs)
         = (finalizeConditions script st \<and> finalizeSettles script st)"
  using finalize_run[OF assms]
  by (elim disjE exE conjE) (auto simp: finalizeConditions_def finalizeSettles_def split: if_splits)

lemma complete_follows_finalize:
  assumes "preparedDetachedModel st = Some d" "finalizePhase t am script st = Some (evs, st', s)"
    "CompleteMigrationTask (currentMigrationTool st) \<in> set evs"
  shows "\<exists>pre pid. evs = pre @ [FinalizeMigration t pid, CompleteMigrationTask (currentMigrationTool st)]"
  using finalize_run[OF assms(1,2)] assms(3)
proof (elim disjE exE conjE, goal_cases)
  case (5 w1 rest pid)
  then have "evs = [VolunteerForMigration (currentMigrationTool st)]
               @ [FinalizeMigration t pid, CompleteMigrationTask (currentMigrationTool st)]"
    by (auto split: if_splits)
  then show ?case by blast
next
  case (8 w1 w2 pid rest)
  then have "evs = [VolunteerForMigration (currentMigrationTool st), Attach d]
               @ [FinalizeMigration t pid, CompleteMigrationTask (currentMigrationTool st)]"
    by (auto split: if_splits)
  then show ?case by blast
qed auto

lemma volunteer_throws:
  assumes "preparedDetachedModel st = Some d"
    "finalizePhase t am ((w1, Rejected) # rest) st = Some (evs, st', s)"
  shows "evs = [VolunteerForMigration (currentMigrationTool st)] \<and> st' = st
         \<and> s = (if connected w1 st then Failed AssertDisconnected else Returned)"
  using finalize_run[OF assms]
  by (elim disjE exE conjE) auto

lemma already_finalized:
  assumes "preparedDetachedModel st = Some d"
    "finalizePhase t am ((w1, Resolved (PBool b)) # rest) st = Some (evs, st', s)"
    "tool_newContainerId w1 (currentMigrationTool st) \<noteq> None"
  shows "evs = [VolunteerForMigration (currentMigrationTool st)] \<and> st' = st \<and> s = Returned"
  using finalize_run[OF assms(1,2)] assms(3)
  by (elim disjE exE conjE) auto

subsection \<open>Runs of one attempt: the retry cache\<close>

lemma afterAttach_run:
  "afterAttach w t pid st = (evs, st', s) \<Longrightarrow>
     st' = st \<and> list_all isFinalizeCall evs \<and> (\<forall>d. Attach d \<notin> set evs)
     \<and> (s = Returned \<or> s = Suspended AwaitFinalize)"
  by (auto simp: afterAttach_def isFinalizeCall_def split: if_splits)

lemma resume_in_finalize:
  assumes "inFinalize (Suspended pc)" "resumeMigration w t am pc r st = Some (evs, st', s)"
  shows "list_all isFinalizeCall evs \<and> inFinalize s
         \<and> preparedDetachedModel st' = preparedDetachedModel st"
proof -
  from assms(1) consider "pc = AwaitVolunteer" | "pc = AwaitAttach" | "pc = AwaitFinalize"
    by (auto simp: inFinalize_def)
  then show ?thesis
  proof cases
    case 1
    with assms obtain x where "resumeVolunteer w t x st = (evs, st', s)" by auto
    then show ?thesis
      by (cases x)
         (auto simp: resumeVolunteer_def inFinalize_def isFinalizeCall_def
            split: if_splits option.splits dest!: afterAttach_run)
  next
    case 2
    with assms obtain x where "resumeAttach w t x st = (evs, st', s)" by auto
    then show ?thesis
      by (cases x) (auto simp: resumeAttach_def inFinalize_def dest!: afterAttach_run)
  next
    case 3
    with assms obtain x where "resumeFinalize x st = (evs, st', s)" by auto
    then show ?thesis
      by (cases x) (auto simp: resumeFinalize_def inFinalize_def isFinalizeCall_def)
  qed
qed

lemma resume_attached:
  assumes "pc = AwaitVolunteer \<or> pc = AwaitFinalize" "preparedModelId st \<noteq> None"
    and "resumeMigration w t am pc r st = Some (evs, st', s)"
  shows "preparedModelId st' = preparedModelId st \<and> (\<forall>d. Attach d \<notin> set evs)
         \<and> (s = Suspended AwaitFinalize \<or> s = Returned \<or> (\<exists>e. s = Failed e))"
  using assms(1)
proof
  assume "pc = AwaitVolunteer"
  with assms obtain x where "resumeVolunteer w t x st = (evs, st', s)" by auto
  with assms(2) show ?thesis
    by (cases x)
       (auto simp: resumeVolunteer_def split: if_splits option.splits dest!: afterAttach_run)
next
  assume "pc = AwaitFinalize"
  with assms obtain x where "resumeFinalize x st = (evs, st', s)" by auto
  then show ?thesis by (cases x) (auto simp: resumeFinalize_def)
qed

subsection \<open>The events of the dispatcher and of a resumption\<close>

lemma registrations_Nil [simp]: "registrations [] = []"
  by (simp add: registrations_def)

lemma registrations_Cons [simp]: "registrations (e # evs) = registered e @ registrations evs"
  by (simp add: registrations_def)

lemma registrations_append [simp]:
  "registrations (xs @ ys) = registrations xs @ registrations ys"
  by (simp add: registrations_def)

lemma doTheMigration_migrating:
  "migrationState w st = Migrating \<Longrightarrow>
     doTheMigration w am st =
       (if preparedDetachedModel st = None
        then ([SupportsVersion (newVersion am)], st, Suspended AwaitSupportsVersion)
        else ([VolunteerForMigration (currentMigrationTool st)], st, Suspended AwaitVolunteer))"
  by (simp add: doTheMigration_def prepareTheMigration_def afterPrepare_def
        completeTheMigration_def)

text \<open>What an invocation of the dispatcher that returns has done.\<close>

lemma dispatcher_returns:
  assumes "takeAppropriateActionForCurrentMigratable w st = Inr (evs, st', ts)"
  obtains (noop) "\<not> quiescent st" "evs = []" "st' = st" "ts = []"
      "migrationState w st = Migrating \<and> connected w st \<and> migrationP st \<noteq> None
       \<or> migrationState w st = Migrated \<and> migratedLoadP st \<noteq> None"
  | (listen) name where "evs = [Once (currentMigrationTool st) name Dispatcher]"
      "st' = st" "ts = []"
      "name = ''migrating'' \<and> migrationState w st = Collaborating
       \<or> name = ''connected'' \<and> migrationState w st = Migrating \<and> \<not> connected w st"
  | (migrate) am pc where "migrationState w st = Migrating" "connected w st" "quiescent st"
      "tool_acceptedMigration w (currentMigrationTool st) = Some am"
      "\<not> subscriber_throws w Emit_migrating"
      "evs = [Emit_migrating, SupportsVersion (newVersion am)] \<and> pc = AwaitSupportsVersion
          \<and> preparedDetachedModel st = None
       \<or> evs = [Emit_migrating, VolunteerForMigration (currentMigrationTool st)]
          \<and> pc = AwaitVolunteer \<and> preparedDetachedModel st \<noteq> None"
      "st' = st\<lparr>migrationP := Some Promise\<rparr>"
      "ts = [MigrationTask (currentMigrationTool st) am pc]"
  | (load) am mid where "migrationState w st = Migrated" "quiescent st"
      "tool_acceptedMigration w (currentMigrationTool st) = Some am"
      "tool_newContainerId w (currentMigrationTool st) = Some mid"
      "evs = [SupportsVersion (newVersion am)]" "st' = st\<lparr>migratedLoadP := Some Promise\<rparr>"
      "ts = [LoadTask am mid LoadAwaitSupportsVersion]"
  using assms
proof (cases rule: dispatcher_cases)
  case migrating
  from migrating(2) show ?thesis
  proof (cases rule: ensureMigrating_cases)
    case disconnected
    with migrating(1) show ?thesis by (intro listen[of "''connected''"]) auto
  next
    case inflight
    with migrating(1) show ?thesis by (intro noop) (auto simp: quiescent_def)
  next
    case (started am evs1 st1 s evs2)
    from started(6) doTheMigration_migrating[OF migrating(1), of am]
    have d: "evs1 = (if preparedDetachedModel st = None then [SupportsVersion (newVersion am)]
                     else [VolunteerForMigration (currentMigrationTool st)])"
      "st1 = st"
      "s = Suspended (if preparedDetachedModel st = None then AwaitSupportsVersion
                      else AwaitVolunteer)"
      by (auto split: if_splits)
    with started(7) have c: "evs2 = evs1"
      "ts = [MigrationTask (currentMigrationTool st) am
               (if preparedDetachedModel st = None then AwaitSupportsVersion else AwaitVolunteer)]"
      by (auto simp: migrationChain_def)
    from migrating(1) started(1-5,8,9) d c show ?thesis
      by (intro migrate[of am "if preparedDetachedModel st = None then AwaitSupportsVersion
                               else AwaitVolunteer"])
         (auto simp: quiescent_def)
  qed
next
  case migrated
  from migrated(2) show ?thesis
  proof (cases rule: ensureLoading_cases)
    case inflight
    with migrated(1) show ?thesis by (intro noop) (auto simp: quiescent_def)
  next
    case (started am migratedId)
    with migrated(1) show ?thesis by (intro load[of am migratedId]) (auto simp: quiescent_def)
  qed
next
  case collaborating
  then show ?thesis by (intro listen[of "''migrating''"]) auto
qed

lemma resumeMigration_events:
  assumes "resumeMigration w t am pc r st = Some (evs, st', s)"
  shows "registrations evs = [] \<and> \<not> list_ex isConsoleError evs \<and> (\<forall>x. Uncaught x \<notin> set evs)"
proof (cases pc)
  case AwaitSupportsVersion
  with assms obtain x where "resumeSupportsVersion w am x st = (evs, st', s)" by auto
  then show ?thesis
    by (cases x)
       (auto simp: resumeSupportsVersion_def isConsoleError_def split: if_splits
          dest!: abandonPrepare_events)
next
  case AwaitCreateDetached
  with assms obtain x where "resumeCreateDetached am x st = (evs, st', s)" by auto
  then show ?thesis by (cases x) (auto simp: resumeCreateDetached_def isConsoleError_def)
next
  case (AwaitLoadExistingPaused d)
  with assms obtain x where "resumeLoadExistingPaused d x st = (evs, st', s)" by auto
  then show ?thesis by (cases x) (auto simp: resumeLoadExistingPaused_def isConsoleError_def)
next
  case (AwaitExportData d em)
  with assms obtain x where "resumeExportData w am d em x st = (evs, st', s)" by auto
  then show ?thesis
    by (cases x)
       (auto simp: resumeExportData_def Let_def isConsoleError_def split: if_splits prod.splits
          dest!: abandonPrepare_events)
next
  case (AwaitTransform d)
  with assms obtain x where "resumeTransform w am d x st = (evs, st', s)" by auto
  then show ?thesis
    by (cases x) (auto simp: resumeTransform_def isConsoleError_def dest!: abandonPrepare_events)
next
  case (AwaitImportData d)
  with assms obtain x where "resumeImportData w d x st = (evs, st', s)" by auto
  then show ?thesis
    by (cases x) (auto simp: resumeImportData_def isConsoleError_def dest!: afterPrepare_events)
next
  case AwaitVolunteer
  with assms obtain x where "resumeVolunteer w t x st = (evs, st', s)" by auto
  then show ?thesis
    by (cases x)
       (auto simp: resumeVolunteer_def isConsoleError_def split: if_splits option.splits
          dest!: afterAttach_events)
next
  case AwaitAttach
  with assms obtain x where "resumeAttach w t x st = (evs, st', s)" by auto
  then show ?thesis
    by (cases x) (auto simp: resumeAttach_def isConsoleError_def dest!: afterAttach_events)
next
  case AwaitFinalize
  with assms obtain x where "resumeFinalize x st = (evs, st', s)" by auto
  then show ?thesis by (cases x) (auto simp: resumeFinalize_def isConsoleError_def)
qed

subsection \<open>The invariant\<close>

lemma wellFormed_cases:
  assumes "wellFormed sys"
  obtains (halted) "pending sys = []" "listeners sys = []" "cacheOrdered (migrator sys)"
  | (listening) l where "pending sys = []" "listeners sys = [l]" "quiescent (migrator sys)"
      "cacheOrdered (migrator sys)"
  | (running) tk where "pending sys = [tk]" "listeners sys = []"
      "taskConsistent tk (migrator sys)" "cacheOrdered (migrator sys)"
  using assms by (auto simp: wellFormed_def split: list.splits)

text \<open>Along a resumed attempt the markers and the cache stay as the suspension points
  require.\<close>

lemma resumeMigration_wf:
  assumes "cacheOrdered st" "migrationP st \<noteq> None" "migratedLoadP st = None" "cacheAt pc st"
    and "resumeMigration w t am pc r st = Some (evs, st', s)"
  shows "cacheOrdered st' \<and> migratedLoadP st' = None
         \<and> (\<forall>pc'. s = Suspended pc' \<longrightarrow> migrationP st' \<noteq> None \<and> cacheAt pc' st')"
proof (cases pc)
  case AwaitSupportsVersion
  with assms obtain x where "resumeSupportsVersion w am x st = (evs, st', s)" by auto
  with assms(1-4) AwaitSupportsVersion show ?thesis
    by (cases x)
       (auto simp: resumeSupportsVersion_def cacheOrdered_def split: if_splits
          dest!: abandonPrepare_over[rotated])
next
  case AwaitCreateDetached
  with assms obtain x where "resumeCreateDetached am x st = (evs, st', s)" by auto
  with assms(1-4) AwaitCreateDetached show ?thesis
    by (cases x) (auto simp: resumeCreateDetached_def)
next
  case (AwaitLoadExistingPaused d)
  with assms obtain x where "resumeLoadExistingPaused d x st = (evs, st', s)" by auto
  with assms(1-4) AwaitLoadExistingPaused show ?thesis
    by (cases x) (auto simp: resumeLoadExistingPaused_def)
next
  case (AwaitExportData d em)
  with assms obtain x where "resumeExportData w am d em x st = (evs, st', s)" by auto
  with assms(1-4) AwaitExportData show ?thesis
    by (cases x)
       (auto simp: resumeExportData_def Let_def cacheOrdered_def split: if_splits prod.splits
          dest!: abandonPrepare_over[rotated])
next
  case (AwaitTransform d)
  with assms obtain x where "resumeTransform w am d x st = (evs, st', s)" by auto
  with assms(1-4) AwaitTransform show ?thesis
    by (cases x)
       (auto simp: resumeTransform_def cacheOrdered_def dest!: abandonPrepare_over[rotated])
next
  case (AwaitImportData d)
  with assms obtain x where "resumeImportData w d x st = (evs, st', s)" by auto
  with assms(1-4) AwaitImportData show ?thesis
    by (cases x)
       (auto simp: resumeImportData_def cacheOrdered_def afterPrepare_def
          completeTheMigration_def split: if_splits)
next
  case AwaitVolunteer
  with assms obtain x where "resumeVolunteer w t x st = (evs, st', s)" by auto
  with assms(1-4) AwaitVolunteer show ?thesis
    by (cases x)
       (auto simp: resumeVolunteer_def afterAttach_def split: if_splits option.splits)
next
  case AwaitAttach
  with assms obtain x where "resumeAttach w t x st = (evs, st', s)" by auto
  with assms(1-4) AwaitAttach show ?thesis
    by (cases x) (auto simp: resumeAttach_def afterAttach_def cacheOrdered_def split: if_splits)
next
  case AwaitFinalize
  with assms obtain x where "resumeFinalize x st = (evs, st', s)" by auto
  with assms(1-4) show ?thesis by (cases x) (auto simp: resumeFinalize_def)
qed

lemma dispatcher_wf:
  assumes "quiescent st" "cacheOrdered st"
    and "takeAppropriateActionForCurrentMigratable w st = Inr (evs, st', ts)"
  shows "wellFormed \<lparr>migrator = st', pending = ts, listeners = registrations evs\<rparr>"
  using assms(3)
proof (cases rule: dispatcher_returns)
  case noop
  with assms(1) show ?thesis by simp
next
  case (listen name)
  with assms(1,2) show ?thesis by (simp add: wellFormed_def)
next
  case (migrate am pc)
  with assms(1,2) show ?thesis
    by (auto simp: wellFormed_def quiescent_def cacheOrdered_def)
next
  case (load am mid)
  with assms(1,2) show ?thesis
    by (auto simp: wellFormed_def quiescent_def cacheOrdered_def)
qed

lemma thenContinuation_wf:
  assumes "cacheOrdered st" "migratedLoadP st = None"
    and "thenContinuation w st = (evs, st', ts)"
  shows "wellFormed \<lparr>migrator = st', pending = ts, listeners = registrations evs\<rparr>"
  using assms(3)
proof (cases rule: thenContinuation_cases)
  case assert
  with assms(1) show ?thesis by (simp add: wellFormed_def)
next
  case (threw evs1 e)
  from dispatcher_thrown[OF threw(2)] threw(3) assms(1) show ?thesis
    by (auto simp: wellFormed_def cacheOrdered_def)
next
  case dispatched
  from assms(1,2) have "quiescent (st\<lparr>migrationP := None\<rparr>)" "cacheOrdered (st\<lparr>migrationP := None\<rparr>)"
    by (auto simp: quiescent_def cacheOrdered_def)
  from dispatcher_wf[OF this dispatched(2)] show ?thesis .
qed

lemma resumeLoad_wf:
  assumes "cacheOrdered st" "migrationP st = None" "migratedLoadP st \<noteq> None"
    and "resumeLoad w am mid pc r st = Some (evs, st', ts)"
  shows "wellFormed \<lparr>migrator = st', pending = ts, listeners = registrations evs\<rparr>"
proof (cases pc)
  case LoadAwaitSupportsVersion
  with assms obtain x where "resumeLoadSupportsVersion w am mid x st = (evs, st', ts)" by auto
  with assms(1-3) show ?thesis
    by (cases x)
       (auto simp: resumeLoadSupportsVersion_def wellFormed_def cacheOrdered_def
          split: if_splits)
next
  case LoadAwaitLoadExisting
  with assms obtain x where "resumeLoadExisting w mid x st = (evs, st', ts)" by auto
  then show ?thesis
  proof (cases rule: resumeLoadExisting_cases)
    case rejected
    with assms(1) show ?thesis by (simp add: wellFormed_def)
  next
    case (subscriber m t)
    with assms(1) show ?thesis by (simp add: wellFormed_def cacheOrdered_def)
  next
    case (threw m t evs1 e)
    from dispatcher_thrown[OF threw(3)] threw(4-6) show ?thesis
      by (auto simp: wellFormed_def cacheOrdered_def)
  next
    case (dispatched m t evs1)
    let ?s = "st\<lparr>currentMigratable := \<lparr>model = m, migrationTool = t, modelId = mid\<rparr>,
               migratedLoadP := None, preparedDetachedModel := None, preparedModelId := None\<rparr>"
    from assms(2) have "quiescent ?s" "cacheOrdered ?s"
      by (auto simp: quiescent_def cacheOrdered_def)
    from dispatcher_wf[OF this dispatched(3)] dispatched(4) show ?thesis by simp
  qed
qed

lemma resumeTask_wf:
  assumes "cacheOrdered st" "taskConsistent tk st"
    and "resumeTask w tk r st = Some (evs, st', ts)"
  shows "wellFormed \<lparr>migrator = st', pending = ts, listeners = registrations evs\<rparr>"
proof (cases tk)
  case (MigrationTask t am pc)
  with assms(3) obtain evs1 st1 s where
    r: "resumeMigration w t am pc r st = Some (evs1, st1, s)"
    and c: "migrationChain t am (evs1, st1, s) = (evs, st', ts)"
    by auto
  from assms(2) MigrationTask have "migrationP st \<noteq> None" "migratedLoadP st = None" "cacheAt pc st"
    by auto
  from resumeMigration_wf[OF assms(1) this r] resumeMigration_events[OF r] c show ?thesis
    by (cases s) (auto simp: migrationChain_def wellFormed_def)
next
  case ThenTask
  with assms(3) have t: "thenContinuation w st = (evs, st', ts)" by (auto split: if_splits)
  from assms(2) ThenTask have "migratedLoadP st = None" by simp
  from thenContinuation_wf[OF assms(1) this t] show ?thesis .
next
  case (LoadTask am mid pc)
  with assms(3) have l: "resumeLoad w am mid pc r st = Some (evs, st', ts)" by simp
  from assms(2) LoadTask have "migrationP st = None" "migratedLoadP st \<noteq> None" by auto
  from resumeLoad_wf[OF assms(1) this l] show ?thesis .
qed

text \<open>The invariant holds after the constructor and after every step.\<close>

lemma newMigrator_wf:
  assumes "newMigrator w m t i cb = Inr (evs, sys)"
  shows "wellFormed sys"
proof -
  let ?st = "\<lparr>currentMigratable = \<lparr>model = m, migrationTool = t, modelId = i\<rparr>,
              migrationP = None, migratedLoadP = None,
              preparedDetachedModel = None, preparedModelId = None,
              dataTransformationCallback = cb\<rparr>"
  from assms obtain st' ts where
    d: "takeAppropriateActionForCurrentMigratable w ?st = Inr (evs, st', ts)"
    and s: "sys = \<lparr>migrator = st', pending = ts, listeners = registrations evs\<rparr>"
    by (auto simp: newMigrator_def split: sum.splits)
  have "quiescent ?st" "cacheOrdered ?st" by (auto simp: quiescent_def cacheOrdered_def)
  from dispatcher_wf[OF this d] s show ?thesis by simp
qed

lemma step_wf:
  assumes "wellFormed sys" "step w inp sys = Some (evs, sys')"
  shows "wellFormed sys'"
  using assms(2)
proof (cases rule: step_cases)
  case (uncaught k evs1 e)
  from assms(1) uncaught(2) have "pending sys = []" "take k (listeners sys) = []"
    "drop (Suc k) (listeners sys) = []" "cacheOrdered (migrator sys)"
    by (auto elim!: wellFormed_cases)
  with dispatcher_thrown[OF uncaught(3)] uncaught(5) show ?thesis
    by (auto simp: wellFormed_def)
next
  case (fire k st' ts)
  from assms(1) fire(2) have l: "pending sys = []" "take k (listeners sys) = []"
    "drop (Suc k) (listeners sys) = []"
    and q: "quiescent (migrator sys)" "cacheOrdered (migrator sys)"
    by (auto elim!: wellFormed_cases)
  from dispatcher_wf[OF q fire(3)] fire(4) l show ?thesis by simp
next
  case (resume n r st' ts)
  from assms(1) resume(2) have l: "listeners sys = []" "take n (pending sys) = []"
    "drop (Suc n) (pending sys) = []"
    and q: "cacheOrdered (migrator sys)" "taskConsistent (pending sys ! n) (migrator sys)"
    by (auto elim!: wellFormed_cases)
  from resumeTask_wf[OF q resume(3)] resume(4) l show ?thesis by simp
qed

lemma run_wf:
  "wellFormed sys \<Longrightarrow> run script sys = Some (evs, sys') \<Longrightarrow> wellFormed sys'"
proof (induction script arbitrary: sys evs)
  case Nil
  then show ?case by simp
next
  case (Cons a script)
  obtain w inp where a: "a = (w, inp)" by (cases a) auto
  with Cons.prems(2) obtain evs1 sys1 evs2 where
    s: "step w inp sys = Some (evs1, sys1)" and r: "run script sys1 = Some (evs2, sys')"
    by (auto split: option.splits)
  from Cons.IH[OF step_wf[OF Cons.prems(1) s] r] show ?case .
qed

lemma reachable_wf:
  assumes "newMigrator w m t i cb = Inr (evs0, sys0)" "run script sys0 = Some (evs, sys)"
  shows "wellFormed sys"
  using run_wf[OF newMigrator_wf[OF assms(1)] assms(2)] .

text \<open>Once nothing is suspended and nothing registered, nothing happens any more.\<close>

lemma halted_step: "halted sys \<Longrightarrow> step w inp sys = None"
  by (cases inp) (auto simp: halted_def step_def)

lemma halted_run:
  assumes "halted sys" "run script sys = Some (evs, sys')"
  shows "script = [] \<and> evs = [] \<and> sys' = sys"
proof (cases script)
  case Nil
  with assms(2) show ?thesis by simp
next
  case (Cons a rest)
  obtain w inp where "a = (w, inp)" by (cases a) auto
  with assms(2) Cons halted_step[OF assms(1), of w inp] show ?thesis by simp
qed

subsection \<open>Errors and calls of a step\<close>

lemma dispatcher_calls:
  assumes "takeAppropriateActionForCurrentMigratable w st = Inr (evs, st', ts)"
  shows "\<not> list_ex isConsoleError evs \<and> \<not> list_ex isPrepareCall evs
         \<and> (\<forall>d. Attach d \<notin> set evs)"
  using assms
  by (cases rule: dispatcher_returns) (auto simp: isConsoleError_def isPrepareCall_def)

text \<open>A resumption that logs an error leaves nothing suspended and registers nothing.\<close>

lemma resumeLoad_error:
  assumes "resumeLoad w am mid pc r st = Some (evs, st', ts)" "list_ex isConsoleError evs"
  shows "ts = [] \<and> registrations evs = []"
proof (cases pc)
  case LoadAwaitSupportsVersion
  with assms obtain x where "resumeLoadSupportsVersion w am mid x st = (evs, st', ts)" by auto
  with assms(2) show ?thesis
    by (cases x)
       (auto simp: resumeLoadSupportsVersion_def isConsoleError_def split: if_splits)
next
  case LoadAwaitLoadExisting
  with assms obtain x where "resumeLoadExisting w mid x st = (evs, st', ts)" by auto
  then show ?thesis
  proof (cases rule: resumeLoadExisting_cases)
    case rejected
    then show ?thesis by simp
  next
    case (subscriber m t)
    then show ?thesis by simp
  next
    case (threw m t evs1 e)
    from dispatcher_thrown[OF threw(3)] threw(4,6) show ?thesis by auto
  next
    case (dispatched m t evs1)
    from dispatcher_calls[OF dispatched(3)] dispatched(4) assms(2) show ?thesis
      by (auto simp: isConsoleError_def)
  qed
qed

lemma resumeTask_error:
  assumes "resumeTask w tk r st = Some (evs, st', ts)" "list_ex isConsoleError evs"
  shows "ts = [] \<and> registrations evs = []"
proof (cases tk)
  case (MigrationTask t am pc)
  with assms(1) obtain evs1 st1 s where
    r: "resumeMigration w t am pc r st = Some (evs1, st1, s)"
    and c: "migrationChain t am (evs1, st1, s) = (evs, st', ts)"
    by auto
  from resumeMigration_events[OF r] c assms(2) show ?thesis
    by (cases s) (auto simp: migrationChain_def)
next
  case ThenTask
  with assms(1) have "thenContinuation w st = (evs, st', ts)" by (auto split: if_splits)
  then show ?thesis
  proof (cases rule: thenContinuation_cases)
    case assert
    then show ?thesis by simp
  next
    case (threw evs1 e)
    from dispatcher_thrown[OF threw(2)] threw(3) show ?thesis by auto
  next
    case dispatched
    from dispatcher_calls[OF dispatched(2)] assms(2) show ?thesis by simp
  qed
next
  case (LoadTask am mid pc)
  with assms(1) have "resumeLoad w am mid pc r st = Some (evs, st', ts)" by simp
  from resumeLoad_error[OF this assms(2)] show ?thesis .
qed

lemma step_error_halts:
  assumes "wellFormed sys" "step w inp sys = Some (evs, sys')" "list_ex isConsoleError evs"
  shows "halted sys'"
  using assms(2)
proof (cases rule: step_cases)
  case (uncaught k evs1 e)
  from dispatcher_thrown[OF uncaught(3)] uncaught(4) assms(3) show ?thesis
    by (auto simp: isConsoleError_def)
next
  case (fire k st' ts)
  from dispatcher_calls[OF fire(3)] assms(3) show ?thesis by simp
next
  case (resume n r st' ts)
  from assms(1) resume(2) have l: "listeners sys = []" "take n (pending sys) = []"
    "drop (Suc n) (pending sys) = []"
    by (auto elim!: wellFormed_cases)
  from resumeTask_error[OF resume(3) assms(3)] resume(4) l show ?thesis
    by (simp add: halted_def)
qed

text \<open>The calls of a resumption while the cache is set.\<close>

lemma finalize_not_prepare: "isFinalizeCall e \<Longrightarrow> \<not> isPrepareCall e"
  by (cases e) (auto simp: isFinalizeCall_def isPrepareCall_def)

lemma resumeLoad_calls:
  assumes "resumeLoad w am mid pc r st = Some (evs, st', ts)"
  shows "\<not> list_ex isPrepareCall evs \<and> (\<forall>d. Attach d \<notin> set evs)"
proof (cases pc)
  case LoadAwaitSupportsVersion
  with assms obtain x where "resumeLoadSupportsVersion w am mid x st = (evs, st', ts)" by auto
  then show ?thesis
    by (cases x)
       (auto simp: resumeLoadSupportsVersion_def isPrepareCall_def split: if_splits)
next
  case LoadAwaitLoadExisting
  with assms obtain x where "resumeLoadExisting w mid x st = (evs, st', ts)" by auto
  then show ?thesis
  proof (cases rule: resumeLoadExisting_cases)
    case rejected
    then show ?thesis by (simp add: isPrepareCall_def)
  next
    case (subscriber m t)
    then show ?thesis by (simp add: isPrepareCall_def)
  next
    case (threw m t evs1 e)
    from dispatcher_thrown[OF threw(3)] threw(4) show ?thesis
      by (auto simp: isPrepareCall_def)
  next
    case (dispatched m t evs1)
    from dispatcher_calls[OF dispatched(3)] dispatched(4) show ?thesis
      by (auto simp: isPrepareCall_def)
  qed
qed

lemma thenContinuation_calls:
  assumes "thenContinuation w st = (evs, st', ts)"
  shows "\<not> list_ex isPrepareCall evs \<and> (\<forall>d. Attach d \<notin> set evs)"
  using assms
proof (cases rule: thenContinuation_cases)
  case assert
  then show ?thesis by (simp add: isPrepareCall_def)
next
  case (threw evs1 e)
  from dispatcher_thrown[OF threw(2)] threw(3) show ?thesis by (auto simp: isPrepareCall_def)
next
  case dispatched
  from dispatcher_calls[OF dispatched(2)] show ?thesis by simp
qed

lemma resumeTask_calls:
  assumes "taskConsistent tk st" "resumeTask w tk r st = Some (evs, st', ts)"
  shows "(preparedDetachedModel st \<noteq> None \<longrightarrow> \<not> list_ex isPrepareCall evs)
         \<and> (preparedModelId st \<noteq> None \<and> cacheOrdered st \<longrightarrow> (\<forall>d. Attach d \<notin> set evs))"
proof (cases tk)
  case (MigrationTask t am pc)
  with assms(2) obtain evs1 st1 s where
    r: "resumeMigration w t am pc r st = Some (evs1, st1, s)"
    and c: "migrationChain t am (evs1, st1, s) = (evs, st', ts)"
    by auto
  from migrationChain_events[OF c] have
    e: "evs = evs1 \<or> (\<exists>e. evs = evs1 @ [ConsoleError e])" by auto
  from assms(1) MigrationTask have ca: "cacheAt pc st" by simp
  have 1: "\<not> list_ex isPrepareCall evs" if p: "preparedDetachedModel st \<noteq> None"
  proof -
    from ca p have "inFinalize (Suspended pc)" by (cases pc) (auto simp: inFinalize_def)
    from resume_in_finalize[OF this r] have "list_all isFinalizeCall evs1" by simp
    then have "\<not> list_ex isPrepareCall evs1"
      by (auto simp: list_all_iff list_ex_iff dest: finalize_not_prepare)
    with e show ?thesis by (auto simp: isPrepareCall_def)
  qed
  have 2: "\<forall>d. Attach d \<notin> set evs" if p: "preparedModelId st \<noteq> None" "cacheOrdered st"
  proof -
    from p have "preparedDetachedModel st \<noteq> None" by (auto simp: cacheOrdered_def)
    with ca p(1) have "pc = AwaitVolunteer \<or> pc = AwaitFinalize" by (cases pc) auto
    from resume_attached[OF this p(1) r] e show ?thesis by auto
  qed
  from 1 2 show ?thesis by blast
next
  case ThenTask
  with assms(2) have "thenContinuation w st = (evs, st', ts)" by (auto split: if_splits)
  from thenContinuation_calls[OF this] show ?thesis by simp
next
  case (LoadTask am mid pc)
  with assms(2) have "resumeLoad w am mid pc r st = Some (evs, st', ts)" by simp
  from resumeLoad_calls[OF this] show ?thesis by simp
qed

lemma step_calls:
  assumes "wellFormed sys" "step w inp sys = Some (evs, sys')"
  shows "(preparedDetachedModel (migrator sys) \<noteq> None \<longrightarrow> \<not> list_ex isPrepareCall evs)
         \<and> (preparedModelId (migrator sys) \<noteq> None \<longrightarrow> (\<forall>d. Attach d \<notin> set evs))"
  using assms(2)
proof (cases rule: step_cases)
  case (uncaught k evs1 e)
  from dispatcher_thrown[OF uncaught(3)] uncaught(4) show ?thesis
    by (auto simp: isPrepareCall_def)
next
  case (fire k st' ts)
  from dispatcher_calls[OF fire(3)] show ?thesis by simp
next
  case (resume n r st' ts)
  from assms(1) resume(2) have "taskConsistent (pending sys ! n) (migrator sys)"
    "cacheOrdered (migrator sys)"
    by (auto elim!: wellFormed_cases)
  with resumeTask_calls[OF _ resume(3)] show ?thesis by blast
qed

text \<open>\<^verbatim>\<open>_preparedModelId\<close> is assigned while \<^verbatim>\<open>_preparedDetachedModel\<close> is set.\<close>

lemma step_assigns_prepared:
  assumes "wellFormed sys" "step w inp sys = Some (evs, sys')"
    and "preparedModelId (migrator sys') \<noteq> preparedModelId (migrator sys)"
    and "preparedModelId (migrator sys') \<noteq> None"
  shows "preparedDetachedModel (migrator sys) \<noteq> None
         \<and> preparedDetachedModel (migrator sys') = preparedDetachedModel (migrator sys)"
proof -
  from step_assigns[OF assms(2-4)] obtain n t am pid where
    *: "inp = Resume n (Resolved (PId pid))" "n < length (pending sys)"
       "pending sys ! n = MigrationTask t am AwaitAttach"
       "preparedDetachedModel (migrator sys') = preparedDetachedModel (migrator sys)"
    by blast
  from assms(1) *(2) have "taskConsistent (pending sys ! n) (migrator sys)"
    by (auto elim!: wellFormed_cases)
  with *(3,4) show ?thesis by simp
qed

text \<open>\<^verbatim>\<open>_preparedDetachedModel\<close> is assigned where \<^verbatim>\<open>importData\<close> resolves only, and
  the cache is empty then.\<close>

lemma step_prepares:
  assumes "wellFormed sys" "step w inp sys = Some (evs, sys')"
    and "preparedDetachedModel (migrator sys') \<noteq> preparedDetachedModel (migrator sys)"
    and "preparedDetachedModel (migrator sys') \<noteq> None"
  shows "preparedDetachedModel (migrator sys) = None \<and> preparedModelId (migrator sys) = None
         \<and> (\<exists>n t am d. inp = Resume n (Resolved PUnit) \<and> n < length (pending sys)
               \<and> pending sys ! n = MigrationTask t am (AwaitImportData d)
               \<and> preparedDetachedModel (migrator sys') = Some d)"
  using assms(2)
proof (cases rule: step_cases)
  case (uncaught k evs1 e)
  with assms(3) show ?thesis by auto
next
  case (fire k st' ts)
  from dispatcher_fields[OF fire(3)] fire(4) assms(3) show ?thesis by auto
next
  case (resume n r st' ts)
  from assms(1) resume(2) have tc: "taskConsistent (pending sys ! n) (migrator sys)"
    and co: "cacheOrdered (migrator sys)"
    by (auto elim!: wellFormed_cases)
  show ?thesis
  proof (cases "pending sys ! n")
    case (MigrationTask t am pc)
    with resume(3) obtain evs1 st1 s where
      r: "resumeMigration w t am pc r (migrator sys) = Some (evs1, st1, s)"
      and c: "migrationChain t am (evs1, st1, s) = (evs, st', ts)"
      by auto
    from c have st: "st' = st1" by (rule migrationChain_state)
    with resumeMigration_fields[OF r] assms(3) resume(4) obtain d where
      d: "pc = AwaitImportData d" "preparedDetachedModel st1 = Some d" by auto
    with r obtain x where x: "asUnit r = Some x"
      and i: "resumeImportData w d x (migrator sys) = (evs1, st1, s)" by auto
    from i st assms(3) resume(4) have "x \<noteq> Rejected"
      by (auto simp: resumeImportData_def)
    with asUnit_Some[OF x] have "r = Resolved PUnit" by auto
    moreover from tc MigrationTask d(1) co have "preparedDetachedModel (migrator sys) = None"
      "preparedModelId (migrator sys) = None" by (auto simp: cacheOrdered_def)
    ultimately show ?thesis using resume(1,2,4) MigrationTask d st by auto
  next
    case ThenTask
    with resume(3) have "thenContinuation w (migrator sys) = (evs, st', ts)"
      by (auto split: if_splits)
    from thenContinuation_fields[OF this] resume(4) assms(3) show ?thesis by auto
  next
    case (LoadTask am mid pc)
    with resume(3) have "resumeLoad w am mid pc r (migrator sys) = Some (evs, st', ts)" by simp
    from resumeLoad_fields[OF this] resume(4) assms(3,4) show ?thesis by auto
  qed
qed

text \<open>Once set, a field of the cache changes in no step but the one that resets it.\<close>

lemma step_cache_kept:
  assumes "wellFormed sys" "step w inp sys = Some (evs, sys')"
    and "(preparedDetachedModel (migrator sys) \<noteq> None
            \<and> preparedDetachedModel (migrator sys') \<noteq> preparedDetachedModel (migrator sys))
         \<or> (preparedModelId (migrator sys) \<noteq> None
            \<and> preparedModelId (migrator sys') \<noteq> preparedModelId (migrator sys))"
  shows "(preparedDetachedModel (migrator sys) \<noteq> None \<and> preparedDetachedModel (migrator sys') = None)
         \<or> (preparedModelId (migrator sys) \<noteq> None \<and> preparedModelId (migrator sys') = None)"
  using assms(2)
proof (cases rule: step_cases)
  case (uncaught k evs1 e)
  with assms(3) show ?thesis by auto
next
  case (fire k st' ts)
  from dispatcher_fields[OF fire(3)] fire(4) assms(3) show ?thesis by auto
next
  case (resume n r st' ts)
  from assms(1) resume(2) have tc: "taskConsistent (pending sys ! n) (migrator sys)"
    by (auto elim!: wellFormed_cases)
  show ?thesis
  proof (cases "pending sys ! n")
    case (MigrationTask t am pc)
    with resume(3) obtain evs1 st1 s where
      r: "resumeMigration w t am pc r (migrator sys) = Some (evs1, st1, s)"
      and c: "migrationChain t am (evs1, st1, s) = (evs, st', ts)"
      by auto
    from c have "st' = st1" by (rule migrationChain_state)
    with resumeMigration_fields[OF r] assms(3) resume(4) tc MigrationTask show ?thesis
      by auto
  next
    case ThenTask
    with resume(3) have "thenContinuation w (migrator sys) = (evs, st', ts)"
      by (auto split: if_splits)
    from thenContinuation_fields[OF this] resume(4) assms(3) show ?thesis by auto
  next
    case (LoadTask am mid pc)
    with resume(3) have "resumeLoad w am mid pc r (migrator sys) = Some (evs, st', ts)" by simp
    from resumeLoad_fields[OF this] resume(4) assms(3) show ?thesis by auto
  qed
qed

text \<open>While the cache is set, a suspended attempt is in its finalize phase.\<close>

lemma wellFormed_attempt:
  assumes "wellFormed sys" "MigrationTask t am pc \<in> set (pending sys)"
  shows "(preparedDetachedModel (migrator sys) \<noteq> None \<longrightarrow>
            pc = AwaitVolunteer \<or> pc = AwaitAttach \<or> pc = AwaitFinalize)
         \<and> (preparedModelId (migrator sys) \<noteq> None \<longrightarrow> pc = AwaitVolunteer \<or> pc = AwaitFinalize)
         \<and> (preparedDetachedModel (migrator sys) = None \<longrightarrow>
              pc \<noteq> AwaitVolunteer \<and> pc \<noteq> AwaitAttach \<and> pc \<noteq> AwaitFinalize)"
  using assms(1)
proof (cases rule: wellFormed_cases)
  case halted
  with assms(2) show ?thesis by simp
next
  case (listening l)
  with assms(2) show ?thesis by simp
next
  case (running tk)
  with assms(2) have "cacheAt pc (migrator sys)" by auto
  with running(4) show ?thesis by (cases pc) (auto simp: cacheOrdered_def)
qed

text \<open>The end of an attempt, in the orchestrator.\<close>

lemma step_attempt_ends:
  assumes "wellFormed sys" "step w (Resume n r) sys = Some (evs, sys')"
    and "pending sys ! n = MigrationTask t am pc"
    and "resumeMigration w t am pc r (migrator sys) = Some (evs1, st1, s)"
  shows "evs = (case s of Failed e \<Rightarrow> evs1 @ [ConsoleError e] | _ \<Rightarrow> evs1)
         \<and> sys' = \<lparr>migrator = st1,
                    pending = (case s of Suspended pc' \<Rightarrow> [MigrationTask t am pc']
                               | Returned \<Rightarrow> [ThenTask] | Failed e \<Rightarrow> []),
                    listeners = []\<rparr>"
  using assms(2)
proof (cases rule: step_cases)
  case (resume n' r' st' ts)
  then have n: "n' = n" "r' = r" by auto
  from assms(1) resume(2) n have l: "listeners sys = []" "take n (pending sys) = []"
    "drop (Suc n) (pending sys) = []"
    by (auto elim!: wellFormed_cases)
  from resume(3) n assms(3,4) have c: "migrationChain t am (evs1, st1, s) = (evs, st', ts)"
    by simp
  from resumeMigration_events[OF assms(4)] c resume(4) n l show ?thesis
    by (cases s) (auto simp: migrationChain_def)
qed auto
section \<open>Properties\<close>

subsection \<open>The happy path\<close>

text \<open>The model on the happy path of the specification: constructed while the tool
  collaborates, the orchestrator waits for \<open>migrating\<close>; when the tool fires it, the
  orchestrator prepares (one \<^verbatim>\<open>createDetached\<close>, one \<^verbatim>\<open>importData\<close>), finalizes
  (one \<^verbatim>\<open>finalizeMigration\<close>), loads the successor, swaps it in, emits \<open>migrated\<close>
  and waits on the successor's tool.\<close>

lemma happy_path:
  "newMigrator worldSettled 10 1 ''old'' None
     = Inr ([Once 1 ''migrating'' Dispatcher], waiting)
   \<and> run happyPath waiting
     = Some ([Emit_migrating, SupportsVersion ''v2'', CreateDetached ''v2'',
              LoadExistingPaused ''old'' 7, ExportData 30, Dispose 30, ImportData 20 ''x'',
              VolunteerForMigration 1, Attach (Detached 0 20), FinalizeMigration 1 ''new'',
              CompleteMigrationTask 1, SupportsVersion ''v2'', LoadExisting ''new'',
              Emit_migrated 40 ''new'', Once 2 ''migrating'' Dispatcher],
             \<lparr>migrator = successor, pending = [], listeners = [(2, ''migrating'', Dispatcher)]\<rparr>)"
  by (simp add: scenario_defs accessor_defs model_defs)

text \<open>Stations of the happy path: the attempt awaits \<^verbatim>\<open>importData\<close>, then
  \<^verbatim>\<open>attach()\<close>, then \<^verbatim>\<open>finalizeMigration\<close>; the load awaits
  \<^verbatim>\<open>loadExisting\<close>.\<close>

lemma constructed:
  "newMigrator worldSettled 10 1 ''old'' None
     = Inr ([Once 1 ''migrating'' Dispatcher], waiting)"
  by (simp add: scenario_defs accessor_defs model_defs)

lemma run_importing:
  "run (take 5 happyPath) waiting
     = Some ([Emit_migrating, SupportsVersion ''v2'', CreateDetached ''v2'',
              LoadExistingPaused ''old'' 7, ExportData 30, Dispose 30, ImportData 20 ''x''],
             importing)"
  by (simp add: scenario_defs accessor_defs model_defs)

lemma run_attaching:
  "run (take 7 happyPath) waiting
     = Some ([Emit_migrating, SupportsVersion ''v2'', CreateDetached ''v2'',
              LoadExistingPaused ''old'' 7, ExportData 30, Dispose 30, ImportData 20 ''x'',
              VolunteerForMigration 1, Attach (Detached 0 20)], attaching)"
  by (simp add: scenario_defs accessor_defs model_defs)

lemma run_finalizing:
  "run (take 8 happyPath) waiting
     = Some ([Emit_migrating, SupportsVersion ''v2'', CreateDetached ''v2'',
              LoadExistingPaused ''old'' 7, ExportData 30, Dispose 30, ImportData 20 ''x'',
              VolunteerForMigration 1, Attach (Detached 0 20), FinalizeMigration 1 ''new''],
             finalizing)"
  by (simp add: scenario_defs accessor_defs model_defs)

lemma run_swapping:
  "run (take 11 happyPath) waiting
     = Some ([Emit_migrating, SupportsVersion ''v2'', CreateDetached ''v2'',
              LoadExistingPaused ''old'' 7, ExportData 30, Dispose 30, ImportData 20 ''x'',
              VolunteerForMigration 1, Attach (Detached 0 20), FinalizeMigration 1 ''new'',
              CompleteMigrationTask 1, SupportsVersion ''v2'', LoadExisting ''new''],
             swapping)"
  by (simp add: scenario_defs accessor_defs model_defs)

text \<open>The retry after a disconnect: \<^verbatim>\<open>createDetached\<close>, the export, the import and
  \<^verbatim>\<open>attach\<close> are called once, in the first attempt; the second attempt volunteers and
  finalizes with the id the first one stored.\<close>

lemma retry_path:
  "run retryPath waiting
     = Some ([Emit_migrating, SupportsVersion ''v2'', CreateDetached ''v2'',
              LoadExistingPaused ''old'' 7, ExportData 30, Dispose 30, ImportData 20 ''x'',
              VolunteerForMigration 1, Attach (Detached 0 20),
              Once 1 ''connected'' Dispatcher,
              Emit_migrating, VolunteerForMigration 1, FinalizeMigration 1 ''new''],
             finalizing)"
  by (simp add: scenario_defs accessor_defs model_defs)

lemma run_retrying:
  "run (take 10 retryPath) waiting
     = Some ([Emit_migrating, SupportsVersion ''v2'', CreateDetached ''v2'',
              LoadExistingPaused ''old'' 7, ExportData 30, Dispose 30, ImportData 20 ''x'',
              VolunteerForMigration 1, Attach (Detached 0 20),
              Once 1 ''connected'' Dispatcher,
              Emit_migrating, VolunteerForMigration 1],
             retrying)"
  by (simp add: scenario_defs accessor_defs model_defs)

subsection \<open>The entry points\<close>

text \<open>
  C2, as stated, fails: \<^verbatim>\<open>ensureMigrating\<close> also throws synchronously where no
  protocol is violated. Called while connected, with no attempt and no load in flight and with
  an accepted migration, it emits \<open>migrating\<close> (line 281) before it starts the attempt,
  outside any \<^verbatim>\<open>try\<close> block: when a subscriber of that event throws, the exception
  leaves \<^verbatim>\<open>ensureMigrating\<close>.
\<close>

theorem entry_points_counterexample:
  "connected worldThrowing idle \<and> migrationP idle = None \<and> migratedLoadP idle = None
   \<and> tool_acceptedMigration worldThrowing (currentMigrationTool idle) = Some acceptedV2
   \<and> ensureMigrating worldThrowing idle = Inl ([Emit_migrating], SubscriberError)
   \<and> isl (ensureMigrating worldThrowing idle)
      \<noteq> (connected worldThrowing idle \<and> migrationP idle = None \<and>
          (migratedLoadP idle \<noteq> None \<or>
           tool_acceptedMigration worldThrowing (currentMigrationTool idle) = None))"
  by (simp add: scenario_defs accessor_defs model_defs)

text \<open>
  C2, amended. \<^verbatim>\<open>ensureMigrating\<close> throws synchronously if and only if it is called
  while connected, with no migration attempt in flight, and a post-migration load is in flight,
  or the tool has no accepted migration, or a subscriber of the \<open>migrating\<close> event it
  emits throws; the last is the case exactly when it throws with \<open>migrating\<close> emitted.
  \<^verbatim>\<open>ensureLoading\<close> throws if and only if it is called with no load in flight, and a
  migration attempt is in flight, or the tool has no accepted migration, or the tool has no new
  container id. In every other case neither throws.
\<close>

theorem entry_points_throw_iff:
  "isl (ensureMigrating w st) =
     (connected w st \<and> migrationP st = None \<and>
      (migratedLoadP st \<noteq> None \<or>
       tool_acceptedMigration w (currentMigrationTool st) = None \<or>
       subscriber_throws w Emit_migrating))
   \<and>
   (ensureMigrating w st = Inl ([Emit_migrating], SubscriberError)) =
     (connected w st \<and> migrationP st = None \<and> migratedLoadP st = None \<and>
      tool_acceptedMigration w (currentMigrationTool st) \<noteq> None \<and>
      subscriber_throws w Emit_migrating)
   \<and>
   isl (ensureLoading w' st') =
     (migratedLoadP st' = None \<and>
      (migrationP st' \<noteq> None \<or>
       tool_acceptedMigration w' (currentMigrationTool st') = None \<or>
       tool_newContainerId w' (currentMigrationTool st') = None))"
  by (auto simp: ensureMigrating_def ensureLoading_def Let_def split: option.splits prod.splits)

theorem entry_points_throw_iff_witness:
  "isl (ensureMigrating worldMigrating loading) \<and> isl (ensureLoading worldMigrated migrating)
   \<and> isl (ensureMigrating worldThrowing idle)
   \<and> \<not> isl (ensureMigrating worldMigrating idle) \<and> \<not> isl (ensureLoading worldMigrated idle)
   \<and> \<not> isl (ensureLoading worldThrowing loading)"
  using entry_points_throw_iff [of worldMigrating loading worldMigrated migrating]
        entry_points_throw_iff [of worldThrowing idle worldThrowing loading]
        entry_points_throw_iff [of worldMigrating idle worldMigrated idle]
  by (simp add: scenario_defs accessor_defs)

subsection \<open>The dispatcher\<close>

text \<open>
  C4. For every invocation the dispatcher maps the phase of the current tool to exactly one
  action.
  \<^item> In phase \<open>migrating\<close> it does what \<^verbatim>\<open>ensureMigrating\<close> does, in phase
    \<open>migrated\<close> what \<^verbatim>\<open>ensureLoading\<close> does. In the remaining phase
    \<open>collaborating\<close> it registers its one-time listener for the tool's \<open>migrating\<close>
    event and returns: no other call, no change of the fields, no task started, nothing
    thrown.
  \<^item> So an invocation that returns has done one of these, and nothing else: registered the
    listener for \<open>migrating\<close> (phase \<open>collaborating\<close>); registered the listener for
    \<open>connected\<close> (phase \<open>migrating\<close>, disconnected); nothing (phase \<open>migrating\<close>,
    connected, an attempt in flight; or phase \<open>migrated\<close>, a load in flight); emitted
    \<open>migrating\<close>, set \<^verbatim>\<open>_migrationP\<close> and started a migration attempt, which
    awaits \<^verbatim>\<open>supportsVersion\<close>, or \<^verbatim>\<open>volunteerForMigration\<close> when a prepared
    model is cached (phase \<open>migrating\<close>); set \<^verbatim>\<open>_migratedLoadP\<close> and started a
    load, which awaits \<^verbatim>\<open>supportsVersion\<close> (phase \<open>migrated\<close>).
  \<^item> Exactly one: what only the migration executor does (emitting \<open>migrating\<close>, setting
    \<^verbatim>\<open>_migrationP\<close>, starting a migration attempt, listening for \<open>connected\<close>)
    happens in phase \<open>migrating\<close> only; what only the load executor does (setting
    \<^verbatim>\<open>_migratedLoadP\<close>, starting a load) happens in phase \<open>migrated\<close> only; the
    listener for \<open>migrating\<close> is registered in phase \<open>collaborating\<close> only.
  \<^item> The listener re-invokes the dispatcher: the step in which a tool fires a registered
    listener is an invocation of the dispatcher on the fields and the collaborators as they are
    then, and the listener is gone after it.
\<close>

theorem dispatcher_by_phase:
  "(migrationState w st = Migrating \<longrightarrow>
      takeAppropriateActionForCurrentMigratable w st = ensureMigrating w st)
   \<and> (migrationState w st = Migrated \<longrightarrow>
        takeAppropriateActionForCurrentMigratable w st = ensureLoading w st)
   \<and> (migrationState w st = Collaborating \<longrightarrow>
        takeAppropriateActionForCurrentMigratable w st
          = Inr ([Once (currentMigrationTool st) ''migrating'' Dispatcher], st, []))
   \<and> (takeAppropriateActionForCurrentMigratable w st = Inr (evs, st', ts) \<longrightarrow>
        (migrationState w st = Collaborating
           \<and> evs = [Once (currentMigrationTool st) ''migrating'' Dispatcher]
           \<and> st' = st \<and> ts = [])
        \<or> (migrationState w st = Migrating \<and> \<not> connected w st
           \<and> evs = [Once (currentMigrationTool st) ''connected'' Dispatcher]
           \<and> st' = st \<and> ts = [])
        \<or> (migrationState w st = Migrating \<and> connected w st \<and> migrationP st \<noteq> None
           \<and> evs = [] \<and> st' = st \<and> ts = [])
        \<or> (migrationState w st = Migrated \<and> migratedLoadP st \<noteq> None
           \<and> evs = [] \<and> st' = st \<and> ts = [])
        \<or> (migrationState w st = Migrating \<and> connected w st \<and> quiescent st
           \<and> \<not> subscriber_throws w Emit_migrating
           \<and> (\<exists>am. tool_acceptedMigration w (currentMigrationTool st) = Some am
                 \<and> st' = st\<lparr>migrationP := Some Promise\<rparr>
                 \<and> (if preparedDetachedModel st = None
                     then evs = [Emit_migrating, SupportsVersion (newVersion am)]
                          \<and> ts = [MigrationTask (currentMigrationTool st) am AwaitSupportsVersion]
                     else evs = [Emit_migrating, VolunteerForMigration (currentMigrationTool st)]
                          \<and> ts = [MigrationTask (currentMigrationTool st) am AwaitVolunteer])))
        \<or> (migrationState w st = Migrated \<and> quiescent st
           \<and> (\<exists>am mid. tool_acceptedMigration w (currentMigrationTool st) = Some am
                 \<and> tool_newContainerId w (currentMigrationTool st) = Some mid
                 \<and> evs = [SupportsVersion (newVersion am)]
                 \<and> st' = st\<lparr>migratedLoadP := Some Promise\<rparr>
                 \<and> ts = [LoadTask am mid LoadAwaitSupportsVersion])))
   \<and> (takeAppropriateActionForCurrentMigratable w st = Inr (evs, st', ts) \<longrightarrow>
        (Emit_migrating \<in> set evs \<or> migrationP st' \<noteq> migrationP st
           \<or> (\<exists>t am pc. MigrationTask t am pc \<in> set ts)
           \<or> (\<exists>t. Once t ''connected'' Dispatcher \<in> set evs)
         \<longrightarrow> migrationState w st = Migrating)
        \<and> (migratedLoadP st' \<noteq> migratedLoadP st \<or> (\<exists>am mid pc. LoadTask am mid pc \<in> set ts)
         \<longrightarrow> migrationState w st = Migrated)
        \<and> ((\<exists>t. Once t ''migrating'' Dispatcher \<in> set evs)
         \<longrightarrow> migrationState w st = Collaborating))
   \<and> (takeAppropriateActionForCurrentMigratable w st = Inl (evs0, e0) \<longrightarrow>
        migrationState w st \<noteq> Collaborating)
   \<and> (k < length (listeners sys) \<longrightarrow>
        step w' (Fire k) sys =
          (case takeAppropriateActionForCurrentMigratable w' (migrator sys) of
             Inl (evs, e) \<Rightarrow>
               Some (evs @ [Uncaught e],
                     \<lparr>migrator = migrator sys, pending = pending sys,
                      listeners = take k (listeners sys) @ drop (Suc k) (listeners sys)
                                  @ registrations evs\<rparr>)
           | Inr (evs, st', ts) \<Rightarrow>
               Some (evs,
                     \<lparr>migrator = st', pending = pending sys @ ts,
                      listeners = take k (listeners sys) @ drop (Suc k) (listeners sys)
                                  @ registrations evs\<rparr>)))"
proof (intro conjI impI)
  assume "migrationState w st = Migrating"
  then show "takeAppropriateActionForCurrentMigratable w st = ensureMigrating w st"
    by (simp add: takeAppropriateActionForCurrentMigratable_def migrationState_def)
next
  assume "migrationState w st = Migrated"
  then show "takeAppropriateActionForCurrentMigratable w st = ensureLoading w st"
    by (simp add: takeAppropriateActionForCurrentMigratable_def migrationState_def)
next
  assume "migrationState w st = Collaborating"
  then show "takeAppropriateActionForCurrentMigratable w st
          = Inr ([Once (currentMigrationTool st) ''migrating'' Dispatcher], st, [])"
    by (simp add: takeAppropriateActionForCurrentMigratable_def migrationState_def)
next
  assume "takeAppropriateActionForCurrentMigratable w st = Inr (evs, st', ts)"
  then show "(migrationState w st = Collaborating
           \<and> evs = [Once (currentMigrationTool st) ''migrating'' Dispatcher]
           \<and> st' = st \<and> ts = [])
        \<or> (migrationState w st = Migrating \<and> \<not> connected w st
           \<and> evs = [Once (currentMigrationTool st) ''connected'' Dispatcher]
           \<and> st' = st \<and> ts = [])
        \<or> (migrationState w st = Migrating \<and> connected w st \<and> migrationP st \<noteq> None
           \<and> evs = [] \<and> st' = st \<and> ts = [])
        \<or> (migrationState w st = Migrated \<and> migratedLoadP st \<noteq> None
           \<and> evs = [] \<and> st' = st \<and> ts = [])
        \<or> (migrationState w st = Migrating \<and> connected w st \<and> quiescent st
           \<and> \<not> subscriber_throws w Emit_migrating
           \<and> (\<exists>am. tool_acceptedMigration w (currentMigrationTool st) = Some am
                 \<and> st' = st\<lparr>migrationP := Some Promise\<rparr>
                 \<and> (if preparedDetachedModel st = None
                     then evs = [Emit_migrating, SupportsVersion (newVersion am)]
                          \<and> ts = [MigrationTask (currentMigrationTool st) am AwaitSupportsVersion]
                     else evs = [Emit_migrating, VolunteerForMigration (currentMigrationTool st)]
                          \<and> ts = [MigrationTask (currentMigrationTool st) am AwaitVolunteer])))
        \<or> (migrationState w st = Migrated \<and> quiescent st
           \<and> (\<exists>am mid. tool_acceptedMigration w (currentMigrationTool st) = Some am
                 \<and> tool_newContainerId w (currentMigrationTool st) = Some mid
                 \<and> evs = [SupportsVersion (newVersion am)]
                 \<and> st' = st\<lparr>migratedLoadP := Some Promise\<rparr>
                 \<and> ts = [LoadTask am mid LoadAwaitSupportsVersion]))"
  proof (cases rule: dispatcher_returns)
    case noop
    then show ?thesis by auto
  next
    case (listen name)
    then show ?thesis by auto
  next
    case (migrate am pc)
    then show ?thesis by auto
  next
    case (load am mid)
    then show ?thesis by auto
  qed
next
  assume d: "takeAppropriateActionForCurrentMigratable w st = Inr (evs, st', ts)"
  {
    assume "Emit_migrating \<in> set evs \<or> migrationP st' \<noteq> migrationP st
           \<or> (\<exists>t am pc. MigrationTask t am pc \<in> set ts)
           \<or> (\<exists>t. Once t ''connected'' Dispatcher \<in> set evs)"
    with d show "migrationState w st = Migrating"
      by (cases rule: dispatcher_returns) auto
  next
    assume "migratedLoadP st' \<noteq> migratedLoadP st \<or> (\<exists>am mid pc. LoadTask am mid pc \<in> set ts)"
    with d show "migrationState w st = Migrated"
      by (cases rule: dispatcher_returns) auto
  next
    assume "\<exists>t. Once t ''migrating'' Dispatcher \<in> set evs"
    with d show "migrationState w st = Collaborating"
      by (cases rule: dispatcher_returns) auto
  }
next
  assume "takeAppropriateActionForCurrentMigratable w st = Inl (evs0, e0)"
  from dispatcher_thrown[OF this] show "migrationState w st \<noteq> Collaborating" by simp
next
  assume k: "k < length (listeners sys)"
  obtain t name l where l: "listeners sys ! k = (t, name, l)"
    by (cases "listeners sys ! k") auto
  have "invoke l w' (migrator sys)
          = takeAppropriateActionForCurrentMigratable w' (migrator sys)"
    by (cases l) simp
  with k l show "step w' (Fire k) sys =
          (case takeAppropriateActionForCurrentMigratable w' (migrator sys) of
             Inl (evs, e) \<Rightarrow>
               Some (evs @ [Uncaught e],
                     \<lparr>migrator = migrator sys, pending = pending sys,
                      listeners = take k (listeners sys) @ drop (Suc k) (listeners sys)
                                  @ registrations evs\<rparr>)
           | Inr (evs, st', ts) \<Rightarrow>
               Some (evs,
                     \<lparr>migrator = st', pending = pending sys @ ts,
                      listeners = take k (listeners sys) @ drop (Suc k) (listeners sys)
                                  @ registrations evs\<rparr>))"
    by (auto simp: step_def Let_def split: sum.splits)
qed

theorem dispatcher_by_phase_witness:
  "takeAppropriateActionForCurrentMigratable worldMigrating idle
     = Inr ([Emit_migrating, SupportsVersion ''v2''], migrating,
            [MigrationTask 1 acceptedV2 AwaitSupportsVersion])
   \<and> ensureMigrating worldMigrating idle
     = Inr ([Emit_migrating, SupportsVersion ''v2''], migrating,
            [MigrationTask 1 acceptedV2 AwaitSupportsVersion])
   \<and> takeAppropriateActionForCurrentMigratable worldMigrated idle
     = Inr ([SupportsVersion ''v2''], loading,
            [LoadTask acceptedV2 ''new'' LoadAwaitSupportsVersion])
   \<and> ensureLoading worldMigrated idle
     = Inr ([SupportsVersion ''v2''], loading,
            [LoadTask acceptedV2 ''new'' LoadAwaitSupportsVersion])
   \<and> takeAppropriateActionForCurrentMigratable worldSettled idle
     = Inr ([Once 1 ''migrating'' Dispatcher], idle, [])
   \<and> takeAppropriateActionForCurrentMigratable worldThrowing idle
     = Inl ([Emit_migrating], SubscriberError)
   \<and> step worldMigrating (Fire 0) waiting
     = Some ([Emit_migrating, SupportsVersion ''v2''],
             \<lparr>migrator = migrating, pending = [MigrationTask 1 acceptedV2 AwaitSupportsVersion],
              listeners = []\<rparr>)"
  using dispatcher_by_phase
          [where w = worldMigrating and st = idle
             and evs = "[Emit_migrating, SupportsVersion ''v2'']" and st' = migrating
             and ts = "[MigrationTask 1 acceptedV2 AwaitSupportsVersion]"
             and k = 0 and sys = waiting and w' = worldMigrating]
        dispatcher_by_phase
          [where w = worldMigrated and st = idle
             and evs = "[SupportsVersion ''v2'']" and st' = loading
             and ts = "[LoadTask acceptedV2 ''new'' LoadAwaitSupportsVersion]"
             and k = 0 and sys = waiting and w' = worldMigrating]
        dispatcher_by_phase
          [where w = worldSettled and st = idle
             and evs = "[Once 1 ''migrating'' Dispatcher]" and st' = idle and ts = "[]"
             and k = 0 and sys = waiting and w' = worldMigrating]
        dispatcher_by_phase
          [where w = worldThrowing and st = idle and ?evs0.0 = "[Emit_migrating]"
             and ?e0.0 = SubscriberError and k = 0 and sys = waiting and w' = worldMigrating]
  by (simp add: scenario_defs accessor_defs model_defs)

subsection \<open>The current session\<close>

text \<open>
  C1. Readers of \<^verbatim>\<open>currentModel\<close>, \<^verbatim>\<open>currentMigrationTool\<close> and
  \<^verbatim>\<open>currentModelId\<close> always observe the triple of a single session. The constructor
  sets it to its three arguments. After that, whatever happens to the orchestrator (a
  registered listener is fired, or any suspended task is resumed, in any order and in any state
  of the collaborators and of the subscribers), one step either leaves the triple as it is, or
  is the resumption of
  \<^verbatim>\<open>doTheLoad\<close> at the point where \<^verbatim>\<open>loadExisting(migratedId)\<close> resolves to a
  model and a tool, and then the triple is that model, that tool and \<open>migratedId\<close>, all
  three replaced in the one step.
\<close>

theorem session_triple_consistent:
  "(newMigrator w0 m0 t0 i0 cb = Inr (evs0, sys0) \<longrightarrow> session (migrator sys0) = (m0, t0, i0))
   \<and> (step w inp sys = Some (evs, sys') \<longrightarrow>
        session (migrator sys') = session (migrator sys)
        \<or> (\<exists>n am migratedId m t.
              inp = Resume n (Resolved (PLoaded m t)) \<and> n < length (pending sys)
              \<and> pending sys ! n = LoadTask am migratedId LoadAwaitLoadExisting
              \<and> session (migrator sys') = (m, t, migratedId)))"
proof (intro conjI impI)
  assume "newMigrator w0 m0 t0 i0 cb = Inr (evs0, sys0)"
  then show "session (migrator sys0) = (m0, t0, i0)"
    by (auto simp: newMigrator_def session_def accessor_defs split: sum.splits
          dest!: dispatcher_fields)
next
  assume "step w inp sys = Some (evs, sys')"
  then show "session (migrator sys') = session (migrator sys)
        \<or> (\<exists>n am migratedId m t.
              inp = Resume n (Resolved (PLoaded m t)) \<and> n < length (pending sys)
              \<and> pending sys ! n = LoadTask am migratedId LoadAwaitLoadExisting
              \<and> session (migrator sys') = (m, t, migratedId))"
  proof (cases rule: step_cases)
    case (uncaught k evs1 e)
    then show ?thesis by simp
  next
    case (fire k st' ts)
    then show ?thesis by (auto simp: session_def accessor_defs dest: dispatcher_fields)
  next
    case (resume n r st' ts)
    from resumeTask_fields[OF resume(3)] resume(1,2,4) show ?thesis
      by (auto simp: session_def accessor_defs)
  qed
qed

theorem session_triple_consistent_witness:
  "newMigrator worldMigrating 10 1 ''old'' None
     = Inr ([Emit_migrating, SupportsVersion ''v2''],
            \<lparr>migrator = migrating, pending = [MigrationTask 1 acceptedV2 AwaitSupportsVersion],
             listeners = []\<rparr>)
   \<and> session migrating = (10, 1, ''old'')
   \<and> step worldMigrating (Resume 0 (Resolved (PLoaded 40 2))) loadingNew
     = Some ([Emit_migrated 40 ''new'', Emit_migrating, SupportsVersion ''v2''],
             \<lparr>migrator = migrating\<lparr>currentMigratable :=
                             \<lparr>model = 40, migrationTool = 2, modelId = ''new''\<rparr>\<rparr>,
              pending = [MigrationTask 2 acceptedV2 AwaitSupportsVersion], listeners = []\<rparr>)
   \<and> session (migrating\<lparr>currentMigratable :=
                             \<lparr>model = 40, migrationTool = 2, modelId = ''new''\<rparr>\<rparr>)
     = (40, 2, ''new'')"
  using session_triple_consistent
    [of worldMigrating 10 1 "''old''" None "[Emit_migrating, SupportsVersion ''v2'']"
        "\<lparr>migrator = migrating, pending = [MigrationTask 1 acceptedV2 AwaitSupportsVersion],
          listeners = []\<rparr>"
        worldMigrating "Resume 0 (Resolved (PLoaded 40 2))" loadingNew
        "[Emit_migrated 40 ''new'', Emit_migrating, SupportsVersion ''v2'']"
        "\<lparr>migrator = migrating\<lparr>currentMigratable :=
                             \<lparr>model = 40, migrationTool = 2, modelId = ''new''\<rparr>\<rparr>,
              pending = [MigrationTask 2 acceptedV2 AwaitSupportsVersion], listeners = []\<rparr>"]
  by (simp add: scenario_defs accessor_defs model_defs)

subsection \<open>Disposal\<close>



subsection \<open>Re-entry\<close>

text \<open>
  C8, as stated, fails: \<^verbatim>\<open>ensureMigrating\<close> tests connectivity before it tests whether
  an attempt is in flight. Called while disconnected with a migration attempt in flight it
  registers one more one-time \<open>connected\<close> listener on the tool, so two invocations of the
  dispatcher in immediate succession (two listeners fired one after the other) make two calls
  where one invocation makes one.
\<close>

theorem reentry_counterexample:
  "migrationP migrating \<noteq> None
   \<and> ensureMigrating worldDisconnected migrating
       = Inr ([Once 1 ''connected'' Dispatcher], migrating, [])
   \<and> takeAppropriateActionForCurrentMigratable worldDisconnected migrating
       = Inr ([Once 1 ''connected'' Dispatcher], migrating, [])
   \<and> run [(worldDisconnected, Fire 0)]
          \<lparr>migrator = migrating, pending = [],
           listeners = [(1, ''connected'', Dispatcher), (1, ''connected'', Dispatcher)]\<rparr>
       = Some ([Once 1 ''connected'' Dispatcher],
               \<lparr>migrator = migrating, pending = [],
                listeners = [(1, ''connected'', Dispatcher), (1, ''connected'', Dispatcher)]\<rparr>)
   \<and> run [(worldDisconnected, Fire 0), (worldDisconnected, Fire 0)]
          \<lparr>migrator = migrating, pending = [],
           listeners = [(1, ''connected'', Dispatcher), (1, ''connected'', Dispatcher)]\<rparr>
       = Some ([Once 1 ''connected'' Dispatcher, Once 1 ''connected'' Dispatcher],
               \<lparr>migrator = migrating, pending = [],
                listeners = [(1, ''connected'', Dispatcher), (1, ''connected'', Dispatcher)]\<rparr>)"
  by (simp add: scenario_defs accessor_defs model_defs)

text \<open>
  C8, amended. \<^verbatim>\<open>ensureMigrating\<close> invoked while connected and with a migration attempt
  in flight, and \<^verbatim>\<open>ensureLoading\<close> invoked with a load in flight, return immediately:
  no call, no event, no change of the fields, no task. (While disconnected,
  \<^verbatim>\<open>ensureMigrating\<close> registers a one-time \<open>connected\<close> listener and does nothing
  else, in flight or not.) So when the tool is connected and in phase \<open>migrating\<close> with a
  migration attempt in flight, or in phase \<open>migrated\<close> with a load in flight, an
  invocation of the dispatcher does nothing, and invoking it twice in immediate succession
  (any two registered listeners fired one after the other) does what invoking it once does:
  nothing, but that the listeners fired are gone.
\<close>

theorem reentry_is_noop:
  "(connected w st \<and> migrationP st \<noteq> None \<longrightarrow> ensureMigrating w st = Inr ([], st, []))
   \<and> (\<not> connected w0 st0 \<longrightarrow>
        ensureMigrating w0 st0
          = Inr ([Once (currentMigrationTool st0) ''connected'' Dispatcher], st0, []))
   \<and> (migratedLoadP st' \<noteq> None \<longrightarrow> ensureLoading w' st' = Inr ([], st', []))
   \<and> ((migrationState w'' (migrator sys) = Migrating \<and> connected w'' (migrator sys)
          \<and> migrationP (migrator sys) \<noteq> None)
        \<or> (migrationState w'' (migrator sys) = Migrated \<and> migratedLoadP (migrator sys) \<noteq> None)
       \<longrightarrow> takeAppropriateActionForCurrentMigratable w'' (migrator sys)
             = Inr ([], migrator sys, [])
           \<and> (j < length (listeners sys) \<and> Suc k < length (listeners sys) \<longrightarrow>
                run [(w'', Fire j), (w'', Fire k)] sys
                  = Some ([], sys\<lparr>listeners :=
                                    take k (take j (listeners sys) @ drop (Suc j) (listeners sys))
                                    @ drop (Suc k)
                                        (take j (listeners sys) @ drop (Suc j) (listeners sys))\<rparr>)
                \<and> run [(w'', Fire j)] sys
                  = Some ([], sys\<lparr>listeners :=
                                    take j (listeners sys) @ drop (Suc j) (listeners sys)\<rparr>)))"
proof (intro conjI impI)
  assume "connected w st \<and> migrationP st \<noteq> None"
  then show "ensureMigrating w st = Inr ([], st, [])" by (auto simp: ensureMigrating_def)
next
  assume "\<not> connected w0 st0"
  then show "ensureMigrating w0 st0
          = Inr ([Once (currentMigrationTool st0) ''connected'' Dispatcher], st0, [])"
    by (simp add: ensureMigrating_def)
next
  assume "migratedLoadP st' \<noteq> None"
  then show "ensureLoading w' st' = Inr ([], st', [])" by (auto simp: ensureLoading_def)
next
  assume c: "(migrationState w'' (migrator sys) = Migrating \<and> connected w'' (migrator sys)
          \<and> migrationP (migrator sys) \<noteq> None)
        \<or> (migrationState w'' (migrator sys) = Migrated \<and> migratedLoadP (migrator sys) \<noteq> None)"
  then show d: "takeAppropriateActionForCurrentMigratable w'' (migrator sys)
             = Inr ([], migrator sys, [])"
    by (auto simp: ensureMigrating_def ensureLoading_def migrationState_def
          takeAppropriateActionForCurrentMigratable_def Let_def)
  have i: "invoke l w'' (migrator sys) = Inr ([], migrator sys, [])" for l
    using d by (cases l) simp
  assume jk: "j < length (listeners sys) \<and> Suc k < length (listeners sys)"
  let ?ls = "take j (listeners sys) @ drop (Suc j) (listeners sys)"
  from jk have s1: "step w'' (Fire j) sys = Some ([], sys\<lparr>listeners := ?ls\<rparr>)"
    using i by (auto simp: step_def Let_def split: prod.splits)
  from jk have "k < length ?ls" by auto
  then have s2: "step w'' (Fire k) (sys\<lparr>listeners := ?ls\<rparr>)
                   = Some ([], sys\<lparr>listeners := take k ?ls @ drop (Suc k) ?ls\<rparr>)"
    using i by (auto simp: step_def Let_def split: prod.splits)
  from s1 s2 show "run [(w'', Fire j), (w'', Fire k)] sys
                  = Some ([], sys\<lparr>listeners :=
                                    take k (take j (listeners sys) @ drop (Suc j) (listeners sys))
                                    @ drop (Suc k)
                                        (take j (listeners sys) @ drop (Suc j) (listeners sys))\<rparr>)"
    by simp
  from s1 show "run [(w'', Fire j)] sys
                  = Some ([], sys\<lparr>listeners :=
                                    take j (listeners sys) @ drop (Suc j) (listeners sys)\<rparr>)"
    by simp
qed

theorem reentry_is_noop_witness:
  "ensureMigrating worldMigrating migrating = Inr ([], migrating, [])
   \<and> ensureMigrating worldDisconnected idle = Inr ([Once 1 ''connected'' Dispatcher], idle, [])
   \<and> ensureLoading worldMigrated loading = Inr ([], loading, [])
   \<and> takeAppropriateActionForCurrentMigratable worldMigrating migrating
       = Inr ([], migrating, [])
   \<and> run [(worldMigrating, Fire 1), (worldMigrating, Fire 0)]
         \<lparr>migrator = migrating, pending = [MigrationTask 1 acceptedV2 AwaitVolunteer],
          listeners = [(1, ''connected'', Dispatcher), (1, ''migrating'', Dispatcher)]\<rparr>
       = Some ([], \<lparr>migrator = migrating, pending = [MigrationTask 1 acceptedV2 AwaitVolunteer],
                    listeners = []\<rparr>)
   \<and> run [(worldMigrating, Fire 1)]
         \<lparr>migrator = migrating, pending = [MigrationTask 1 acceptedV2 AwaitVolunteer],
          listeners = [(1, ''connected'', Dispatcher), (1, ''migrating'', Dispatcher)]\<rparr>
       = Some ([], \<lparr>migrator = migrating, pending = [MigrationTask 1 acceptedV2 AwaitVolunteer],
                    listeners = [(1, ''connected'', Dispatcher)]\<rparr>)"
  using reentry_is_noop
    [where w = worldMigrating and st = migrating and ?w0.0 = worldDisconnected and ?st0.0 = idle
       and st' = loading and w' = worldMigrated and w'' = worldMigrating and j = 1 and k = 0
       and sys = "\<lparr>migrator = migrating, pending = [MigrationTask 1 acceptedV2 AwaitVolunteer],
                   listeners = [(1, ''connected'', Dispatcher), (1, ''migrating'', Dispatcher)]\<rparr>"]
  by (simp add: scenario_defs accessor_defs)

subsection \<open>The end of a migration attempt\<close>

text \<open>
  C7, as stated, fails twice. When the loader does not support the new version and the tool
  is still in phase \<open>migrating\<close>, \<^verbatim>\<open>prepareTheMigration\<close> gives up and returns, and
  \<^verbatim>\<open>doTheMigration\<close> goes on to \<^verbatim>\<open>completeTheMigration\<close>, whose first assertion
  fails: the promise rejects, the \<^verbatim>\<open>.then\<close> continuation is skipped and the dispatcher
  is not invoked again (it would have emitted \<open>migrating\<close> and asked
  \<^verbatim>\<open>supportsVersion\<close> again); the orchestrator is left with nothing to wait for. And
  when both phases are over, here because the task assignment was lost after volunteering,
  while the orchestrator is connected and the tool has no new container id, the continuation's
  own assertion fails: the marker stays defined and the dispatcher is not invoked.
\<close>

theorem attempt_end_counterexample:
  "newMigrator worldMigrating 10 1 ''old'' None
     = Inr ([Emit_migrating, SupportsVersion ''v2''],
            \<lparr>migrator = migrating, pending = [MigrationTask 1 acceptedV2 AwaitSupportsVersion],
             listeners = []\<rparr>)
   \<and> run [(worldMigrating, Resume 0 (Resolved (PBool False)))]
         \<lparr>migrator = migrating, pending = [MigrationTask 1 acceptedV2 AwaitSupportsVersion],
          listeners = []\<rparr>
     = Some ([Emit_migrationNotSupported ''v2'', ConsoleError AssertPreparedDetachedModel],
             \<lparr>migrator = idle, pending = [], listeners = []\<rparr>)
   \<and> takeAppropriateActionForCurrentMigratable worldMigrating idle
     = Inr ([Emit_migrating, SupportsVersion ''v2''], migrating,
            [MigrationTask 1 acceptedV2 AwaitSupportsVersion])
   \<and> run [(worldLostTask, Resume 0 (Resolved (PBool True))),
           (worldLostTask, Resume 0 (Resolved PUnit))]
         \<lparr>migrator = attached, pending = [MigrationTask 1 acceptedV2 AwaitVolunteer],
          listeners = []\<rparr>
     = Some ([ConsoleError AssertNewContainerId],
             \<lparr>migrator = attached, pending = [], listeners = []\<rparr>)
   \<and> migrationP attached = Some Promise"
  by (simp add: scenario_defs accessor_defs model_defs)

text \<open>
  C7, amended. When \<^verbatim>\<open>doTheMigration\<close> returns, the \<^verbatim>\<open>.then\<close> continuation is
  queued; in a run of the orchestrator from its construction it is then the one thing left to
  run. When it runs while the orchestrator is connected and the tool has no new container id,
  its assertion fails: the error is logged, every field (also \<^verbatim>\<open>_migrationP\<close>) is left
  as it is and the dispatcher is not invoked. Otherwise it clears \<^verbatim>\<open>_migrationP\<close> and
  invokes the dispatcher on the cleared fields (an error of the dispatcher goes to
  \<^verbatim>\<open>console.error\<close>). When the prepare phase gives up (unsupported version, transform
  failure, no transform strategy), it emits \<open>migrationNotSupported\<close> and then clears
  \<^verbatim>\<open>_migrationP\<close> itself, unless a subscriber of that event throws: then the attempt
  throws with the fields as they were.
\<close>

theorem attempt_end:
  "(resumeMigration w t am pc r st = Some (evs, st', Returned) \<longrightarrow>
      resumeTask w (MigrationTask t am pc) r st = Some (evs, st', [ThenTask]))
   \<and> (newMigrator wc mc tc ic cb = Inr (evsc, sysc) \<and> run script sysc = Some (evsr, sys)
       \<and> n < length (pending sys) \<and> pending sys ! n = MigrationTask t5 am5 pc5
       \<and> resumeMigration w5 t5 am5 pc5 r5 (migrator sys) = Some (evs5, st5, Returned) \<longrightarrow>
        step w5 (Resume n r5) sys
          = Some (evs5, \<lparr>migrator = st5, pending = [ThenTask], listeners = []\<rparr>))
   \<and> (connected w1 st1 \<and> tool_newContainerId w1 (currentMigrationTool st1) = None \<longrightarrow>
        resumeTask w1 ThenTask (Resolved PUnit) st1
          = Some ([ConsoleError AssertNewContainerId], st1, []))
   \<and> (\<not> (connected w1 st1 \<and> tool_newContainerId w1 (currentMigrationTool st1) = None) \<longrightarrow>
        resumeTask w1 ThenTask (Resolved PUnit) st1
          = Some (case takeAppropriateActionForCurrentMigratable w1 (st1\<lparr>migrationP := None\<rparr>) of
                    Inl (evs, e) \<Rightarrow> (evs @ [ConsoleError e], st1\<lparr>migrationP := None\<rparr>, [])
                  | Inr out \<Rightarrow> out))
   \<and> (resumeSupportsVersion w2 am2 (Resolved False) st2 = (evs2, st2', s2) \<longrightarrow>
        Emit_migrationNotSupported (newVersion am2) \<in> set evs2
        \<and> (if subscriber_throws w2 (Emit_migrationNotSupported (newVersion am2))
            then st2' = st2 \<and> s2 = Failed SubscriberError
            else st2' = st2\<lparr>migrationP := None\<rparr>))
   \<and> (resumeTransform w3 am3 d3 Rejected st3 = (evs3, st3', s3) \<longrightarrow>
        Emit_migrationNotSupported (newVersion am3) \<in> set evs3
        \<and> (if subscriber_throws w3 (Emit_migrationNotSupported (newVersion am3))
            then st3' = st3 \<and> s3 = Failed SubscriberError
            else st3' = st3\<lparr>migrationP := None\<rparr>))
   \<and> (\<not> model_supportsDataFormat w4 (detached_model d4) x4
        \<and> dataTransformationCallback st4 = None
        \<and> resumeExportData w4 am4 d4 em4 (Resolved x4) st4 = (evs4, st4', s4) \<longrightarrow>
        Emit_migrationNotSupported (newVersion am4) \<in> set evs4
        \<and> (if subscriber_throws w4 (Emit_migrationNotSupported (newVersion am4))
            then st4' = st4 \<and> s4 = Failed SubscriberError
            else st4' = st4\<lparr>migrationP := None\<rparr>))"
proof -
  have a: "Emit_migrationNotSupported (newVersion am0) \<in> set evs0
        \<and> (if subscriber_throws w0 (Emit_migrationNotSupported (newVersion am0))
            then st0' = st0 \<and> s0 = Failed SubscriberError
            else st0' = st0\<lparr>migrationP := None\<rparr>)"
    if "abandonPrepare w0 am0 st0 = (evs0, st0', s0)" for w0 am0 st0 evs0 st0' s0
    using that
    by (auto simp: abandonPrepare_def split: if_splits prod.splits dest!: afterPrepare_state)
  have 1: "resumeMigration w t am pc r st = Some (evs, st', Returned) \<longrightarrow>
      resumeTask w (MigrationTask t am pc) r st = Some (evs, st', [ThenTask])"
    by (simp add: migrationChain_def)
  have 2: "newMigrator wc mc tc ic cb = Inr (evsc, sysc) \<and> run script sysc = Some (evsr, sys)
       \<and> n < length (pending sys) \<and> pending sys ! n = MigrationTask t5 am5 pc5
       \<and> resumeMigration w5 t5 am5 pc5 r5 (migrator sys) = Some (evs5, st5, Returned) \<longrightarrow>
        step w5 (Resume n r5) sys
          = Some (evs5, \<lparr>migrator = st5, pending = [ThenTask], listeners = []\<rparr>)"
  proof
    assume h: "newMigrator wc mc tc ic cb = Inr (evsc, sysc) \<and> run script sysc = Some (evsr, sys)
       \<and> n < length (pending sys) \<and> pending sys ! n = MigrationTask t5 am5 pc5
       \<and> resumeMigration w5 t5 am5 pc5 r5 (migrator sys) = Some (evs5, st5, Returned)"
    then have wf: "wellFormed sys" using reachable_wf by blast
    from h obtain out where s: "step w5 (Resume n r5) sys = Some out"
      by (auto simp: step_def migrationChain_def)
    obtain evs6 sys6 where "out = (evs6, sys6)" by (cases out) auto
    with s step_attempt_ends[OF wf, of w5 n r5 evs6 sys6 t5 am5 pc5 evs5 st5 Returned] h
    show "step w5 (Resume n r5) sys
          = Some (evs5, \<lparr>migrator = st5, pending = [ThenTask], listeners = []\<rparr>)"
      by simp
  qed
  have 3: "connected w1 st1 \<and> tool_newContainerId w1 (currentMigrationTool st1) = None \<longrightarrow>
        resumeTask w1 ThenTask (Resolved PUnit) st1
          = Some ([ConsoleError AssertNewContainerId], st1, [])"
    by (simp add: thenContinuation_def)
  have 4: "\<not> (connected w1 st1 \<and> tool_newContainerId w1 (currentMigrationTool st1) = None) \<longrightarrow>
        resumeTask w1 ThenTask (Resolved PUnit) st1
          = Some (case takeAppropriateActionForCurrentMigratable w1 (st1\<lparr>migrationP := None\<rparr>) of
                    Inl (evs, e) \<Rightarrow> (evs @ [ConsoleError e], st1\<lparr>migrationP := None\<rparr>, [])
                  | Inr out \<Rightarrow> out)"
    by (auto simp: thenContinuation_def Let_def)
  have 5: "resumeSupportsVersion w2 am2 (Resolved False) st2 = (evs2, st2', s2) \<longrightarrow>
        Emit_migrationNotSupported (newVersion am2) \<in> set evs2
        \<and> (if subscriber_throws w2 (Emit_migrationNotSupported (newVersion am2))
            then st2' = st2 \<and> s2 = Failed SubscriberError
            else st2' = st2\<lparr>migrationP := None\<rparr>)"
    using a[of w2 am2 st2 evs2 st2' s2] by (simp add: resumeSupportsVersion_def)
  have 6: "resumeTransform w3 am3 d3 Rejected st3 = (evs3, st3', s3) \<longrightarrow>
        Emit_migrationNotSupported (newVersion am3) \<in> set evs3
        \<and> (if subscriber_throws w3 (Emit_migrationNotSupported (newVersion am3))
            then st3' = st3 \<and> s3 = Failed SubscriberError
            else st3' = st3\<lparr>migrationP := None\<rparr>)"
    using a[of w3 am3 st3 evs3 st3' s3] by (simp add: resumeTransform_def)
  have 7: "\<not> model_supportsDataFormat w4 (detached_model d4) x4
        \<and> dataTransformationCallback st4 = None
        \<and> resumeExportData w4 am4 d4 em4 (Resolved x4) st4 = (evs4, st4', s4) \<longrightarrow>
        Emit_migrationNotSupported (newVersion am4) \<in> set evs4
        \<and> (if subscriber_throws w4 (Emit_migrationNotSupported (newVersion am4))
            then st4' = st4 \<and> s4 = Failed SubscriberError
            else st4' = st4\<lparr>migrationP := None\<rparr>)"
  proof
    assume h: "\<not> model_supportsDataFormat w4 (detached_model d4) x4
        \<and> dataTransformationCallback st4 = None
        \<and> resumeExportData w4 am4 d4 em4 (Resolved x4) st4 = (evs4, st4', s4)"
    obtain evs0 st0 s0 where b: "abandonPrepare w4 am4 st4 = (evs0, st0, s0)"
      by (cases "abandonPrepare w4 am4 st4") auto
    with h have "evs4 = Dispose em4 # evs0" "st4' = st0" "s4 = s0"
      by (auto simp: resumeExportData_def Let_def)
    with a[OF b] show "Emit_migrationNotSupported (newVersion am4) \<in> set evs4
        \<and> (if subscriber_throws w4 (Emit_migrationNotSupported (newVersion am4))
            then st4' = st4 \<and> s4 = Failed SubscriberError
            else st4' = st4\<lparr>migrationP := None\<rparr>)"
      by auto
  qed
  from 1 2 3 4 5 6 7 show ?thesis by blast
qed

theorem attempt_end_witness:
  "resumeTask worldLostTask (MigrationTask 1 acceptedV2 AwaitVolunteer) (Resolved (PBool True)) attached
     = Some ([], attached, [ThenTask])
   \<and> step worldMigrated (Resume 0 (Resolved PUnit)) finalizing
     = Some ([CompleteMigrationTask 1],
             \<lparr>migrator = attached, pending = [ThenTask], listeners = []\<rparr>)
   \<and> resumeTask worldLostTask ThenTask (Resolved PUnit) attached
     = Some ([ConsoleError AssertNewContainerId], attached, [])
   \<and> resumeTask worldMigrated ThenTask (Resolved PUnit) attached
     = Some ([SupportsVersion ''v2''],
             attached\<lparr>migrationP := None, migratedLoadP := Some Promise\<rparr>,
             [LoadTask acceptedV2 ''new'' LoadAwaitSupportsVersion])
   \<and> resumeSupportsVersion worldMigrating acceptedV2 (Resolved False) migrating
     = ([Emit_migrationNotSupported ''v2''], idle, Failed AssertPreparedDetachedModel)
   \<and> resumeSupportsVersion worldThrowing acceptedV2 (Resolved False) migrating
     = ([Emit_migrationNotSupported ''v2''], migrating, Failed SubscriberError)
   \<and> resumeTransform worldMigrated acceptedV2 (Detached 0 20) Rejected migrating
     = ([Emit_migrationNotSupported ''v2''], idle, Returned)
   \<and> resumeExportData worldForeignFormat acceptedV2 (Detached 0 20) 30 (Resolved ''x'') migrating
     = ([Dispose 30, Emit_migrationNotSupported ''v2''], idle, Failed AssertPreparedDetachedModel)
   \<and> migrationP idle = None \<and> migrationP migrating = Some Promise"
  using attempt_end
    [where w = worldLostTask and t = 1 and am = acceptedV2 and pc = AwaitVolunteer
       and r = "Resolved (PBool True)" and st = attached and evs = "[]" and st' = attached
       and wc = worldSettled and mc = 10 and tc = 1 and ic = "''old''" and cb = None
       and evsc = "[Once 1 ''migrating'' Dispatcher]" and sysc = waiting
       and script = "take 8 happyPath"
       and evsr = "[Emit_migrating, SupportsVersion ''v2'', CreateDetached ''v2'',
              LoadExistingPaused ''old'' 7, ExportData 30, Dispose 30, ImportData 20 ''x'',
              VolunteerForMigration 1, Attach (Detached 0 20), FinalizeMigration 1 ''new'']"
       and sys = finalizing and n = 0 and ?t5.0 = 1 and ?am5.0 = acceptedV2
       and ?pc5.0 = AwaitFinalize and ?w5.0 = worldMigrated and ?r5.0 = "Resolved PUnit"
       and ?evs5.0 = "[CompleteMigrationTask 1]" and ?st5.0 = attached
       and ?w1.0 = worldLostTask and ?st1.0 = attached
       and ?w2.0 = worldMigrating and ?am2.0 = acceptedV2 and ?st2.0 = migrating
       and ?evs2.0 = "[Emit_migrationNotSupported ''v2'']" and st2' = idle
       and ?s2.0 = "Failed AssertPreparedDetachedModel"
       and ?w3.0 = worldMigrated and ?am3.0 = acceptedV2 and ?d3.0 = "Detached 0 20"
       and ?st3.0 = migrating and ?evs3.0 = "[Emit_migrationNotSupported ''v2'']" and st3' = idle
       and ?s3.0 = Returned
       and ?w4.0 = worldForeignFormat and ?d4.0 = "Detached 0 20" and ?x4.0 = "''x''"
       and ?st4.0 = migrating and ?am4.0 = acceptedV2 and ?em4.0 = 30
       and ?evs4.0 = "[Dispose 30, Emit_migrationNotSupported ''v2'']" and st4' = idle
       and ?s4.0 = "Failed AssertPreparedDetachedModel"]
    attempt_end
    [where ?w1.0 = worldMigrated and ?st1.0 = attached
       and ?w2.0 = worldThrowing and ?am2.0 = acceptedV2 and ?st2.0 = migrating
       and ?evs2.0 = "[Emit_migrationNotSupported ''v2'']" and st2' = migrating
       and ?s2.0 = "Failed SubscriberError"]
    constructed run_finalizing
  by (simp add: scenario_defs accessor_defs model_defs del: take_Suc_Cons)

subsection \<open>A rejected attempt\<close>

text \<open>
  C10, as stated, fails at its own example. After a prepare phase that gave up, the assertion
  of \<^verbatim>\<open>completeTheMigration\<close> fails and the promise rejects, but the prepare phase has
  already cleared \<^verbatim>\<open>_migrationP\<close>: it does not remain defined, and the next
  \<^verbatim>\<open>ensureMigrating\<close> is no no-op, it starts a new attempt. And where the marker does
  remain defined, \<^verbatim>\<open>ensureMigrating\<close> invoked while disconnected still registers a
  \<open>connected\<close> listener.
\<close>

theorem rejection_counterexample:
  "resumeTask worldMigrating (MigrationTask 1 acceptedV2 AwaitSupportsVersion)
       (Resolved (PBool False)) migrating
     = Some ([Emit_migrationNotSupported ''v2'', ConsoleError AssertPreparedDetachedModel], idle, [])
   \<and> migrationP idle = None
   \<and> ensureMigrating worldMigrating idle
     = Inr ([Emit_migrating, SupportsVersion ''v2''], migrating,
            [MigrationTask 1 acceptedV2 AwaitSupportsVersion])
   \<and> migrationP prepared = Some Promise
   \<and> ensureMigrating worldDisconnected prepared
     = Inr ([Once 1 ''connected'' Dispatcher], prepared, [])"
  by (simp add: scenario_defs accessor_defs model_defs)

text \<open>
  C10, amended. When a resumed \<^verbatim>\<open>doTheMigration\<close> throws, the error goes to
  \<^verbatim>\<open>console.error\<close> and nowhere else, no continuation is queued, and
  \<^verbatim>\<open>_migrationP\<close> is as it was before the step, unless the prepare phase gave up in this
  step (it emitted \<open>migrationNotSupported\<close>) and cleared it. The assertion of the
  \<^verbatim>\<open>.then\<close> continuation leaves all fields as they were. With \<^verbatim>\<open>_migrationP\<close>
  defined, \<^verbatim>\<open>ensureMigrating\<close> while connected is a no-op. And in every run of the
  orchestrator from its construction, a step that logs a rejection leaves no task suspended and
  no listener registered: no further step is possible, so the orchestrator stays as that step
  left it, \<^verbatim>\<open>_migrationP\<close> included.
\<close>

theorem rejection_leaves_marker:
  "(resumeMigration w t am pc r st = Some (evs, st', Failed e) \<longrightarrow>
      resumeTask w (MigrationTask t am pc) r st = Some (evs @ [ConsoleError e], st', [])
      \<and> (\<forall>x. Uncaught x \<notin> set evs)
      \<and> (migrationP st' = migrationP st
          \<or> (migrationP st' = None \<and> Emit_migrationNotSupported (newVersion am) \<in> set evs)))
   \<and> (connected w1 st1 \<and> tool_newContainerId w1 (currentMigrationTool st1) = None \<longrightarrow>
        resumeTask w1 ThenTask (Resolved PUnit) st1
          = Some ([ConsoleError AssertNewContainerId], st1, []))
   \<and> (connected w2 st2 \<and> migrationP st2 \<noteq> None \<longrightarrow> ensureMigrating w2 st2 = Inr ([], st2, []))
   \<and> (newMigrator wc mc tc ic cb = Inr (evsc, sysc) \<and> run script sysc = Some (evsr, sys)
        \<and> step w3 inp sys = Some (evs3, sys3) \<and> list_ex isConsoleError evs3 \<longrightarrow>
        pending sys3 = [] \<and> listeners sys3 = []
        \<and> (\<forall>w' inp'. step w' inp' sys3 = None)
        \<and> (\<forall>script' evs' sys'. run script' sys3 = Some (evs', sys') \<longrightarrow>
              script' = [] \<and> evs' = [] \<and> sys' = sys3))"
proof (intro conjI impI)
  assume a: "resumeMigration w t am pc r st = Some (evs, st', Failed e)"
  then show "resumeTask w (MigrationTask t am pc) r st = Some (evs @ [ConsoleError e], st', [])"
    by (simp add: migrationChain_def)
  from resumeMigration_events[OF a] show "\<forall>x. Uncaught x \<notin> set evs" by simp
  from resumeMigration_fields[OF a]
  show "migrationP st' = migrationP st
          \<or> (migrationP st' = None \<and> Emit_migrationNotSupported (newVersion am) \<in> set evs)"
    by blast
next
  assume "connected w1 st1 \<and> tool_newContainerId w1 (currentMigrationTool st1) = None"
  then show "resumeTask w1 ThenTask (Resolved PUnit) st1
          = Some ([ConsoleError AssertNewContainerId], st1, [])"
    by (simp add: thenContinuation_def)
next
  assume "connected w2 st2 \<and> migrationP st2 \<noteq> None"
  then show "ensureMigrating w2 st2 = Inr ([], st2, [])"
    by (auto simp: ensureMigrating_def)
next
  assume a: "newMigrator wc mc tc ic cb = Inr (evsc, sysc) \<and> run script sysc = Some (evsr, sys)
        \<and> step w3 inp sys = Some (evs3, sys3) \<and> list_ex isConsoleError evs3"
  then have "wellFormed sys" using reachable_wf by blast
  with a have h: "halted sys3" using step_error_halts by blast
  then show "pending sys3 = []" "listeners sys3 = []" by (simp_all add: halted_def)
  from h show "\<forall>w' inp'. step w' inp' sys3 = None" by (simp add: halted_step)
  from h show "\<forall>script' evs' sys'. run script' sys3 = Some (evs', sys') \<longrightarrow>
              script' = [] \<and> evs' = [] \<and> sys' = sys3"
    using halted_run by blast
qed

theorem rejection_leaves_marker_witness:
  "resumeMigration worldMigrating 1 acceptedV2 AwaitVolunteer (Resolved (PBool False)) prepared
     = Some ([], prepared, Failed AssertAssigned)
   \<and> resumeTask worldMigrating (MigrationTask 1 acceptedV2 AwaitVolunteer) (Resolved (PBool False))
        prepared
     = Some ([ConsoleError AssertAssigned], prepared, [])
   \<and> migrationP prepared = Some Promise
   \<and> resumeTask worldMigrating ThenTask (Resolved PUnit) attached
     = Some ([ConsoleError AssertNewContainerId], attached, [])
   \<and> ensureMigrating worldMigrating prepared = Inr ([], prepared, [])
   \<and> step worldMigrating (Resume 0 Rejected) finalizing
     = Some ([ConsoleError ExternalRejection],
             \<lparr>migrator = attached, pending = [], listeners = []\<rparr>)
   \<and> migrationP attached = Some Promise
   \<and> step worldMigrating (Fire 0) \<lparr>migrator = attached, pending = [], listeners = []\<rparr> = None
   \<and> step worldMigrating (Resume 0 (Resolved PUnit))
        \<lparr>migrator = attached, pending = [], listeners = []\<rparr> = None"
  using rejection_leaves_marker
    [where w = worldMigrating and t = 1 and am = acceptedV2 and pc = AwaitVolunteer
       and r = "Resolved (PBool False)" and st = prepared and evs = "[]" and st' = prepared
       and e = AssertAssigned and ?w1.0 = worldMigrating and ?st1.0 = attached
       and ?w2.0 = worldMigrating and ?st2.0 = prepared
       and wc = worldSettled and mc = 10 and tc = 1 and ic = "''old''" and cb = None
       and evsc = "[Once 1 ''migrating'' Dispatcher]" and sysc = waiting
       and script = "take 8 happyPath"
       and evsr = "[Emit_migrating, SupportsVersion ''v2'', CreateDetached ''v2'',
              LoadExistingPaused ''old'' 7, ExportData 30, Dispose 30, ImportData 20 ''x'',
              VolunteerForMigration 1, Attach (Detached 0 20), FinalizeMigration 1 ''new'']"
       and sys = finalizing and ?w3.0 = worldMigrating and inp = "Resume 0 Rejected"
       and ?evs3.0 = "[ConsoleError ExternalRejection]"
       and ?sys3.0 = "\<lparr>migrator = attached, pending = [], listeners = []\<rparr>"]
    constructed run_finalizing
  by (simp add: scenario_defs accessor_defs model_defs isConsoleError_def del: take_Suc_Cons)

subsection \<open>Recoverable conditions of the prepare phase\<close>

text \<open>
  C6. Take a migration attempt that enters its prepare phase (no prepared model is cached),
  whatever the collaborators and the subscribers do and however the script goes on. If
  \<^verbatim>\<open>supportsVersion(newVersion)\<close> resolves to false, or if the exported data is not
  natively supported and there is no transform callback, or if it is not natively supported and
  the callback throws, then the attempt emits \<open>migrationNotSupported(newVersion)\<close> exactly
  once and no other \<open>migrationNotSupported\<close>. In the first case \<^verbatim>\<open>createDetached\<close> is
  never called, in the other two \<^verbatim>\<open>importData\<close> is never called, and in all three
  \<^verbatim>\<open>currentModelId\<close> is what it was.
\<close>

theorem recoverable_conditions:
  "(preparedDetachedModel st = None
    \<and> migrationAttempt w0 am ((w1, Resolved (PBool False)) # rest) st = Some (evs, st', s) \<longrightarrow>
      filter isNotSupported evs = [Emit_migrationNotSupported (newVersion am)]
      \<and> (\<forall>v. CreateDetached v \<notin> set evs)
      \<and> currentModelId st' = currentModelId st)
   \<and> (preparedDetachedModel st = None \<and> dataTransformationCallback st = None
       \<and> \<not> model_supportsDataFormat w4 (detached_model d) x
       \<and> migrationAttempt w0 am
           ((w1, Resolved (PBool True)) # (w2, Resolved (PDetached d)) # (w3, Resolved (PModel em))
            # (w4, Resolved (PData x)) # rest) st = Some (evs, st', s) \<longrightarrow>
      filter isNotSupported evs = [Emit_migrationNotSupported (newVersion am)]
      \<and> (\<forall>m y. ImportData m y \<notin> set evs)
      \<and> currentModelId st' = currentModelId st)
   \<and> (preparedDetachedModel st = None \<and> dataTransformationCallback st \<noteq> None
       \<and> \<not> model_supportsDataFormat w4 (detached_model d) x
       \<and> migrationAttempt w0 am
           ((w1, Resolved (PBool True)) # (w2, Resolved (PDetached d)) # (w3, Resolved (PModel em))
            # (w4, Resolved (PData x)) # (w5, Rejected) # rest) st = Some (evs, st', s) \<longrightarrow>
      filter isNotSupported evs = [Emit_migrationNotSupported (newVersion am)]
      \<and> (\<forall>m y. ImportData m y \<notin> set evs)
      \<and> currentModelId st' = currentModelId st)"
proof (intro conjI impI)
  assume "preparedDetachedModel st = None
    \<and> migrationAttempt w0 am ((w1, Resolved (PBool False)) # rest) st = Some (evs, st', s)"
  then have *: "evs = [SupportsVersion (newVersion am), Emit_migrationNotSupported (newVersion am)]
         \<and> (st' = st\<lparr>migrationP := None\<rparr> \<or> st' = st)"
    using unsupported_version_attempt by blast
  from * show "filter isNotSupported evs = [Emit_migrationNotSupported (newVersion am)]"
    by (simp add: isNotSupported_def)
  from * show "\<forall>v. CreateDetached v \<notin> set evs" by simp
  from * show "currentModelId st' = currentModelId st" by (auto simp: currentModelId_def)
next
  assume "preparedDetachedModel st = None \<and> dataTransformationCallback st = None
       \<and> \<not> model_supportsDataFormat w4 (detached_model d) x
       \<and> migrationAttempt w0 am
           ((w1, Resolved (PBool True)) # (w2, Resolved (PDetached d)) # (w3, Resolved (PModel em))
            # (w4, Resolved (PData x)) # rest) st = Some (evs, st', s)"
  then have *: "evs = [SupportsVersion (newVersion am), CreateDetached (newVersion am),
                LoadExistingPaused (currentModelId st) (migrationSequenceNumber am),
                ExportData em, Dispose em, Emit_migrationNotSupported (newVersion am)]
         \<and> (st' = st\<lparr>migrationP := None\<rparr> \<or> st' = st)"
    using no_strategy_attempt by blast
  from * show "filter isNotSupported evs = [Emit_migrationNotSupported (newVersion am)]"
    by (simp add: isNotSupported_def)
  from * show "\<forall>m y. ImportData m y \<notin> set evs" by simp
  from * show "currentModelId st' = currentModelId st" by (auto simp: currentModelId_def)
next
  assume "preparedDetachedModel st = None \<and> dataTransformationCallback st \<noteq> None
       \<and> \<not> model_supportsDataFormat w4 (detached_model d) x
       \<and> migrationAttempt w0 am
           ((w1, Resolved (PBool True)) # (w2, Resolved (PDetached d)) # (w3, Resolved (PModel em))
            # (w4, Resolved (PData x)) # (w5, Rejected) # rest) st = Some (evs, st', s)"
  then have *: "evs = [SupportsVersion (newVersion am), CreateDetached (newVersion am),
                LoadExistingPaused (currentModelId st) (migrationSequenceNumber am),
                ExportData em, Dispose em, Transform x (model_version w4 (detached_model d)),
                Emit_migrationNotSupported (newVersion am)]
         \<and> (st' = st\<lparr>migrationP := None\<rparr> \<or> st' = st)"
    using failed_transform_attempt by blast
  from * show "filter isNotSupported evs = [Emit_migrationNotSupported (newVersion am)]"
    by (simp add: isNotSupported_def)
  from * show "\<forall>m y. ImportData m y \<notin> set evs" by simp
  from * show "currentModelId st' = currentModelId st" by (auto simp: currentModelId_def)
qed

theorem recoverable_conditions_witness:
  "migrationAttempt worldMigrating acceptedV2 [(worldMigrating, Resolved (PBool False))] idle
     = Some ([SupportsVersion ''v2'', Emit_migrationNotSupported ''v2''], idle,
             Failed AssertPreparedDetachedModel)
   \<and> migrationAttempt worldMigrating acceptedV2 [(worldThrowing, Resolved (PBool False))] migrating
     = Some ([SupportsVersion ''v2'', Emit_migrationNotSupported ''v2''], migrating,
             Failed SubscriberError)
   \<and> migrationAttempt worldMigrating acceptedV2
       [(worldMigrating, Resolved (PBool True)), (worldMigrating, Resolved (PDetached (Detached 0 20))),
        (worldMigrating, Resolved (PModel 30)), (worldForeignFormat, Resolved (PData ''x''))] idle
     = Some ([SupportsVersion ''v2'', CreateDetached ''v2'', LoadExistingPaused ''old'' 7,
              ExportData 30, Dispose 30, Emit_migrationNotSupported ''v2''], idle,
             Failed AssertPreparedDetachedModel)
   \<and> migrationAttempt worldMigrating acceptedV2
       [(worldMigrating, Resolved (PBool True)), (worldMigrating, Resolved (PDetached (Detached 0 20))),
        (worldMigrating, Resolved (PModel 30)), (worldForeignFormat, Resolved (PData ''x'')),
        (worldMigrating, Rejected)]
       (idle\<lparr>dataTransformationCallback := Some DataTransformationCallback\<rparr>)
     = Some ([SupportsVersion ''v2'', CreateDetached ''v2'', LoadExistingPaused ''old'' 7,
              ExportData 30, Dispose 30, Transform ''x'' ''v2'', Emit_migrationNotSupported ''v2''],
             idle\<lparr>dataTransformationCallback := Some DataTransformationCallback\<rparr>,
             Failed AssertPreparedDetachedModel)
   \<and> filter isNotSupported
        [SupportsVersion ''v2'', CreateDetached ''v2'', LoadExistingPaused ''old'' 7,
         ExportData 30, Dispose 30, Transform ''x'' ''v2'', Emit_migrationNotSupported ''v2'']
      = [Emit_migrationNotSupported ''v2'']
   \<and> currentModelId idle = ''old''"
  using recoverable_conditions
    [where st = idle and ?w0.0 = worldMigrating and am = acceptedV2 and ?w1.0 = worldMigrating
       and rest = "[]"
       and evs = "[SupportsVersion ''v2'', Emit_migrationNotSupported ''v2'']"
       and st' = idle and s = "Failed AssertPreparedDetachedModel"]
    recoverable_conditions
    [where st = migrating and ?w0.0 = worldMigrating and am = acceptedV2 and ?w1.0 = worldThrowing
       and rest = "[]"
       and evs = "[SupportsVersion ''v2'', Emit_migrationNotSupported ''v2'']"
       and st' = migrating and s = "Failed SubscriberError"]
    recoverable_conditions
    [where st = idle and ?w0.0 = worldMigrating and am = acceptedV2 and ?w1.0 = worldMigrating
       and ?w2.0 = worldMigrating and ?w3.0 = worldMigrating and ?w4.0 = worldForeignFormat
       and d = "Detached 0 20" and em = 30 and x = "''x''" and rest = "[]"
       and evs = "[SupportsVersion ''v2'', CreateDetached ''v2'', LoadExistingPaused ''old'' 7,
              ExportData 30, Dispose 30, Emit_migrationNotSupported ''v2'']"
       and st' = idle and s = "Failed AssertPreparedDetachedModel"]
    recoverable_conditions
    [where st = "idle\<lparr>dataTransformationCallback := Some DataTransformationCallback\<rparr>"
       and ?w0.0 = worldMigrating and am = acceptedV2 and ?w1.0 = worldMigrating
       and ?w2.0 = worldMigrating and ?w3.0 = worldMigrating and ?w4.0 = worldForeignFormat
       and ?w5.0 = worldMigrating
       and d = "Detached 0 20" and em = 30 and x = "''x''" and rest = "[]"
       and evs = "[SupportsVersion ''v2'', CreateDetached ''v2'', LoadExistingPaused ''old'' 7,
              ExportData 30, Dispose 30, Transform ''x'' ''v2'', Emit_migrationNotSupported ''v2'']"
       and st' = "idle\<lparr>dataTransformationCallback := Some DataTransformationCallback\<rparr>"
       and s = "Failed AssertPreparedDetachedModel"]
  by (simp add: scenario_defs accessor_defs model_defs isNotSupported_def)

subsection \<open>The finalize phase\<close>

text \<open>
  C5, as stated, fails: all the conditions can hold, \<^verbatim>\<open>finalizeMigration\<close> be called
  with the prepared id, and \<^verbatim>\<open>completeMigrationTask()\<close> never be called, because the call
  stands after the \<^verbatim>\<open>await\<close> of \<^verbatim>\<open>finalizeMigration\<close>, which here rejects.
\<close>

theorem finalize_counterexample:
  "finalizeConditions
      [(worldMigrating, Resolved (PBool True)), (worldMigrating, Resolved (PId ''new'')),
       (worldMigrating, Rejected)] prepared
   \<and> finalizePhase 1 acceptedV2
      [(worldMigrating, Resolved (PBool True)), (worldMigrating, Resolved (PId ''new'')),
       (worldMigrating, Rejected)] prepared
     = Some ([VolunteerForMigration 1, Attach (Detached 0 20), FinalizeMigration 1 ''new''],
             attached, Failed ExternalRejection)
   \<and> CompleteMigrationTask 1
       \<notin> set [VolunteerForMigration 1, Attach (Detached 0 20), FinalizeMigration 1 ''new'']"
  by (simp add: scenario_defs accessor_defs model_defs finalizePhase_def finalizeConditions_def)

text \<open>
  C5, amended. In the finalize phase (a prepared model is cached), along any script:
  \<^verbatim>\<open>finalizeMigration\<close> is called if and only if the conditions hold, in their order,
  and then it is called with \<^verbatim>\<open>_preparedModelId\<close>; \<^verbatim>\<open>completeMigrationTask()\<close> is
  called if and only if the conditions hold and the awaited \<^verbatim>\<open>finalizeMigration\<close>
  resolves, and then it is the call right after \<^verbatim>\<open>finalizeMigration\<close>, the last of the
  attempt. If \<^verbatim>\<open>volunteerForMigration\<close> throws, the attempt has made no other call and
  changed no field; it returns when the orchestrator is disconnected (its assertion fails
  otherwise). If the tool already has a new container id when \<^verbatim>\<open>volunteerForMigration\<close>
  resolves, the attempt returns with no call of \<^verbatim>\<open>attach\<close> or
  \<^verbatim>\<open>finalizeMigration\<close>.
\<close>

theorem finalize_phase:
  "preparedDetachedModel st \<noteq> None \<and> finalizePhase t am script st = Some (evs, st', s) \<longrightarrow>
     ((\<exists>pid. FinalizeMigration t pid \<in> set evs) = finalizeConditions script st)
     \<and> (finalizeConditions script st \<longrightarrow>
          (\<exists>pid. preparedModelId st' = Some pid \<and> FinalizeMigration t pid \<in> set evs))
     \<and> ((CompleteMigrationTask (currentMigrationTool st) \<in> set evs)
          = (finalizeConditions script st \<and> finalizeSettles script st))
     \<and> (CompleteMigrationTask (currentMigrationTool st) \<in> set evs \<longrightarrow>
          (\<exists>pre pid. evs = pre @ [FinalizeMigration t pid,
                                    CompleteMigrationTask (currentMigrationTool st)]))
     \<and> (\<forall>w1 rest. script = (w1, Rejected) # rest \<longrightarrow>
          evs = [VolunteerForMigration (currentMigrationTool st)] \<and> st' = st
          \<and> s = (if connected w1 st then Failed AssertDisconnected else Returned))
     \<and> (\<forall>w1 b rest. script = (w1, Resolved (PBool b)) # rest
            \<and> tool_newContainerId w1 (currentMigrationTool st) \<noteq> None \<longrightarrow>
          evs = [VolunteerForMigration (currentMigrationTool st)] \<and> st' = st \<and> s = Returned)"
proof (intro impI)
  assume "preparedDetachedModel st \<noteq> None \<and> finalizePhase t am script st = Some (evs, st', s)"
  then obtain d where d: "preparedDetachedModel st = Some d"
    and r: "finalizePhase t am script st = Some (evs, st', s)" by auto
  show "((\<exists>pid. FinalizeMigration t pid \<in> set evs) = finalizeConditions script st)
     \<and> (finalizeConditions script st \<longrightarrow>
          (\<exists>pid. preparedModelId st' = Some pid \<and> FinalizeMigration t pid \<in> set evs))
     \<and> ((CompleteMigrationTask (currentMigrationTool st) \<in> set evs)
          = (finalizeConditions script st \<and> finalizeSettles script st))
     \<and> (CompleteMigrationTask (currentMigrationTool st) \<in> set evs \<longrightarrow>
          (\<exists>pre pid. evs = pre @ [FinalizeMigration t pid,
                                    CompleteMigrationTask (currentMigrationTool st)]))
     \<and> (\<forall>w1 rest. script = (w1, Rejected) # rest \<longrightarrow>
          evs = [VolunteerForMigration (currentMigrationTool st)] \<and> st' = st
          \<and> s = (if connected w1 st then Failed AssertDisconnected else Returned))
     \<and> (\<forall>w1 b rest. script = (w1, Resolved (PBool b)) # rest
            \<and> tool_newContainerId w1 (currentMigrationTool st) \<noteq> None \<longrightarrow>
          evs = [VolunteerForMigration (currentMigrationTool st)] \<and> st' = st \<and> s = Returned)"
    using finalize_called_iff[OF d r] finalize_called_with_id[OF d r]
      complete_called_iff[OF d r] complete_follows_finalize[OF d r]
      volunteer_throws[OF d] already_finalized[OF d] r
    by (intro conjI impI allI) blast+
qed

theorem finalize_phase_witness:
  "finalizePhase 1 acceptedV2
      [(worldMigrating, Resolved (PBool True)), (worldMigrating, Resolved (PId ''new'')),
       (worldMigrating, Resolved PUnit)] prepared
     = Some ([VolunteerForMigration 1, Attach (Detached 0 20), FinalizeMigration 1 ''new'',
              CompleteMigrationTask 1], attached, Returned)
   \<and> finalizeConditions
      [(worldMigrating, Resolved (PBool True)), (worldMigrating, Resolved (PId ''new'')),
       (worldMigrating, Resolved PUnit)] prepared
   \<and> finalizeSettles
      [(worldMigrating, Resolved (PBool True)), (worldMigrating, Resolved (PId ''new'')),
       (worldMigrating, Resolved PUnit)] prepared
   \<and> finalizePhase 1 acceptedV2 [(worldDisconnected, Rejected)] prepared
     = Some ([VolunteerForMigration 1], prepared, Returned)
   \<and> finalizePhase 1 acceptedV2 [(worldMigrated, Resolved (PBool True))] prepared
     = Some ([VolunteerForMigration 1], prepared, Returned)"
  using finalize_phase
    [where st = prepared and t = 1 and am = acceptedV2
       and script = "[(worldMigrating, Resolved (PBool True)), (worldMigrating, Resolved (PId ''new'')),
                      (worldMigrating, Resolved PUnit)]"
       and evs = "[VolunteerForMigration 1, Attach (Detached 0 20), FinalizeMigration 1 ''new'',
                   CompleteMigrationTask 1]"
       and st' = attached and s = Returned]
    finalize_phase
    [where st = prepared and t = 1 and am = acceptedV2
       and script = "[(worldDisconnected, Rejected)]"
       and evs = "[VolunteerForMigration 1]" and st' = prepared and s = Returned]
    finalize_phase
    [where st = prepared and t = 1 and am = acceptedV2
       and script = "[(worldMigrated, Resolved (PBool True))]"
       and evs = "[VolunteerForMigration 1]" and st' = prepared and s = Returned]
  by (simp add: scenario_defs accessor_defs model_defs finalizePhase_def finalize_spec_defs)

subsection \<open>The retry cache\<close>

text \<open>
  C3. Cache monotonicity. Take any run of the orchestrator from its construction, and any
  step after it.
  \<^item> While \<^verbatim>\<open>_preparedDetachedModel\<close> is set, a suspended attempt is in its finalize
    phase (an attempt that starts then starts at \<^verbatim>\<open>volunteerForMigration\<close>), and no
    step calls \<^verbatim>\<open>createDetached\<close>, \<^verbatim>\<open>loadExistingPaused\<close>,
    \<^verbatim>\<open>exportData\<close>, \<^verbatim>\<open>dispose\<close>, the transform callback or
    \<^verbatim>\<open>importData\<close>.
  \<^item> While \<^verbatim>\<open>_preparedModelId\<close> is set, no suspended attempt awaits
    \<^verbatim>\<open>attach()\<close> and no step calls \<^verbatim>\<open>attach\<close>.
  \<^item> A step that changes a cache field that was set is the resumption of
    \<^verbatim>\<open>doTheLoad\<close> where \<^verbatim>\<open>loadExisting\<close> resolves: it swaps the session, emits
    \<open>migrated\<close> and resets both fields.
  \<^item> A step that assigns \<^verbatim>\<open>_preparedModelId\<close> is the resumption of an attempt where
    \<^verbatim>\<open>attach()\<close> resolves, \<^verbatim>\<open>_preparedDetachedModel\<close> is set before it and
    left as it is; a step that assigns \<^verbatim>\<open>_preparedDetachedModel\<close> is the
    resumption of an attempt where \<^verbatim>\<open>importData\<close> resolves, and the cache is empty
    before it; and at all times \<^verbatim>\<open>_preparedModelId\<close> is set only when
    \<^verbatim>\<open>_preparedDetachedModel\<close> is.
\<close>

theorem cache_monotonicity:
  "newMigrator wc mc tc ic cb = Inr (evsc, sysc) \<and> run script sysc = Some (evsr, sys)
   \<and> step w inp sys = Some (evs, sys') \<longrightarrow>
     (preparedDetachedModel (migrator sys) \<noteq> None \<longrightarrow>
        (\<forall>t am pc. MigrationTask t am pc \<in> set (pending sys) \<longrightarrow>
            pc = AwaitVolunteer \<or> pc = AwaitAttach \<or> pc = AwaitFinalize)
        \<and> (\<forall>v. CreateDetached v \<notin> set evs) \<and> (\<forall>i n. LoadExistingPaused i n \<notin> set evs)
        \<and> (\<forall>m. ExportData m \<notin> set evs) \<and> (\<forall>m. Dispose m \<notin> set evs)
        \<and> (\<forall>x v. Transform x v \<notin> set evs) \<and> (\<forall>m x. ImportData m x \<notin> set evs))
     \<and> (preparedModelId (migrator sys) \<noteq> None \<longrightarrow>
          (\<forall>t am pc. MigrationTask t am pc \<in> set (pending sys) \<longrightarrow>
              pc = AwaitVolunteer \<or> pc = AwaitFinalize)
          \<and> (\<forall>d. Attach d \<notin> set evs))
     \<and> ((preparedDetachedModel (migrator sys) \<noteq> None
            \<and> preparedDetachedModel (migrator sys') \<noteq> preparedDetachedModel (migrator sys))
          \<or> (preparedModelId (migrator sys) \<noteq> None
            \<and> preparedModelId (migrator sys') \<noteq> preparedModelId (migrator sys))
         \<longrightarrow>
          (\<exists>n am1 mid m t.
             inp = Resume n (Resolved (PLoaded m t)) \<and> n < length (pending sys)
             \<and> pending sys ! n = LoadTask am1 mid LoadAwaitLoadExisting
             \<and> session (migrator sys') = (m, t, mid) \<and> Emit_migrated m mid \<in> set evs
             \<and> preparedDetachedModel (migrator sys') = None
             \<and> preparedModelId (migrator sys') = None))
     \<and> (preparedModelId (migrator sys') \<noteq> preparedModelId (migrator sys)
          \<and> preparedModelId (migrator sys') \<noteq> None \<longrightarrow>
          preparedDetachedModel (migrator sys) \<noteq> None
          \<and> preparedDetachedModel (migrator sys') = preparedDetachedModel (migrator sys)
          \<and> (\<exists>n t am2 pid. inp = Resume n (Resolved (PId pid)) \<and> n < length (pending sys)
                \<and> pending sys ! n = MigrationTask t am2 AwaitAttach
                \<and> preparedModelId (migrator sys') = Some pid))
     \<and> (preparedDetachedModel (migrator sys') \<noteq> preparedDetachedModel (migrator sys)
          \<and> preparedDetachedModel (migrator sys') \<noteq> None \<longrightarrow>
          preparedDetachedModel (migrator sys) = None \<and> preparedModelId (migrator sys) = None
          \<and> (\<exists>n t am3 d. inp = Resume n (Resolved PUnit) \<and> n < length (pending sys)
                \<and> pending sys ! n = MigrationTask t am3 (AwaitImportData d)
                \<and> preparedDetachedModel (migrator sys') = Some d))
     \<and> cacheOrdered (migrator sys) \<and> cacheOrdered (migrator sys')"
proof (intro impI)
  assume a: "newMigrator wc mc tc ic cb = Inr (evsc, sysc) \<and> run script sysc = Some (evsr, sys)
   \<and> step w inp sys = Some (evs, sys')"
  then have wf: "wellFormed sys" using reachable_wf by blast
  from a have s: "step w inp sys = Some (evs, sys')" by simp
  from step_wf[OF wf s] have wf': "wellFormed sys'" .
  have 1: "preparedDetachedModel (migrator sys) \<noteq> None \<longrightarrow>
        (\<forall>t am pc. MigrationTask t am pc \<in> set (pending sys) \<longrightarrow>
            pc = AwaitVolunteer \<or> pc = AwaitAttach \<or> pc = AwaitFinalize)
        \<and> (\<forall>v. CreateDetached v \<notin> set evs) \<and> (\<forall>i n. LoadExistingPaused i n \<notin> set evs)
        \<and> (\<forall>m. ExportData m \<notin> set evs) \<and> (\<forall>m. Dispose m \<notin> set evs)
        \<and> (\<forall>x v. Transform x v \<notin> set evs) \<and> (\<forall>m x. ImportData m x \<notin> set evs)"
  proof
    assume p: "preparedDetachedModel (migrator sys) \<noteq> None"
    with step_calls[OF wf s] have n: "\<forall>e\<in>set evs. \<not> isPrepareCall e"
      by (simp add: list_ex_iff)
    have "CreateDetached v \<notin> set evs" "LoadExistingPaused i k \<notin> set evs"
      "ExportData m \<notin> set evs" "Dispose m \<notin> set evs" "Transform x v \<notin> set evs"
      "ImportData m x \<notin> set evs" for v i k m x
      using n by (auto simp: isPrepareCall_def)
    with p wellFormed_attempt[OF wf] show "(\<forall>t am pc. MigrationTask t am pc \<in> set (pending sys) \<longrightarrow>
            pc = AwaitVolunteer \<or> pc = AwaitAttach \<or> pc = AwaitFinalize)
        \<and> (\<forall>v. CreateDetached v \<notin> set evs) \<and> (\<forall>i n. LoadExistingPaused i n \<notin> set evs)
        \<and> (\<forall>m. ExportData m \<notin> set evs) \<and> (\<forall>m. Dispose m \<notin> set evs)
        \<and> (\<forall>x v. Transform x v \<notin> set evs) \<and> (\<forall>m x. ImportData m x \<notin> set evs)"
      by blast
  qed
  have 2: "preparedModelId (migrator sys) \<noteq> None \<longrightarrow>
          (\<forall>t am pc. MigrationTask t am pc \<in> set (pending sys) \<longrightarrow>
              pc = AwaitVolunteer \<or> pc = AwaitFinalize)
          \<and> (\<forall>d. Attach d \<notin> set evs)"
    using step_calls[OF wf s] wellFormed_attempt[OF wf] by blast
  have 3: "(preparedDetachedModel (migrator sys) \<noteq> None
            \<and> preparedDetachedModel (migrator sys') \<noteq> preparedDetachedModel (migrator sys))
          \<or> (preparedModelId (migrator sys) \<noteq> None
            \<and> preparedModelId (migrator sys') \<noteq> preparedModelId (migrator sys))
         \<longrightarrow>
          (\<exists>n am1 mid m t.
             inp = Resume n (Resolved (PLoaded m t)) \<and> n < length (pending sys)
             \<and> pending sys ! n = LoadTask am1 mid LoadAwaitLoadExisting
             \<and> session (migrator sys') = (m, t, mid) \<and> Emit_migrated m mid \<in> set evs
             \<and> preparedDetachedModel (migrator sys') = None
             \<and> preparedModelId (migrator sys') = None)"
    using step_cache[OF s] step_cache_kept[OF wf s] by blast
  have 4: "preparedModelId (migrator sys') \<noteq> preparedModelId (migrator sys)
          \<and> preparedModelId (migrator sys') \<noteq> None \<longrightarrow>
          preparedDetachedModel (migrator sys) \<noteq> None
          \<and> preparedDetachedModel (migrator sys') = preparedDetachedModel (migrator sys)
          \<and> (\<exists>n t am2 pid. inp = Resume n (Resolved (PId pid)) \<and> n < length (pending sys)
                \<and> pending sys ! n = MigrationTask t am2 AwaitAttach
                \<and> preparedModelId (migrator sys') = Some pid)"
    using step_assigns[OF s] step_assigns_prepared[OF wf s] by blast
  have 5: "cacheOrdered (migrator sys)" "cacheOrdered (migrator sys')"
    using wf wf' by (auto simp: wellFormed_def)
  have 6: "preparedDetachedModel (migrator sys') \<noteq> preparedDetachedModel (migrator sys)
          \<and> preparedDetachedModel (migrator sys') \<noteq> None \<longrightarrow>
          preparedDetachedModel (migrator sys) = None \<and> preparedModelId (migrator sys) = None
          \<and> (\<exists>n t am3 d. inp = Resume n (Resolved PUnit) \<and> n < length (pending sys)
                \<and> pending sys ! n = MigrationTask t am3 (AwaitImportData d)
                \<and> preparedDetachedModel (migrator sys') = Some d)"
    using step_prepares[OF wf s] by blast
  from 1 2 3 4 5 6 show "(preparedDetachedModel (migrator sys) \<noteq> None \<longrightarrow>
        (\<forall>t am pc. MigrationTask t am pc \<in> set (pending sys) \<longrightarrow>
            pc = AwaitVolunteer \<or> pc = AwaitAttach \<or> pc = AwaitFinalize)
        \<and> (\<forall>v. CreateDetached v \<notin> set evs) \<and> (\<forall>i n. LoadExistingPaused i n \<notin> set evs)
        \<and> (\<forall>m. ExportData m \<notin> set evs) \<and> (\<forall>m. Dispose m \<notin> set evs)
        \<and> (\<forall>x v. Transform x v \<notin> set evs) \<and> (\<forall>m x. ImportData m x \<notin> set evs))
     \<and> (preparedModelId (migrator sys) \<noteq> None \<longrightarrow>
          (\<forall>t am pc. MigrationTask t am pc \<in> set (pending sys) \<longrightarrow>
              pc = AwaitVolunteer \<or> pc = AwaitFinalize)
          \<and> (\<forall>d. Attach d \<notin> set evs))
     \<and> ((preparedDetachedModel (migrator sys) \<noteq> None
            \<and> preparedDetachedModel (migrator sys') \<noteq> preparedDetachedModel (migrator sys))
          \<or> (preparedModelId (migrator sys) \<noteq> None
            \<and> preparedModelId (migrator sys') \<noteq> preparedModelId (migrator sys))
         \<longrightarrow>
          (\<exists>n am1 mid m t.
             inp = Resume n (Resolved (PLoaded m t)) \<and> n < length (pending sys)
             \<and> pending sys ! n = LoadTask am1 mid LoadAwaitLoadExisting
             \<and> session (migrator sys') = (m, t, mid) \<and> Emit_migrated m mid \<in> set evs
             \<and> preparedDetachedModel (migrator sys') = None
             \<and> preparedModelId (migrator sys') = None))
     \<and> (preparedModelId (migrator sys') \<noteq> preparedModelId (migrator sys)
          \<and> preparedModelId (migrator sys') \<noteq> None \<longrightarrow>
          preparedDetachedModel (migrator sys) \<noteq> None
          \<and> preparedDetachedModel (migrator sys') = preparedDetachedModel (migrator sys)
          \<and> (\<exists>n t am2 pid. inp = Resume n (Resolved (PId pid)) \<and> n < length (pending sys)
                \<and> pending sys ! n = MigrationTask t am2 AwaitAttach
                \<and> preparedModelId (migrator sys') = Some pid))
     \<and> (preparedDetachedModel (migrator sys') \<noteq> preparedDetachedModel (migrator sys)
          \<and> preparedDetachedModel (migrator sys') \<noteq> None \<longrightarrow>
          preparedDetachedModel (migrator sys) = None \<and> preparedModelId (migrator sys) = None
          \<and> (\<exists>n t am3 d. inp = Resume n (Resolved PUnit) \<and> n < length (pending sys)
                \<and> pending sys ! n = MigrationTask t am3 (AwaitImportData d)
                \<and> preparedDetachedModel (migrator sys') = Some d))
     \<and> cacheOrdered (migrator sys) \<and> cacheOrdered (migrator sys')"
    by (intro conjI)
qed

theorem cache_monotonicity_witness:
  "newMigrator worldSettled 10 1 ''old'' None
     = Inr ([Once 1 ''migrating'' Dispatcher], waiting)
   \<and> step worldMigrating (Resume 0 (Resolved PUnit)) importing
     = Some ([VolunteerForMigration 1],
             \<lparr>migrator = prepared, pending = [MigrationTask 1 acceptedV2 AwaitVolunteer],
              listeners = []\<rparr>)
   \<and> preparedDetachedModel (migrator importing) = None
   \<and> step worldMigrating (Resume 0 (Resolved (PId ''new''))) attaching
     = Some ([FinalizeMigration 1 ''new''], finalizing)
   \<and> preparedDetachedModel (migrator attaching) = Some (Detached 0 20)
   \<and> preparedModelId (migrator attaching) = None
   \<and> preparedDetachedModel (migrator finalizing) = Some (Detached 0 20)
   \<and> preparedModelId (migrator finalizing) = Some ''new''
   \<and> step worldMigrating (Resume 0 (Resolved (PBool True))) retrying
     = Some ([FinalizeMigration 1 ''new''], finalizing)
   \<and> preparedModelId (migrator retrying) = Some ''new''
   \<and> step worldSettled (Resume 0 (Resolved (PLoaded 40 2))) swapping
     = Some ([Emit_migrated 40 ''new'', Once 2 ''migrating'' Dispatcher],
             \<lparr>migrator = successor, pending = [],
              listeners = [(2, ''migrating'', Dispatcher)]\<rparr>)
   \<and> preparedDetachedModel (migrator swapping) = Some (Detached 0 20)
   \<and> preparedDetachedModel successor = None \<and> preparedModelId successor = None
   \<and> cacheOrdered prepared \<and> cacheOrdered attached \<and> cacheOrdered successor"
  using cache_monotonicity
    [where wc = worldSettled and mc = 10 and tc = 1 and ic = "''old''" and cb = None
       and evsc = "[Once 1 ''migrating'' Dispatcher]" and sysc = waiting
       and script = "take 5 happyPath"
       and evsr = "[Emit_migrating, SupportsVersion ''v2'', CreateDetached ''v2'',
              LoadExistingPaused ''old'' 7, ExportData 30, Dispose 30, ImportData 20 ''x'']"
       and sys = importing and w = worldMigrating and inp = "Resume 0 (Resolved PUnit)"
       and evs = "[VolunteerForMigration 1]"
       and sys' = "\<lparr>migrator = prepared, pending = [MigrationTask 1 acceptedV2 AwaitVolunteer],
                    listeners = []\<rparr>"]
    cache_monotonicity
    [where wc = worldSettled and mc = 10 and tc = 1 and ic = "''old''" and cb = None
       and evsc = "[Once 1 ''migrating'' Dispatcher]" and sysc = waiting
       and script = "take 7 happyPath"
       and evsr = "[Emit_migrating, SupportsVersion ''v2'', CreateDetached ''v2'',
              LoadExistingPaused ''old'' 7, ExportData 30, Dispose 30, ImportData 20 ''x'',
              VolunteerForMigration 1, Attach (Detached 0 20)]"
       and sys = attaching and w = worldMigrating and inp = "Resume 0 (Resolved (PId ''new''))"
       and evs = "[FinalizeMigration 1 ''new'']" and sys' = finalizing]
    cache_monotonicity
    [where wc = worldSettled and mc = 10 and tc = 1 and ic = "''old''" and cb = None
       and evsc = "[Once 1 ''migrating'' Dispatcher]" and sysc = waiting
       and script = "take 10 retryPath"
       and evsr = "[Emit_migrating, SupportsVersion ''v2'', CreateDetached ''v2'',
              LoadExistingPaused ''old'' 7, ExportData 30, Dispose 30, ImportData 20 ''x'',
              VolunteerForMigration 1, Attach (Detached 0 20),
              Once 1 ''connected'' Dispatcher,
              Emit_migrating, VolunteerForMigration 1]"
       and sys = retrying and w = worldMigrating and inp = "Resume 0 (Resolved (PBool True))"
       and evs = "[FinalizeMigration 1 ''new'']" and sys' = finalizing]
    cache_monotonicity
    [where wc = worldSettled and mc = 10 and tc = 1 and ic = "''old''" and cb = None
       and evsc = "[Once 1 ''migrating'' Dispatcher]" and sysc = waiting
       and script = "take 11 happyPath"
       and evsr = "[Emit_migrating, SupportsVersion ''v2'', CreateDetached ''v2'',
              LoadExistingPaused ''old'' 7, ExportData 30, Dispose 30, ImportData 20 ''x'',
              VolunteerForMigration 1, Attach (Detached 0 20), FinalizeMigration 1 ''new'',
              CompleteMigrationTask 1, SupportsVersion ''v2'', LoadExisting ''new'']"
       and sys = swapping and w = worldSettled and inp = "Resume 0 (Resolved (PLoaded 40 2))"
       and evs = "[Emit_migrated 40 ''new'', Once 2 ''migrating'' Dispatcher]"
       and sys' = "\<lparr>migrator = successor, pending = [],
                    listeners = [(2, ''migrating'', Dispatcher)]\<rparr>"]
    constructed run_importing run_attaching run_retrying run_swapping
  by (simp add: scenario_defs accessor_defs model_defs cacheOrdered_def del: take_Suc_Cons)

end
